theory Spec2Isabelle
  imports Complex_Main "HOL-Library.Word" "HOL-Library.Signed_Division" "HOL-Library.Product_Lexorder"
begin

unbundle bit_operations_syntax

section \<open>Byte streams (CDataStream)\<close>

text \<open>
  A \<open>std::string\<close> and the contents of a \<open>CDataStream\<close> are sequences of 8-bit chars,
  so both are \<^typ>\<open>string\<close>. \<open>CAmount\<close> and every other \<open>int64_t\<close> is a 64-bit word
  read with \<^const>\<open>sint\<close>; \<open>uint8_t\<close> is an 8-bit word.

\<close>

text \<open>Modelled from the spec: the serialisation framework (\<open>serialize.h\<close> is not among
  the sources): what \<open>READWRITE\<close> does for the types the token code serialises, after
  the Bitcoin conventions the specification refers to: integers little-endian, a string
  as its compact size followed by its bytes, and a compact size read back only when it is
  canonical and at most \<open>MAX_SIZE\<close>.\<close>

type_synonym CAmount = "64 word"
type_synonym int64 = "64 word"
type_synonym uint8 = "8 word"
type_synonym uint256 = "256 word"

text \<open>A reader consumes a prefix of the stream; \<open>None\<close> is the \<open>std::ios_base::failure\<close>
  that \<open>CDataStream::read\<close> and \<open>ReadCompactSize\<close> throw.\<close>

type_synonym 'a reader = "string \<Rightarrow> ('a \<times> string) option"

definition bindR :: "'a reader \<Rightarrow> ('a \<Rightarrow> 'b reader) \<Rightarrow> 'b reader" where
  "bindR p f s = (case p s of None \<Rightarrow> None | Some (a, r) \<Rightarrow> f a r)"

definition returnR :: "'a \<Rightarrow> 'a reader" where
  "returnR a s = Some (a, s)"

fun le_bytes :: "nat \<Rightarrow> nat \<Rightarrow> string" where
  "le_bytes 0 v = []"
| "le_bytes (Suc k) v = char_of (v mod 256) # le_bytes k (v div 256)"

fun le_val :: "string \<Rightarrow> nat" where
  "le_val [] = 0"
| "le_val (c # cs) = of_char c + 256 * le_val cs"

definition read_bytes :: "nat \<Rightarrow> string reader" where
  "read_bytes n s = (if length s < n then None else Some (take n s, drop n s))"

definition MAX_SIZE :: nat where
  "MAX_SIZE = 0x02000000"

definition WriteCompactSize :: "nat \<Rightarrow> string" where
  "WriteCompactSize nSize =
     (if nSize < 253 then le_bytes 1 nSize
      else if nSize \<le> 0xFFFF then char_of (253::nat) # le_bytes 2 nSize
      else if nSize \<le> 0xFFFFFFFF then char_of (254::nat) # le_bytes 4 nSize
      else char_of (255::nat) # le_bytes 8 nSize)"

definition ReadCompactSize :: "nat reader" where
  "ReadCompactSize =
     bindR (read_bytes 1) (\<lambda>ch.
       let chSize = le_val ch in
       bindR (if chSize < 253 then returnR chSize
              else if chSize = 253 then
                bindR (read_bytes 2) (\<lambda>b. if le_val b < 253 then (\<lambda>_. None) else returnR (le_val b))
              else if chSize = 254 then
                bindR (read_bytes 4) (\<lambda>b. if le_val b < 0x10000 then (\<lambda>_. None) else returnR (le_val b))
              else
                bindR (read_bytes 8) (\<lambda>b. if le_val b < 0x100000000 then (\<lambda>_. None) else returnR (le_val b)))
         (\<lambda>nSizeRet. if nSizeRet > MAX_SIZE then (\<lambda>_. None) else returnR nSizeRet))"

definition ser_string :: "string \<Rightarrow> string" where
  "ser_string str = WriteCompactSize (length str) @ str"

definition unser_string :: "string reader" where
  "unser_string = bindR ReadCompactSize read_bytes"

definition ser_uint8 :: "uint8 \<Rightarrow> string" where
  "ser_uint8 v = le_bytes 1 (unat v)"

definition unser_uint8 :: "uint8 reader" where
  "unser_uint8 = bindR (read_bytes 1) (\<lambda>b. returnR (word_of_nat (le_val b)))"

definition ser_int64 :: "int64 \<Rightarrow> string" where
  "ser_int64 v = le_bytes 8 (unat v)"

definition unser_int64 :: "int64 reader" where
  "unser_int64 = bindR (read_bytes 8) (\<lambda>b. returnR (word_of_nat (le_val b)))"

section \<open>Token operations (wallet/token.h)\<close>

datatype TokenOp = CREATE | TRANSFER | APPROVE | TRANSFERFROM | INCREASE_ALLOWANCE
  | DECREASE_ALLOWANCE | BURN | MINT | TRANSFER_OWNERSHIP

text \<open>\<open>enum class TokenOp : uint8_t\<close>: the field holds any byte (deserialisation casts the
  byte read), of which nine values are named.\<close>

definition TokenOp_val :: "TokenOp \<Rightarrow> uint8" where
  "TokenOp_val t = (case t of CREATE \<Rightarrow> 0 | TRANSFER \<Rightarrow> 1 | APPROVE \<Rightarrow> 2 | TRANSFERFROM \<Rightarrow> 3
     | INCREASE_ALLOWANCE \<Rightarrow> 4 | DECREASE_ALLOWANCE \<Rightarrow> 5 | BURN \<Rightarrow> 6 | MINT \<Rightarrow> 7
     | TRANSFER_OWNERSHIP \<Rightarrow> 8)"

definition TokenOp_of :: "uint8 \<Rightarrow> TokenOp option" where
  "TokenOp_of v =
     (if v = 0 then Some CREATE else if v = 1 then Some TRANSFER else if v = 2 then Some APPROVE
      else if v = 3 then Some TRANSFERFROM else if v = 4 then Some INCREASE_ALLOWANCE
      else if v = 5 then Some DECREASE_ALLOWANCE else if v = 6 then Some BURN
      else if v = 7 then Some MINT else if v = 8 then Some TRANSFER_OWNERSHIP else None)"

text \<open>\<open>struct TokenOperation\<close>; the fields keep their names behind the prefix \<open>op_\<close>
  (\<open>op_kind\<close> is the field \<open>op\<close>).\<close>

record TokenOperation =
  op_kind :: uint8
  op_from :: string
  op_to :: string
  op_spender :: string
  op_token :: string
  op_amount :: CAmount
  op_name :: string
  op_symbol :: string
  op_decimals :: uint8
  op_timestamp :: int64
  op_signer :: string
  op_signature :: string
  op_wallet_name :: string
  op_memo :: string

text \<open>A default-constructed \<open>TokenOperation\<close>.\<close>

definition TokenOperation_default :: TokenOperation where
  "TokenOperation_default = \<lparr> op_kind = 0, op_from = [], op_to = [], op_spender = [],
     op_token = [], op_amount = 0, op_name = [], op_symbol = [], op_decimals = 0,
     op_timestamp = 0, op_signer = [], op_signature = [], op_wallet_name = [], op_memo = [] \<rparr>"

text \<open>The fields that both formats write, in the order of \<open>SERIALIZE_METHODS\<close>.\<close>

definition ser_fields :: "TokenOperation \<Rightarrow> string" where
  "ser_fields obj = ser_uint8 (op_kind obj) @ ser_string (op_from obj) @ ser_string (op_to obj)
     @ ser_string (op_spender obj) @ ser_string (op_token obj) @ ser_int64 (op_amount obj)
     @ ser_string (op_name obj) @ ser_string (op_symbol obj) @ ser_uint8 (op_decimals obj)
     @ ser_int64 (op_timestamp obj) @ ser_string (op_signer obj) @ ser_string (op_signature obj)"

definition unser_fields :: "TokenOperation \<Rightarrow> TokenOperation reader" where
  "unser_fields obj =
     bindR unser_uint8 (\<lambda>op_val.
     bindR unser_string (\<lambda>from.
     bindR unser_string (\<lambda>to.
     bindR unser_string (\<lambda>spender.
     bindR unser_string (\<lambda>token.
     bindR unser_int64 (\<lambda>amount.
     bindR unser_string (\<lambda>name.
     bindR unser_string (\<lambda>symbol.
     bindR unser_uint8 (\<lambda>decimals.
     bindR unser_int64 (\<lambda>timestamp.
     bindR unser_string (\<lambda>signer.
     bindR unser_string (\<lambda>signature.
     returnR (obj\<lparr> op_kind := op_val, op_from := from, op_to := to, op_spender := spender,
                   op_token := token, op_amount := amount, op_name := name, op_symbol := symbol,
                   op_decimals := decimals, op_timestamp := timestamp, op_signer := signer,
                   op_signature := signature \<rparr>)))))))))))))"

text \<open>\<open>SERIALIZE_METHODS(TokenOperation, obj)\<close>, writing: the fields, then the flag
  \<open>hasMemo = !obj.memo.empty()\<close>, then the memo when the flag is set.\<close>

definition Serialize :: "TokenOperation \<Rightarrow> string" where
  "Serialize obj = ser_fields obj @
     (let hasMemo = (if op_memo obj \<noteq> [] then 1 else 0) in
      ser_uint8 hasMemo @ (if hasMemo \<noteq> 0 then ser_string (op_memo obj) else []))"

text \<open>\<open>SERIALIZE_METHODS(TokenOperation, obj)\<close>, reading into \<open>obj\<close>.\<close>

definition Unserialize :: "TokenOperation \<Rightarrow> TokenOperation reader" where
  "Unserialize obj =
     bindR (unser_fields obj) (\<lambda>obj1.
     bindR unser_uint8 (\<lambda>hasMemo.
       if hasMemo \<noteq> 0 then bindR unser_string (\<lambda>memo. returnR (obj1\<lparr> op_memo := memo \<rparr>))
       else returnR (obj1\<lparr> op_memo := [] \<rparr>)))"

definition GetSerializeSize :: "TokenOperation \<Rightarrow> nat" where
  "GetSerializeSize obj = length (Serialize obj)"


section \<open>The token ledger (wallet/token.cpp)\<close>

record TokenMeta =
  meta_name :: string
  meta_symbol :: string
  meta_decimals :: uint8
  operator_wallet :: string
  creation_height :: int64

text \<open>The members of \<open>class TokenLedger\<close>. \<open>AllowanceKey\<close> is the triple
  (owner, spender, token). A \<open>std::map\<close> is a partial map.\<close>

record TokenLedger =
  m_balances :: "(string \<times> string) \<rightharpoonup> CAmount"
  m_allowances :: "(string \<times> string \<times> string) \<rightharpoonup> CAmount"
  m_totalSupply :: "string \<rightharpoonup> CAmount"
  m_token_meta :: "string \<rightharpoonup> TokenMeta"
  m_seen_ops :: "uint256 set"
  m_history :: "string \<rightharpoonup> TokenOperation list"
  m_governance_wallet :: string
  m_governance_fees :: CAmount
  m_fee_per_vbyte :: CAmount
  m_create_fee_per_vbyte :: CAmount
  m_wallet_signers :: "string \<rightharpoonup> string \<times> string"
  m_tip_height :: int64

text \<open>What the ledger calls outside itself: address decoding and message verification
  (elliptic-curve recovery), the hash of a serialised object, the height of the active
  chain and the wallet that pays the governance fee.\<close>

record Node =
  IsValidDestination :: "string \<Rightarrow> bool"
  MessageVerify :: "string \<Rightarrow> string \<Rightarrow> string \<Rightarrow> bool"
  Hash :: "string \<Rightarrow> uint256"
  ChainActiveHeight :: int64
  SendGovernanceFee :: "string \<Rightarrow> CAmount \<Rightarrow> bool"

definition TOKEN_MIN_GOV_FEE :: CAmount where
  "TOKEN_MIN_GOV_FEE = 7500000"

text \<open>\<open>m[k]\<close> on a \<open>std::map\<close> of amounts: the value stored, and 0 for a key that the
  access creates.\<close>

definition at0 :: "('k \<rightharpoonup> CAmount) \<Rightarrow> 'k \<Rightarrow> CAmount" where
  "at0 m k = (case m k of None \<Rightarrow> 0 | Some v \<Rightarrow> v)"

definition SerializeHash :: "Node \<Rightarrow> TokenOperation \<Rightarrow> uint256" where
  "SerializeHash node obj = Hash node (Serialize obj)"

definition TokenOperationHash :: "Node \<Rightarrow> TokenOperation \<Rightarrow> uint256" where
  "TokenOperationHash node op =
     (let tmp = op\<lparr> op_signature := [] \<rparr>; tmp = tmp\<lparr> op_signer := [] \<rparr>
      in SerializeHash node tmp)"

subsection \<open>The signed message\<close>

fun show_nat :: "nat \<Rightarrow> string" where
  "show_nat n = (if n < 10 then [char_of (48 + n)]
                 else show_nat (n div 10) @ [char_of (48 + n mod 10)])"

declare show_nat.simps [simp del]

definition show_int :: "int \<Rightarrow> string" where
  "show_int i = (if i < 0 then CHR ''-'' # show_nat (nat (- i)) else show_nat (nat i))"

definition BuildTokenMsg :: "TokenOperation \<Rightarrow> string" where
  "BuildTokenMsg op =
     (let msg = ''op='' @ show_int (uint (op_kind op)) @ ''|from='' @ op_from op
          @ ''|to='' @ op_to op @ ''|spender='' @ op_spender op @ ''|token='' @ op_token op
          @ ''|amount='' @ show_int (sint (op_amount op)) @ ''|name='' @ op_name op
          @ ''|symbol='' @ op_symbol op @ ''|decimals='' @ show_int (uint (op_decimals op))
          @ ''|timestamp='' @ show_int (sint (op_timestamp op))
      in if op_memo op \<noteq> [] then msg @ ''|memo='' @ op_memo op else msg)"

definition VerifySignature :: "Node \<Rightarrow> TokenOperation \<Rightarrow> bool" where
  "VerifySignature node op =
     (if \<not> IsValidDestination node (op_signer op) then False
      else let message = BuildTokenMsg op in
        if \<not> MessageVerify node (op_signer op) (op_signature op) message then False
        else let expected = (if op_kind op = TokenOp_val TRANSFERFROM then op_spender op else op_from op)
          in if op_signer op \<noteq> expected then False else True)"

subsection \<open>The handlers\<close>

definition RegisterToken ::
  "TokenLedger \<Rightarrow> string \<Rightarrow> string \<Rightarrow> string \<Rightarrow> uint8 \<Rightarrow> string \<Rightarrow> int64 \<Rightarrow> TokenLedger" where
  "RegisterToken L token name symbol decimals owner height =
     L\<lparr> m_token_meta := (m_token_meta L)(token \<mapsto>
          \<lparr> meta_name = name, meta_symbol = symbol, meta_decimals = decimals,
            operator_wallet = owner, creation_height = height \<rparr>) \<rparr>"

definition CreateToken ::
  "TokenLedger \<Rightarrow> string \<Rightarrow> string \<Rightarrow> CAmount \<Rightarrow> string \<Rightarrow> string \<Rightarrow> uint8 \<Rightarrow> int64 \<Rightarrow> TokenLedger" where
  "CreateToken L wallet token amount name symbol decimals height =
     (let L1 = L\<lparr> m_balances := (m_balances L)((wallet, token) \<mapsto> at0 (m_balances L) (wallet, token) + amount) \<rparr>;
          L2 = L1\<lparr> m_totalSupply := (m_totalSupply L1)(token \<mapsto> at0 (m_totalSupply L1) token + amount) \<rparr>
      in if m_token_meta L2 token = None
         then RegisterToken L2 token name symbol decimals wallet height
         else L2)"

definition Balance :: "TokenLedger \<Rightarrow> string \<Rightarrow> string \<Rightarrow> CAmount" where
  "Balance L wallet token = (case m_balances L (wallet, token) of None \<Rightarrow> 0 | Some v \<Rightarrow> v)"

definition Approve :: "TokenLedger \<Rightarrow> string \<Rightarrow> string \<Rightarrow> string \<Rightarrow> CAmount \<Rightarrow> TokenLedger" where
  "Approve L owner spender token amount =
     L\<lparr> m_allowances := (m_allowances L)((owner, spender, token) \<mapsto> amount) \<rparr>"

definition IncreaseAllowance :: "TokenLedger \<Rightarrow> string \<Rightarrow> string \<Rightarrow> string \<Rightarrow> CAmount \<Rightarrow> TokenLedger" where
  "IncreaseAllowance L owner spender token amount =
     L\<lparr> m_allowances := (m_allowances L)((owner, spender, token) \<mapsto>
          at0 (m_allowances L) (owner, spender, token) + amount) \<rparr>"

definition DecreaseAllowance :: "TokenLedger \<Rightarrow> string \<Rightarrow> string \<Rightarrow> string \<Rightarrow> CAmount \<Rightarrow> TokenLedger" where
  "DecreaseAllowance L owner spender token amount =
     (let val = at0 (m_allowances L) (owner, spender, token) in
      if sint val \<le> sint amount
      then L\<lparr> m_allowances := (m_allowances L)((owner, spender, token) := None) \<rparr>
      else L\<lparr> m_allowances := (m_allowances L)((owner, spender, token) \<mapsto> val - amount) \<rparr>)"

definition TotalSupply :: "TokenLedger \<Rightarrow> string \<Rightarrow> CAmount" where
  "TotalSupply L token = (case m_totalSupply L token of None \<Rightarrow> 0 | Some v \<Rightarrow> v)"

definition Allowance :: "TokenLedger \<Rightarrow> string \<Rightarrow> string \<Rightarrow> string \<Rightarrow> CAmount" where
  "Allowance L owner spender token =
     (case m_allowances L (owner, spender, token) of None \<Rightarrow> 0 | Some v \<Rightarrow> v)"

text \<open>\<open>CAmount& from_bal = m_balances[{from, token}]\<close> creates the sender's entry before the
  balance is compared, so the entry is there also when the transfer is refused.\<close>

definition Transfer :: "TokenLedger \<Rightarrow> string \<Rightarrow> string \<Rightarrow> string \<Rightarrow> CAmount \<Rightarrow> bool \<times> TokenLedger" where
  "Transfer L from to token amount =
     (let from_bal = at0 (m_balances L) (from, token);
          b1 = (m_balances L)((from, token) \<mapsto> from_bal)
      in if sint from_bal < sint amount then (False, L\<lparr> m_balances := b1 \<rparr>)
         else let b2 = b1((from, token) \<mapsto> from_bal - amount);
                  b3 = b2((to, token) \<mapsto> at0 b2 (to, token) + amount)
              in (True, L\<lparr> m_balances := b3 \<rparr>))"

definition TransferFrom ::
  "TokenLedger \<Rightarrow> string \<Rightarrow> string \<Rightarrow> string \<Rightarrow> string \<Rightarrow> CAmount \<Rightarrow> bool \<times> TokenLedger" where
  "TransferFrom L spender from to token amount =
     (let key = (from, spender, token) in
      case m_allowances L key of
        None \<Rightarrow> (False, L)
      | Some allowed \<Rightarrow>
          if sint allowed < sint amount then (False, L)
          else let from_bal = at0 (m_balances L) (from, token);
                   b1 = (m_balances L)((from, token) \<mapsto> from_bal)
               in if sint from_bal < sint amount then (False, L\<lparr> m_balances := b1 \<rparr>)
                  else let b2 = b1((from, token) \<mapsto> from_bal - amount);
                           b3 = b2((to, token) \<mapsto> at0 b2 (to, token) + amount)
                       in (True, L\<lparr> m_balances := b3,
                                     m_allowances := (m_allowances L)(key \<mapsto> allowed - amount) \<rparr>))"

definition Burn :: "TokenLedger \<Rightarrow> string \<Rightarrow> string \<Rightarrow> CAmount \<Rightarrow> bool \<times> TokenLedger" where
  "Burn L wallet token amount =
     (if m_token_meta L token = None then (False, L)
      else let bal = at0 (m_balances L) (wallet, token);
               b1 = (m_balances L)((wallet, token) \<mapsto> bal)
           in if sint bal < sint amount then (False, L\<lparr> m_balances := b1 \<rparr>)
              else (True, L\<lparr> m_balances := b1((wallet, token) \<mapsto> bal - amount),
                            m_totalSupply := (m_totalSupply L)(token \<mapsto> at0 (m_totalSupply L) token - amount) \<rparr>))"

definition Mint :: "TokenLedger \<Rightarrow> string \<Rightarrow> string \<Rightarrow> CAmount \<Rightarrow> bool \<times> TokenLedger" where
  "Mint L wallet token amount =
     (if m_token_meta L token = None then (False, L)
      else (True, L\<lparr> m_balances := (m_balances L)((wallet, token) \<mapsto> at0 (m_balances L) (wallet, token) + amount),
                    m_totalSupply := (m_totalSupply L)(token \<mapsto> at0 (m_totalSupply L) token + amount) \<rparr>))"

definition TransferOwnership :: "TokenLedger \<Rightarrow> string \<Rightarrow> string \<Rightarrow> string \<Rightarrow> bool \<times> TokenLedger" where
  "TransferOwnership L from to token =
     (case m_token_meta L token of
        None \<Rightarrow> (False, L)
      | Some meta \<Rightarrow>
          if operator_wallet meta \<noteq> from then (False, L)
          else (True, L\<lparr> m_token_meta := (m_token_meta L)(token \<mapsto> meta\<lparr> operator_wallet := to \<rparr>) \<rparr>))"

subsection \<open>ApplyOperation and ReplayOperation\<close>

text \<open>The \<open>switch (op.op)\<close>, which the two functions write out identically; only the height
  handed to \<open>CreateToken\<close> differs. A \<open>return false\<close> inside the switch (BURN, MINT) leaves
  through the same exit as \<open>ok = false\<close>, since everything after the switch is guarded by
  \<open>ok\<close>. A byte that names no operation matches no case and leaves \<open>ok = true\<close>.\<close>

definition dispatch :: "TokenLedger \<Rightarrow> TokenOperation \<Rightarrow> int64 \<Rightarrow> bool \<times> TokenLedger" where
  "dispatch L op height =
     (case TokenOp_of (op_kind op) of
        Some CREATE \<Rightarrow>
          (True, CreateToken L (op_from op) (op_token op) (op_amount op) (op_name op)
                   (op_symbol op) (op_decimals op) height)
      | Some TRANSFER \<Rightarrow> Transfer L (op_from op) (op_to op) (op_token op) (op_amount op)
      | Some APPROVE \<Rightarrow> (True, Approve L (op_from op) (op_to op) (op_token op) (op_amount op))
      | Some TRANSFERFROM \<Rightarrow>
          TransferFrom L (op_spender op) (op_from op) (op_to op) (op_token op) (op_amount op)
      | Some INCREASE_ALLOWANCE \<Rightarrow>
          (True, IncreaseAllowance L (op_from op) (op_to op) (op_token op) (op_amount op))
      | Some DECREASE_ALLOWANCE \<Rightarrow>
          (True, DecreaseAllowance L (op_from op) (op_to op) (op_token op) (op_amount op))
      | Some BURN \<Rightarrow>
          if m_token_meta L (op_token op) = None then (False, L)
          else Burn L (op_from op) (op_token op) (op_amount op)
      | Some MINT \<Rightarrow>
          (case m_token_meta L (op_token op) of
             None \<Rightarrow> (False, L)
           | Some meta \<Rightarrow>
               if operator_wallet meta \<noteq> op_from op then (False, L)
               else Mint L (op_from op) (op_token op) (op_amount op))
      | Some TRANSFER_OWNERSHIP \<Rightarrow> TransferOwnership L (op_from op) (op_to op) (op_token op)
      | None \<Rightarrow> (True, L))"

definition push_history :: "TokenLedger \<Rightarrow> TokenOperation \<Rightarrow> TokenLedger" where
  "push_history L op =
     L\<lparr> m_history := (m_history L)(op_token op \<mapsto>
          (case m_history L (op_token op) of None \<Rightarrow> [] | Some h \<Rightarrow> h) @ [op]) \<rparr>"

definition TokenHistory :: "TokenLedger \<Rightarrow> string \<Rightarrow> string \<Rightarrow> TokenOperation list" where
  "TokenHistory L token address_filter =
     (case m_history L token of
        None \<Rightarrow> []
      | Some h \<Rightarrow>
          filter (\<lambda>op. \<not> (address_filter \<noteq> [] \<and> op_from op \<noteq> address_filter
                         \<and> op_to op \<noteq> address_filter \<and> op_spender op \<noteq> address_filter)) h)"

text \<open>\<open>ApplyOperation\<close>. \<open>Flush\<close>, \<open>RecordOperationOnChain\<close> and \<open>BroadcastTokenOp\<close> write
  to the database, the wallet and the network, and leave the ledger's members alone.\<close>

definition ApplyOperation ::
  "Node \<Rightarrow> TokenLedger \<Rightarrow> TokenOperation \<Rightarrow> string \<Rightarrow> bool \<Rightarrow> bool \<times> TokenLedger" where
  "ApplyOperation node L op wallet_name broadcast =
     (if \<not> VerifySignature node op then (False, L)
      else let hash = TokenOperationHash node op in
        if hash \<in> m_seen_ops L then (False, L)
        else let L1 = L\<lparr> m_seen_ops := insert hash (m_seen_ops L) \<rparr>;
                 (ok, L2) = dispatch L1 op (ChainActiveHeight node)
             in if ok then
                  let vsize = (word_of_nat (GetSerializeSize op) :: 32 word);
                      rate = (if op_kind op = TokenOp_val CREATE then m_create_fee_per_vbyte L2
                              else m_fee_per_vbyte L2);
                      fee = ucast vsize * rate;
                      fee = (if sint fee < sint TOKEN_MIN_GOV_FEE then TOKEN_MIN_GOV_FEE else fee);
                      L3 = (if broadcast \<and> wallet_name \<noteq> [] \<and> SendGovernanceFee node wallet_name fee
                            then L2\<lparr> m_governance_fees := m_governance_fees L2 + fee \<rparr> else L2)
                  in (True, push_history L3 op)
                else (False, L2))"

definition ReplayOperation ::
  "Node \<Rightarrow> TokenLedger \<Rightarrow> TokenOperation \<Rightarrow> int64 \<Rightarrow> bool \<times> TokenLedger" where
  "ReplayOperation node L op height =
     (if \<not> VerifySignature node op then (False, L)
      else let hash = TokenOperationHash node op in
        if hash \<in> m_seen_ops L then (False, L)
        else let L1 = L\<lparr> m_seen_ops := insert hash (m_seen_ops L) \<rparr>;
                 (ok, L2) = dispatch L1 op height
             in if ok then (True, push_history L2 op) else (False, L2))"

subsection \<open>What the specification asks of a refused or repeated operation\<close>

text \<open>The preconditions of the operation semantics, negated: the balance is insufficient
  (TRANSFER, BURN, TRANSFERFROM), the allowance is insufficient (TRANSFERFROM), the metadata
  is missing (BURN, MINT), the sender is not the operator (MINT, TRANSFER\_OWNERSHIP).\<close>

definition violates_precondition :: "TokenLedger \<Rightarrow> TokenOperation \<Rightarrow> bool" where
  "violates_precondition L op =
     (case TokenOp_of (op_kind op) of
        Some TRANSFER \<Rightarrow> sint (Balance L (op_from op) (op_token op)) < sint (op_amount op)
      | Some TRANSFERFROM \<Rightarrow>
          sint (Allowance L (op_from op) (op_spender op) (op_token op)) < sint (op_amount op)
          \<or> sint (Balance L (op_from op) (op_token op)) < sint (op_amount op)
      | Some BURN \<Rightarrow>
          m_token_meta L (op_token op) = None
          \<or> sint (Balance L (op_from op) (op_token op)) < sint (op_amount op)
      | Some MINT \<Rightarrow>
          (case m_token_meta L (op_token op) of None \<Rightarrow> True
           | Some meta \<Rightarrow> operator_wallet meta \<noteq> op_from op)
      | Some TRANSFER_OWNERSHIP \<Rightarrow>
          (case m_token_meta L (op_token op) of None \<Rightarrow> True
           | Some meta \<Rightarrow> operator_wallet meta \<noteq> op_from op)
      | _ \<Rightarrow> False)"

text \<open>What a refused operation may still have done: created balance entries holding 0.\<close>

definition same_but_balance_entries :: "TokenLedger \<Rightarrow> TokenLedger \<Rightarrow> bool" where
  "same_but_balance_entries L L' \<longleftrightarrow>
     (\<forall>wallet token. Balance L' wallet token = Balance L wallet token)
     \<and> m_allowances L' = m_allowances L \<and> m_totalSupply L' = m_totalSupply L
     \<and> m_token_meta L' = m_token_meta L \<and> m_history L' = m_history L
     \<and> m_governance_fees L' = m_governance_fees L \<and> m_seen_ops L' = m_seen_ops L"

text \<open>What a CREATE on a registered token does: the metadata stays, the creator is
  credited, the supply grows, the operation is recorded.\<close>

definition created_again :: "TokenLedger \<Rightarrow> TokenOperation \<Rightarrow> TokenLedger \<Rightarrow> bool" where
  "created_again L op L' \<longleftrightarrow>
     m_token_meta L' = m_token_meta L
     \<and> Balance L' (op_from op) (op_token op) = Balance L (op_from op) (op_token op) + op_amount op
     \<and> TotalSupply L' (op_token op) = TotalSupply L (op_token op) + op_amount op
     \<and> TokenHistory L' (op_token op) [] = TokenHistory L (op_token op) [] @ [op]"

subsection \<open>A ledger to run the operations on\<close>

text \<open>A node that accepts every address and signature and hashes a stream to its length;
  the ledger after \<open>alice\<close> created 1000 units of a token.\<close>

definition test_node :: Node where
  "test_node = \<lparr> IsValidDestination = (\<lambda>_. True), MessageVerify = (\<lambda>_ _ _. True),
      Hash = (\<lambda>s. word_of_nat (length s)), ChainActiveHeight = 100,
      SendGovernanceFee = (\<lambda>_ _. False) \<rparr>"

definition empty_ledger :: TokenLedger where
  "empty_ledger = \<lparr> m_balances = Map.empty, m_allowances = Map.empty, m_totalSupply = Map.empty,
      m_token_meta = Map.empty, m_seen_ops = {}, m_history = Map.empty,
      m_governance_wallet = ''itc1qwccnjw6gz49vlsjvf3f6wvamltmqdykwmh0r4r'',
      m_governance_fees = 0, m_fee_per_vbyte = 10000, m_create_fee_per_vbyte = 10000000,
      m_wallet_signers = Map.empty, m_tip_height = 0 \<rparr>"

definition tokT :: string where
  "tokT = ''0x0123456789abcdef0123456789abcdef0123456789abcdef012345tok''"

definition create_T :: TokenOperation where
  "create_T = TokenOperation_default\<lparr> op_kind := TokenOp_val CREATE, op_from := ''alice'',
     op_token := tokT, op_amount := 1000, op_name := ''Tee'', op_symbol := ''T'',
     op_decimals := 8, op_timestamp := 1700000000, op_signer := ''alice'' \<rparr>"

definition ledger_T :: TokenLedger where
  "ledger_T = empty_ledger\<lparr> m_balances := [(''alice'', tokT) \<mapsto> 1000],
     m_totalSupply := [tokT \<mapsto> 1000],
     m_token_meta := [tokT \<mapsto> \<lparr> meta_name = ''Tee'', meta_symbol = ''T'', meta_decimals = 8,
        operator_wallet = ''alice'', creation_height = 100 \<rparr>],
     m_seen_ops := {TokenOperationHash test_node create_T},
     m_history := [tokT \<mapsto> [create_T]] \<rparr>"

definition create_again :: TokenOperation where
  "create_again = TokenOperation_default\<lparr> op_kind := TokenOp_val CREATE, op_from := ''mallory'',
     op_token := tokT, op_amount := 500, op_name := ''Tee'', op_symbol := ''T'',
     op_decimals := 8, op_timestamp := 1700000600, op_signer := ''mallory'' \<rparr>"

definition overdraw :: TokenOperation where
  "overdraw = TokenOperation_default\<lparr> op_kind := TokenOp_val TRANSFER, op_from := ''bob'',
     op_to := ''carol'', op_token := tokT, op_amount := 400, op_timestamp := 1700000700,
     op_signer := ''bob'' \<rparr>"

definition negative_transfer :: TokenOperation where
  "negative_transfer = TokenOperation_default\<lparr> op_kind := TokenOp_val TRANSFER, op_from := ''bob'',
     op_to := ''carol'', op_token := tokT, op_amount := - 5, op_timestamp := 1700000800,
     op_signer := ''bob'' \<rparr>"

section \<open>The coinbase of a block template (miner.cpp)\<close>

text \<open>
  \<open>BlockAssembler::CreateNewBlock\<close>, from \<open>CMutableTransaction coinbaseTx\<close> to the
  operator's output: the part that decides the outputs paying the block reward.  The
  witness commitment that \<open>GenerateCoinbaseCommitment\<close> (not among the sources) appends
  afterwards carries no value.

  Heights are C \<open>int\<close>s far below \<open>2^31\<close> and are modelled as \<^typ>\<open>int\<close>; amounts are
  64-bit.  \<open>/\<close> on amounts is C++ division, which truncates towards zero.
\<close>

definition div64 :: "int64 \<Rightarrow> int64 \<Rightarrow> int64" where
  "div64 a b = word_of_int (sint a sdiv sint b)"

record CTxOut =
  nValue :: CAmount
  scriptPubKey :: string

text \<open>\<open>CTxOut()\<close> is null: the value \<open>-1\<close> and an empty script.\<close>

definition CTxOut_null :: CTxOut where
  "CTxOut_null = \<lparr> nValue = - 1, scriptPubKey = [] \<rparr>"

text \<open>What \<open>CreateNewBlock\<close> reads from the chain parameters, and the functions of the
  node it calls on them.\<close>

record CChainParams =
  nFeeBurnEndHeight :: int
  GovernanceWallet :: string
  NodeOperatorWallet :: string
  GetBlockSubsidy :: "int \<Rightarrow> CAmount"
  GetScriptForDestination :: "string \<Rightarrow> string"

text \<open>\<open>vout[i]\<close> on a \<open>std::vector\<close> does not check its index: an access past the end
  is undefined behaviour, which the model reports.\<close>

datatype miner_error = VoutIndexOutOfRange nat nat

definition bindE :: "'e + 'a \<Rightarrow> ('a \<Rightarrow> 'e + 'b) \<Rightarrow> 'e + 'b" where
  "bindE m f = (case m of Inl e \<Rightarrow> Inl e | Inr a \<Rightarrow> f a)"

definition vout_at :: "CTxOut list \<Rightarrow> nat \<Rightarrow> (CTxOut \<Rightarrow> CTxOut) \<Rightarrow> miner_error + CTxOut list" where
  "vout_at vout i f =
     (if i < length vout then Inr (vout[i := f (vout ! i)])
      else Inl (VoutIndexOutOfRange i (length vout)))"

definition resize :: "CTxOut list \<Rightarrow> nat \<Rightarrow> CTxOut list" where
  "resize vout n = take n vout @ replicate (n - length vout) CTxOut_null"

definition GOV_BPS :: int64 where "GOV_BPS = 7300"
definition OP_BPS :: int64 where "OP_BPS = 500"
definition BPS_DENOM :: int64 where "BPS_DENOM = 10000"

definition coinbase_vout ::
  "Node \<Rightarrow> CChainParams \<Rightarrow> int \<Rightarrow> CAmount \<Rightarrow> string \<Rightarrow> miner_error + CTxOut list" where
  "coinbase_vout node chainparams nHeight nFees scriptPubKeyIn =
     (let burn_fees = (nHeight \<ge> 1 \<and> nHeight \<le> nFeeBurnEndHeight chainparams);
          blockReward = GetBlockSubsidy chainparams nHeight;
          blockReward = (if \<not> burn_fees then blockReward + nFees else blockReward);
          governanceReward = div64 (blockReward * GOV_BPS) BPS_DENOM;
          hasOpDest = IsValidDestination node (NodeOperatorWallet chainparams);
          operatorReward = (if hasOpDest then div64 (blockReward * OP_BPS) BPS_DENOM else 0);
          vout = resize [] (if hasOpDest then 3 else 2)
      in
      bindE (vout_at vout 0 (\<lambda>out. out\<lparr> scriptPubKey := scriptPubKeyIn \<rparr>)) (\<lambda>vout.
      bindE (vout_at vout 0 (\<lambda>out. out\<lparr> nValue := blockReward - governanceReward - operatorReward \<rparr>)) (\<lambda>vout.
      bindE (if IsValidDestination node (GovernanceWallet chainparams) then
               bindE (vout_at vout 1 (\<lambda>out. out\<lparr> scriptPubKey :=
                        GetScriptForDestination chainparams (GovernanceWallet chainparams) \<rparr>)) (\<lambda>vout.
               vout_at vout 1 (\<lambda>out. out\<lparr> nValue := governanceReward \<rparr>))
             else
               vout_at (resize vout 1) 0 (\<lambda>out. out\<lparr> nValue := blockReward \<rparr>)) (\<lambda>vout.
      if hasOpDest then
        bindE (vout_at vout 2 (\<lambda>out. out\<lparr> scriptPubKey :=
                 GetScriptForDestination chainparams (NodeOperatorWallet chainparams) \<rparr>)) (\<lambda>vout.
        vout_at vout 2 (\<lambda>out. out\<lparr> nValue := operatorReward \<rparr>))
      else Inr vout))))"

subsection \<open>Chain parameters to build a coinbase with\<close>

text \<open>A node whose valid addresses are exactly the two wallets of the parameters; a
  subsidy of 50 coins; fees burned up to height 50.\<close>

definition payout_node :: Node where
  "payout_node = \<lparr> IsValidDestination = (\<lambda>a. a = ''itc1governance'' \<or> a = ''itc1operator''),
      MessageVerify = (\<lambda>_ _ _. False), Hash = (\<lambda>_. 0), ChainActiveHeight = 99,
      SendGovernanceFee = (\<lambda>_ _. False) \<rparr>"

definition payout_params :: CChainParams where
  "payout_params = \<lparr> nFeeBurnEndHeight = 50, GovernanceWallet = ''itc1governance'',
      NodeOperatorWallet = ''itc1operator'', GetBlockSubsidy = (\<lambda>_. 5000000000),
      GetScriptForDestination = (\<lambda>a. ''script:'' @ a) \<rparr>"

text \<open>The same chain with a governance address that does not decode.\<close>

definition no_governance_params :: CChainParams where
  "no_governance_params = payout_params\<lparr> GovernanceWallet := ''not an address'' \<rparr>"

section \<open>Proof of work (pow.cpp)\<close>

text \<open>
  An \<open>arith_uint256\<close> is a natural number below \<open>2^256\<close>; every operation that can leave
  that range has its wrap-around written out, and shifts are multiplications and divisions
  by powers of two.  \<open>UintToArith256\<close> reads the 32 bytes of a \<open>uint256\<close> as that number
  and is the identity here.  Block heights (\<open>int\<close>) and the 64-bit times and timespans are
  modelled as \<^typ>\<open>int\<close>: times come from 32-bit timestamps, and no sum the code forms over
  at most 60 of them leaves 64 bits.  Where such a value is handed to \<open>arith_uint256\<close> the
  conversion is written out.
\<close>

type_synonym arith_uint256 = nat

text \<open>Modelled from the spec: the arithmetic of \<open>arith_uint256\<close> (arith\_uint256.h is not
  among the sources), after the Bitcoin conventions the specification names.  \<open>a * b\<close>
  with an integer \<open>b\<close> selects \<open>operator*(const base_uint&, uint32_t)\<close>; \<open>a / b\<close> has
  only the overload on two \<open>base_uint\<close>s, built from \<open>b\<close> by the constructor from
  \<open>uint64_t\<close>, and throws on a zero divisor.\<close>

definition of_uint32 :: "int \<Rightarrow> arith_uint256" where
  "of_uint32 i = nat (i mod 2 ^ 32)"

definition of_uint64 :: "int \<Rightarrow> arith_uint256" where
  "of_uint64 i = nat (i mod 2 ^ 64)"

definition add256 :: "arith_uint256 \<Rightarrow> arith_uint256 \<Rightarrow> arith_uint256" where
  "add256 a b = (a + b) mod 2 ^ 256"

definition sub256 :: "arith_uint256 \<Rightarrow> arith_uint256 \<Rightarrow> arith_uint256" where
  "sub256 a b = (a + (2 ^ 256 - b mod 2 ^ 256)) mod 2 ^ 256"

definition mul256 :: "arith_uint256 \<Rightarrow> arith_uint256 \<Rightarrow> arith_uint256" where
  "mul256 a b = (a * b) mod 2 ^ 256"

text \<open>\<open>bits()\<close>: the position of the highest bit set, plus one.\<close>

fun bits :: "nat \<Rightarrow> nat" where
  "bits n = (if n = 0 then 0 else Suc (bits (n div 2)))"

declare bits.simps [simp del]

text \<open>Modelled from the spec: \<open>arith_uint256::SetCompact\<close> (arith\_uint256.cpp is not
  among the sources), the Bitcoin decoding of \<open>nBits\<close>: the target, \<open>fNegative\<close> and
  \<open>fOverflow\<close>.  A size of at most 3 shifts the mantissa to the right before the two flags
  are computed from it.\<close>

definition SetCompact :: "32 word \<Rightarrow> arith_uint256 \<times> bool \<times> bool" where
  "SetCompact nCompact =
     (let nSize = unat nCompact div 2 ^ 24;
          nWord = unat nCompact mod 2 ^ 23;
          nWord = (if nSize \<le> 3 then nWord div 2 ^ (8 * (3 - nSize)) else nWord);
          target = (if nSize \<le> 3 then nWord
                    else (nWord * 2 ^ (8 * (nSize - 3))) mod 2 ^ 256);
          fNegative = (nWord \<noteq> 0 \<and> (unat nCompact div 2 ^ 23) mod 2 \<noteq> 0);
          fOverflow = (nWord \<noteq> 0 \<and> (nSize > 34 \<or> (nWord > 0xff \<and> nSize > 33)
                                       \<or> (nWord > 0xffff \<and> nSize > 32)))
      in (target, fNegative, fOverflow))"

definition target_of :: "32 word \<Rightarrow> arith_uint256" where
  "target_of nCompact = fst (SetCompact nCompact)"

text \<open>Modelled from the spec: \<open>arith_uint256::GetCompact\<close> (arith\_uint256.cpp is not
  among the sources), the Bitcoin encoding of a target, with \<open>fNegative = false\<close>.  Its
  two assertions (the mantissa has no bit above the 23rd, the size is below 256) hold for
  every 256-bit number and are not modelled.\<close>

definition GetCompact :: "arith_uint256 \<Rightarrow> 32 word" where
  "GetCompact x =
     (let nSize = (bits x + 7) div 8;
          nCompact = (if nSize \<le> 3
                      then ((x mod 2 ^ 64) * 2 ^ (8 * (3 - nSize))) mod 2 ^ 64 mod 2 ^ 32
                      else (x div 2 ^ (8 * (nSize - 3))) mod 2 ^ 64 mod 2 ^ 32);
          (nCompact, nSize) = (if (nCompact div 2 ^ 23) mod 2 \<noteq> 0
                               then (nCompact div 2 ^ 8, nSize + 1) else (nCompact, nSize))
      in word_of_nat (nCompact OR nSize * 2 ^ 24))"

subsection \<open>The chain index and the consensus parameters\<close>

datatype CBlockIndex =
  CBlockIndex (nHeight: int) (nTime: "32 word") (nBits: "32 word") (pprev: "CBlockIndex option")

definition GetBlockTime :: "CBlockIndex \<Rightarrow> int" where
  "GetBlockTime pindex = uint (nTime pindex)"

record CBlockHeader =
  hdr_nVersion :: "32 word"
  hdr_hashPrevBlock :: uint256
  hdr_hashMerkleRoot :: uint256
  hdr_nTime :: "32 word"
  hdr_nBits :: "32 word"
  hdr_nNonce :: "32 word"

record Params =
  hashGenesisBlock :: arith_uint256
  powLimit :: arith_uint256
  powLimitYespower :: arith_uint256
  yespowerForkHeight :: int
  nextDifficultyForkHeight :: int
  nextDifficultyFork2Height :: int
  nextDifficultyFork3Height :: int
  nextDifficultyFork5Height :: int
  nPowTargetSpacing :: int
  nPowTargetTimespan :: int
  fPowAllowMinDifficultyBlocks :: bool
  fPowNoRetargeting :: bool

text \<open>What ends a call other than a return: a null \<open>pprev\<close> dereferenced, a division by
  zero, a failed \<open>assert\<close>, an empty vector indexed.\<close>

datatype pow_error = NullPointer | DivisionByZero | AssertionFailed | EmptyVector

text \<open>Modelled from the spec: \<open>CBlockIndex::GetAncestor\<close> (chain.cpp is not among the
  sources): the block of the given height on the path through \<open>pprev\<close>.\<close>

fun ancestor_at :: "CBlockIndex \<Rightarrow> int \<Rightarrow> CBlockIndex option" where
  "ancestor_at (CBlockIndex h t b prev) height =
     (if h = height then Some (CBlockIndex h t b prev)
      else case prev of None \<Rightarrow> None | Some p \<Rightarrow> ancestor_at p height)"

definition GetAncestor :: "CBlockIndex \<Rightarrow> int \<Rightarrow> CBlockIndex option" where
  "GetAncestor pindex height =
     (if height > nHeight pindex \<or> height < 0 then None else ancestor_at pindex height)"

subsection \<open>The legacy retarget\<close>

definition CalculateNextWorkRequired :: "CBlockIndex \<Rightarrow> int \<Rightarrow> Params \<Rightarrow> pow_error + 32 word" where
  "CalculateNextWorkRequired pindexLast nFirstBlockTime params =
     (if fPowNoRetargeting params then Inr (nBits pindexLast)
      else
        let nActualTimespan = GetBlockTime pindexLast - nFirstBlockTime;
            nActualTimespan = (if nActualTimespan < nPowTargetTimespan params sdiv 4
                               then nPowTargetTimespan params sdiv 4 else nActualTimespan);
            nActualTimespan = (if nActualTimespan > nPowTargetTimespan params * 4
                               then nPowTargetTimespan params * 4 else nActualTimespan);
            bnNew = target_of (nBits pindexLast);
            bnNew = mul256 bnNew (of_uint32 nActualTimespan)
        in if of_uint64 (nPowTargetTimespan params) = 0 then Inl DivisionByZero
           else
             let bnNew = bnNew div of_uint64 (nPowTargetTimespan params);
                 bnNew = (if bnNew > powLimit params then powLimit params else bnNew)
             in Inr (GetCompact bnNew))"

text \<open>The walk back over the blocks mined under the testnet's minimum-difficulty rule.\<close>

fun last_non_min_difficulty :: "int \<Rightarrow> 32 word \<Rightarrow> CBlockIndex \<Rightarrow> CBlockIndex" where
  "last_non_min_difficulty interval nProofOfWorkLimit (CBlockIndex h t b prev) =
     (case prev of
        None \<Rightarrow> CBlockIndex h t b prev
      | Some p \<Rightarrow>
          if h smod interval \<noteq> 0 \<and> b = nProofOfWorkLimit
          then last_non_min_difficulty interval nProofOfWorkLimit p
          else CBlockIndex h t b prev)"

subsection \<open>DGW3-Nova\<close>

text \<open>The loop over the last \<open>nPastBlocks\<close> blocks: \<open>n\<close> iterations remain, \<open>i\<close> is the
  loop counter; the state is the running average, its previous value, the timespan and
  the time of the block before.\<close>

fun nova_loop ::
  "nat \<Rightarrow> nat \<Rightarrow> CBlockIndex option \<Rightarrow> arith_uint256 \<times> arith_uint256 \<times> int \<times> int
     \<Rightarrow> arith_uint256 \<times> arith_uint256 \<times> int \<times> int" where
  "nova_loop 0 i pindex st = st"
| "nova_loop (Suc n) i None st = st"
| "nova_loop (Suc n) i (Some pindex) (pastDifficultyAverage, pastDifficultyAveragePrev,
       actualTimespan, lastBlockTime) =
     (let currentDifficulty = target_of (nBits pindex);
          pastDifficultyAverage =
            (if i = 0 then currentDifficulty
             else add256 (mul256 pastDifficultyAveragePrev (of_uint32 (int i))) currentDifficulty
                    div of_uint64 (int i + 1));
          actualTimespan = (if lastBlockTime > 0
                            then actualTimespan + (lastBlockTime - GetBlockTime pindex)
                            else actualTimespan)
      in nova_loop n (Suc i) (pprev pindex)
           (pastDifficultyAverage, pastDifficultyAverage, actualTimespan, GetBlockTime pindex))"

text \<open>The two cursor loops: the solve times, and the targets, of the first blocks that
  have a predecessor.\<close>

fun solveTimes :: "nat \<Rightarrow> CBlockIndex \<Rightarrow> int list" where
  "solveTimes 0 cursor = []"
| "solveTimes (Suc n) cursor =
     (case pprev cursor of
        None \<Rightarrow> []
      | Some p \<Rightarrow> (GetBlockTime cursor - GetBlockTime p) # solveTimes n p)"

fun pastDiffs :: "nat \<Rightarrow> CBlockIndex \<Rightarrow> arith_uint256 list" where
  "pastDiffs 0 cursor = []"
| "pastDiffs (Suc n) cursor =
     (case pprev cursor of
        None \<Rightarrow> []
      | Some p \<Rightarrow> target_of (nBits cursor) # pastDiffs n p)"

text \<open>\<open>v[v.size() / 2]\<close> after \<open>std::sort\<close>.\<close>

definition median :: "('a::linorder) list \<Rightarrow> pow_error + 'a" where
  "median v = (if v = [] then Inl EmptyVector else Inr (sort v ! (length v div 2)))"

text \<open>The decay factor is computed in \<open>double\<close>; the model computes it in the reals.
  Dividing an \<open>arith_uint256\<close> by it converts it to \<open>uint64_t\<close>, which truncates.\<close>

definition decayFactor_of :: "bool \<Rightarrow> int \<Rightarrow> int \<Rightarrow> int \<Rightarrow> real" where
  "decayFactor_of v9 nextHeight actualSolveTime spacing =
     (if nextHeight \<ge> (if v9 then 1 else 0) \<and> actualSolveTime > spacing
      then let multiplier = min 6 (real_of_int actualSolveTime / real_of_int spacing)
           in min (multiplier powr 0.45) 2
      else 1)"

definition DarkGravityWave3Nova :: "CBlockIndex \<Rightarrow> Params \<Rightarrow> pow_error + 32 word" where
  "DarkGravityWave3Nova pindexLast params =
     (let nextHeight = nHeight pindexLast + 1;
          nPastBlocks = (if nextHeight \<ge> nextDifficultyFork5Height params then 12 else 24 :: nat);
          limit = (if nextHeight \<ge> yespowerForkHeight params
                   then powLimitYespower params else powLimit params)
      in
      if nextHeight < int nPastBlocks then Inr (GetCompact limit)
      else
        let (pastDifficultyAverage, pastDifficultyAveragePrev, actualTimespan, lastBlockTime) =
              nova_loop nPastBlocks 0 (Some pindexLast) (0, 0, 0, 0);
            targetTimespan = int nPastBlocks * nPowTargetSpacing params;
            v9 = (nextHeight \<ge> nextDifficultyFork5Height params);
            minTimespanClamp = targetTimespan sdiv 3;
            maxTimespanClamp = targetTimespan * 3;
            emergencyClamp = (if v9 then targetTimespan sdiv 3 else targetTimespan sdiv 6);
            minSolveClamp = (if v9 then targetTimespan sdiv 4 else targetTimespan sdiv 8);
            minSolveTime = 12
        in
        case pprev pindexLast of
          None \<Rightarrow> Inl NullPointer
        | Some prev \<Rightarrow>
            let actualSolveTime = GetBlockTime pindexLast - GetBlockTime prev;
                unclampedActualTimespan = actualTimespan
            in
            bindE (if v9 then median (solveTimes (min nPastBlocks 9) pindexLast)
                   else Inr actualSolveTime) (\<lambda>rollingSolveTime.
              let triggered =
                    (if v9 then actualSolveTime < 2 * minSolveTime
                                  \<and> unclampedActualTimespan < targetTimespan sdiv 6
                     else actualSolveTime < minSolveTime
                            \<or> unclampedActualTimespan < targetTimespan sdiv 6);
                  actualTimespan =
                    (if triggered \<and> nextHeight \<ge> nextDifficultyFork3Height params
                     then min actualTimespan (min emergencyClamp minSolveClamp)
                     else actualTimespan);
                  clamped = (let a = (if actualTimespan < minTimespanClamp
                                      then minTimespanClamp else actualTimespan)
                             in if a > maxTimespanClamp then maxTimespanClamp else a);
                  actualTimespan = (if v9 then (if \<not> triggered then clamped else actualTimespan)
                                    else clamped);
                  decayFactor = decayFactor_of v9 nextHeight actualSolveTime
                                  (nPowTargetSpacing params)
              in
              bindE (if v9 then median (pastDiffs (min nPastBlocks 5) pindexLast)
                     else Inr pastDifficultyAverage) (\<lambda>difficultySmoothing.
                if of_uint64 targetTimespan = 0 then Inl DivisionByZero
                else
                  let baseline = mul256 difficultySmoothing (of_uint32 actualTimespan)
                                   div of_uint64 targetTimespan
                  in
                  bindE (if nextHeight \<ge> (if v9 then 1 else 0) \<and> decayFactor > 1
                         then
                           let diffToPrevious = (if baseline > difficultySmoothing
                                                 then sub256 baseline difficultySmoothing else 0)
                           in if of_uint64 \<lfloor>decayFactor\<rfloor> = 0 then Inl DivisionByZero
                              else Inr (sub256 baseline
                                          (diffToPrevious div of_uint64 \<lfloor>decayFactor\<rfloor>))
                         else Inr baseline) (\<lambda>newDifficulty.
                    let bnPowLimit = (if nextHeight \<ge> 1 then powLimitYespower params
                                      else powLimit params);
                        newDifficulty = (if nextHeight \<le> 1 \<and> newDifficulty > bnPowLimit
                                         then bnPowLimit else newDifficulty)
                    in Inr (GetCompact newDifficulty)))))"

subsection \<open>LWMA3\<close>



subsection \<open>GetNextWorkRequired\<close>

text \<open>\<open>DifficultyAdjustmentInterval()\<close> is \<open>nPowTargetTimespan / nPowTargetSpacing\<close>.\<close>

definition GetNextWorkRequired :: "CBlockIndex \<Rightarrow> CBlockHeader \<Rightarrow> Params \<Rightarrow> pow_error + 32 word" where
  "GetNextWorkRequired pindexLast pblock params =
     (if nHeight pindexLast + 1 \<ge> nextDifficultyFork2Height params
      then DarkGravityWave3Nova pindexLast params
      else
        let limit = (if nHeight pindexLast + 1 \<ge> yespowerForkHeight params
                     then powLimitYespower params else powLimit params);
            nProofOfWorkLimit = GetCompact limit
        in
        if nPowTargetSpacing params = 0 then Inl DivisionByZero
        else
          let interval = nPowTargetTimespan params sdiv nPowTargetSpacing params
          in
          if interval = 0 then Inl DivisionByZero
          else if (nHeight pindexLast + 1) smod interval \<noteq> 0 then
            (if fPowAllowMinDifficultyBlocks params then
               (if uint (hdr_nTime pblock) > GetBlockTime pindexLast + nPowTargetSpacing params * 2
                then Inr nProofOfWorkLimit
                else Inr (nBits (last_non_min_difficulty interval nProofOfWorkLimit pindexLast)))
             else Inr (nBits pindexLast))
          else
            let nHeightFirst = nHeight pindexLast - (interval - 1)
            in if \<not> nHeightFirst \<ge> 0 then Inl AssertionFailed
               else case GetAncestor pindexLast nHeightFirst of
                      None \<Rightarrow> Inl AssertionFailed
                    | Some pindexFirst \<Rightarrow>
                        CalculateNextWorkRequired pindexLast (GetBlockTime pindexFirst) params)"

subsection \<open>Verification\<close>

text \<open>The two hash functions are taken as given: \<open>yespower_tls\<close> with the parameters
  \<open>N\<close> and \<open>r\<close> of the selected set (\<open>None\<close> when it reports failure), and the SHA-256
  hash \<open>GetHash\<close> of a header.\<close>

record Hashers =
  yespower_tls :: "CBlockHeader \<Rightarrow> nat \<Rightarrow> nat \<Rightarrow> arith_uint256 option"
  GetHash :: "CBlockHeader \<Rightarrow> arith_uint256"

definition CheckYespower :: "Hashers \<Rightarrow> CBlockHeader \<Rightarrow> arith_uint256 \<Rightarrow> int \<Rightarrow> bool" where
  "CheckYespower hs block bnTarget height =
     (let (N, r) = (if height \<ge> 1 then (1024, 8) else (2048, 8))
      in case yespower_tls hs block N r of
           None \<Rightarrow> False
         | Some hash \<Rightarrow> hash \<le> bnTarget)"

definition CheckProofOfWorkWithHeight ::
  "Hashers \<Rightarrow> arith_uint256 \<Rightarrow> CBlockHeader \<Rightarrow> 32 word \<Rightarrow> Params \<Rightarrow> int \<Rightarrow> bool" where
  "CheckProofOfWorkWithHeight hs hash block nBits' params nHeight' =
     (let (bnTarget, fNegative, fOverflow) = SetCompact nBits'
      in if nHeight' = 0 \<or> hash = hashGenesisBlock params then True
         else if fNegative \<or> fOverflow \<or> bnTarget = 0 then False
         else if nHeight' \<ge> 1 then
           (if nHeight' = 1 then True else CheckYespower hs block bnTarget nHeight')
         else GetHash hs block \<le> bnTarget)"

definition CheckProofOfWork ::
  "Hashers \<Rightarrow> arith_uint256 \<Rightarrow> CBlockHeader \<Rightarrow> 32 word \<Rightarrow> Params \<Rightarrow> int \<Rightarrow> bool" where
  "CheckProofOfWork hs hash blockHeader nBits' params nHeight' =
     (if nHeight' = 0 then True
      else if nHeight' \<ge> yespowerForkHeight params
      then CheckProofOfWorkWithHeight hs hash blockHeader nBits' params nHeight'
      else
        let (bnTarget, fNegative, fOverflow) = SetCompact nBits'
        in if fNegative \<or> bnTarget = 0 \<or> fOverflow \<or> bnTarget > powLimit params then False
           else hash \<le> bnTarget)"

subsection \<open>A chain to run the retarget and the verification on\<close>

text \<open>Parameters in the style of the main network: the memory-hard hash from height 1,
  two-minute blocks, a SHA-256 limit of \<open>2^224 - 1\<close> and a memory-hard limit of
  \<open>2^236 - 1\<close>, whose compact form is \<open>0x1e0fffff\<close>; DGW3-Nova from height 70 and its
  twelve-block window from height 130.\<close>

definition main_params :: Params where
  "main_params = \<lparr> hashGenesisBlock = 0x1234, powLimit = 2 ^ 224 - 1,
      powLimitYespower = 2 ^ 236 - 1, yespowerForkHeight = 1,
      nextDifficultyForkHeight = 0, nextDifficultyFork2Height = 70,
      nextDifficultyFork3Height = 100, nextDifficultyFork5Height = 130,
      nPowTargetSpacing = 120, nPowTargetTimespan = 1209600,
      fPowAllowMinDifficultyBlocks = False, fPowNoRetargeting = False \<rparr>"

text \<open>Hash functions that return the fixed value \<open>2^239\<close>.\<close>

definition easy_hashers :: Hashers where
  "easy_hashers = \<lparr> yespower_tls = (\<lambda>_ _ _. Some (2 ^ 239)), GetHash = (\<lambda>_. 2 ^ 239) \<rparr>"

definition some_header :: CBlockHeader where
  "some_header = \<lparr> hdr_nVersion = 1, hdr_hashPrevBlock = 0x99, hdr_hashMerkleRoot = 0x77,
      hdr_nTime = 1700000000, hdr_nBits = 0x1f00ffff, hdr_nNonce = 0 \<rparr>"

text \<open>The chain from the genesis block up to a height, with the times and the \<open>nBits\<close>
  given per height.\<close>

fun chain_upto :: "(nat \<Rightarrow> 32 word) \<Rightarrow> (nat \<Rightarrow> 32 word) \<Rightarrow> nat \<Rightarrow> CBlockIndex" where
  "chain_upto tf bf 0 = CBlockIndex 0 (tf 0) (bf 0) None"
| "chain_upto tf bf (Suc h) =
     CBlockIndex (int (Suc h)) (tf (Suc h)) (bf (Suc h)) (Some (chain_upto tf bf h))"


text \<open>Seventy blocks at the memory-hard limit, a thousand seconds apart but for the last
  one, which came a minute after its predecessor.\<close>

definition slow_tip :: CBlockIndex where
  "slow_tip = chain_upto (\<lambda>h. word_of_nat (1700000000 + 1000 * h - (if h \<ge> 69 then 940 else 0)))
                (\<lambda>_. 0x1e0fffff) 69"

subsection \<open>LWMA3 as the specification describes it\<close>




subsection \<open>The legacy rule as the specification describes it\<close>



section \<open>Token operations on chain (wallet/token.cpp)\<close>

text \<open>A script as \<open>CScript::GetOp\<close> reads it: the opcodes in order, each with the data
  it pushes.  \<open>script << OP_RETURN << ToByteVector(ss)\<close> in \<open>RecordOperationOnChain\<close>
  builds the two elements of \<open>op_return_script\<close>; the push opcode depends on the length
  of the data (script.h is not among the sources).\<close>

type_synonym script_op = "nat \<times> string"

definition OP_RETURN :: nat where "OP_RETURN = 0x6a"
definition OP_PUSHDATA1 :: nat where "OP_PUSHDATA1 = 0x4c"
definition OP_PUSHDATA2 :: nat where "OP_PUSHDATA2 = 0x4d"
definition OP_PUSHDATA4 :: nat where "OP_PUSHDATA4 = 0x4e"

definition push_op :: "string \<Rightarrow> script_op" where
  "push_op b =
     (if length b < OP_PUSHDATA1 then (length b, b)
      else if length b \<le> 0xff then (OP_PUSHDATA1, b)
      else if length b \<le> 0xffff then (OP_PUSHDATA2, b)
      else (OP_PUSHDATA4, b))"

definition op_return_script :: "string \<Rightarrow> script_op list" where
  "op_return_script payload = [(OP_RETURN, []), push_op payload]"

text \<open>The two \<open>try\<close> blocks of \<open>DecodeTokenOp\<close>, on the data of the push.  The callers
  hand in a default-constructed operation.  The first block reads the current format and
  does not ask whether the stream is used up; when it throws, the second block reads the
  fields again and then a memo if anything is left.\<close>

definition DecodeTokenOp_data :: "string \<Rightarrow> TokenOperation option" where
  "DecodeTokenOp_data data =
     (case Unserialize TokenOperation_default data of
        Some (op, rest) \<Rightarrow> Some op
      | None \<Rightarrow>
          (case unser_fields TokenOperation_default data of
             None \<Rightarrow> None
           | Some (op, ss) \<Rightarrow>
               if ss \<noteq> [] then
                 (case unser_string ss of
                    None \<Rightarrow> None
                  | Some (memo, rest) \<Rightarrow> Some (op\<lparr> op_memo := memo \<rparr>))
               else Some (op\<lparr> op_memo := [] \<rparr>)))"

definition DecodeTokenOp :: "script_op list \<Rightarrow> TokenOperation option" where
  "DecodeTokenOp script =
     (case script of
        [] \<Rightarrow> None
      | (opcode, _) # others \<Rightarrow>
          if opcode \<noteq> OP_RETURN then None
          else case others of
                 [] \<Rightarrow> None
               | (opcode, data) # _ \<Rightarrow>
                   if data = [] then None
                   else if opcode > OP_PUSHDATA4 then None
                   else DecodeTokenOp_data data)"

text \<open>Modelled from the spec: the writer of the legacy format (an older version of
  \<open>SERIALIZE_METHODS\<close>, not among the sources): the same fields without the memo flag,
  followed by the memo when there is one, which is the form the second block of
  \<open>DecodeTokenOp\<close> reads.\<close>

definition Serialize_legacy :: "TokenOperation \<Rightarrow> string" where
  "Serialize_legacy obj =
     ser_fields obj @ (if op_memo obj \<noteq> [] then ser_string (op_memo obj) else [])"

text \<open>The strings of an operation, none longer than \<open>MAX_SIZE\<close>, the largest size
  \<open>ReadCompactSize\<close> accepts.\<close>

definition strings_within_MAX_SIZE :: "TokenOperation \<Rightarrow> bool" where
  "strings_within_MAX_SIZE op \<longleftrightarrow>
     (\<forall>s \<in> {op_from op, op_to op, op_spender op, op_token op, op_name op, op_symbol op,
              op_signer op, op_signature op, op_memo op}. length s \<le> MAX_SIZE)"

text \<open>A transfer with a memo of 34 characters that begins with an exclamation mark,
  the character 33.\<close>

definition memo_transfer :: TokenOperation where
  "memo_transfer = TokenOperation_default\<lparr> op_kind := TokenOp_val TRANSFER, op_from := ''alice'',
     op_to := ''bob'', op_token := tokT, op_amount := 400, op_timestamp := 1700000900,
     op_signer := ''alice'', op_signature := ''c2ln'',
     op_memo := ''!invoice 7731 settled, thank you!!'' \<rparr>"

text \<open>The same transfer without a memo, built inside a wallet named \<open>w1\<close>.\<close>

definition plain_transfer :: TokenOperation where
  "plain_transfer = memo_transfer\<lparr> op_memo := [], op_wallet_name := ''w1'' \<rparr>"

section \<open>Package selection (miner.cpp)\<close>

text \<open>
  Modelled from the spec: the mempool view that the assembler reads (txmempool.h is not
  among the sources).  An entry carries the transaction's weight, virtual size, sigop cost
  and fees, and the precomputed aggregates over the transaction and its unconfirmed
  ancestors.  A \<open>txiter\<close> is a number; the order of the numbers stands for the order of
  the transaction hashes, by which a \<open>setEntries\<close> is iterated.  The view gives the index
  ordered by ancestor fee rate as the list of its entries from \<open>begin()\<close> to \<open>end()\<close>,
  the ancestors of an entry (without itself, as \<open>CalculateMemPoolAncestors\<close> does with
  no limits) and its descendants (with itself, as \<open>CalculateDescendants\<close> does).

  Sizes, weights and the assembler's counters are unsigned 64-bit: they are naturals
  here, with the wrap-around at \<open>2^64\<close> written out where the code adds, subtracts or
  multiplies them.  Sigop costs and fees of entries are signed 64-bit and are integers.
\<close>

type_synonym txiter = nat

record CTxMemPoolEntry =
  nTxWeight :: nat
  nTxSize :: nat
  sigOpCost :: int
  nFee :: int
  nModifiedFee :: int
  nSizeWithAncestors :: nat
  nModFeesWithAncestors :: int
  nSigOpCostWithAncestors :: int
  nCountWithAncestors :: nat
  tx_nLockTime :: nat
  tx_sequences_final :: bool
  tx_HasWitness :: bool

record CTxMemPool =
  entry :: "txiter \<Rightarrow> CTxMemPoolEntry"
  ancestor_score_index :: "txiter list"
  CalculateMemPoolAncestors :: "txiter \<Rightarrow> txiter set"
  CalculateDescendants :: "txiter \<Rightarrow> txiter set"

text \<open>Modelled from the spec: \<open>CTxMemPoolModifiedEntry\<close> and the set of them (miner.h is
  not among the sources): an entry's aggregates, from which \<open>update_for_parent_inclusion\<close>
  subtracts those of an ancestor that has entered the block.  \<open>mapModifiedTx\<close> is the
  list of these entries; \<open>best_modified\<close> is \<open>begin()\<close> of its index by ancestor score.
  The comparison of fee rates is done in \<open>double\<close> in the code and exactly here.\<close>

record CTxMemPoolModifiedEntry =
  iter :: txiter
  mod_nSizeWithAncestors :: nat
  mod_nModFeesWithAncestors :: int
  mod_nSigOpCostWithAncestors :: int

definition ModifiedEntry :: "CTxMemPool \<Rightarrow> txiter \<Rightarrow> CTxMemPoolModifiedEntry" where
  "ModifiedEntry mempool it =
     \<lparr> iter = it,
       mod_nSizeWithAncestors = nSizeWithAncestors (entry mempool it),
       mod_nModFeesWithAncestors = nModFeesWithAncestors (entry mempool it),
       mod_nSigOpCostWithAncestors = nSigOpCostWithAncestors (entry mempool it) \<rparr>"

definition CompareTxMemPoolEntryByAncestorFee ::
  "CTxMemPoolModifiedEntry \<Rightarrow> CTxMemPoolModifiedEntry \<Rightarrow> bool" where
  "CompareTxMemPoolEntryByAncestorFee a b =
     (let f1 = mod_nModFeesWithAncestors a * int (mod_nSizeWithAncestors b);
          f2 = int (mod_nSizeWithAncestors a) * mod_nModFeesWithAncestors b
      in if f1 = f2 then iter a < iter b else f1 > f2)"

fun best_modified :: "CTxMemPoolModifiedEntry list \<Rightarrow> CTxMemPoolModifiedEntry option" where
  "best_modified [] = None"
| "best_modified (m # ms) =
     (case best_modified ms of
        None \<Rightarrow> Some m
      | Some b \<Rightarrow> if CompareTxMemPoolEntryByAncestorFee b m then Some b else Some m)"

definition erase_modified :: "txiter \<Rightarrow> CTxMemPoolModifiedEntry list \<Rightarrow> CTxMemPoolModifiedEntry list" where
  "erase_modified it M = filter (\<lambda>m. iter m \<noteq> it) M"

definition update_for_parent_inclusion ::
  "CTxMemPoolEntry \<Rightarrow> CTxMemPoolModifiedEntry \<Rightarrow> CTxMemPoolModifiedEntry" where
  "update_for_parent_inclusion parent e =
     e\<lparr> mod_nModFeesWithAncestors := mod_nModFeesWithAncestors e - nModifiedFee parent,
        mod_nSizeWithAncestors :=
          nat ((int (mod_nSizeWithAncestors e) - int (nTxSize parent)) mod 2 ^ 64),
        mod_nSigOpCostWithAncestors := mod_nSigOpCostWithAncestors e - sigOpCost parent \<rparr>"

text \<open>Modelled from the spec: \<open>CFeeRate::GetFee\<close> and \<open>IsFinalTx\<close> (policy/feerate.cpp
  and consensus/tx\_verify.cpp are not among the sources), and the limits of
  consensus/consensus.h, which are parameters of the selection.\<close>

definition GetFee :: "int \<Rightarrow> nat \<Rightarrow> int" where
  "GetFee nSatoshisPerK nBytes =
     (let nSize = int nBytes;
          nFee = nSatoshisPerK * nSize sdiv 1000
      in if nFee = 0 \<and> nSize \<noteq> 0
         then (if nSatoshisPerK > 0 then 1 else if nSatoshisPerK < 0 then - 1 else nFee)
         else nFee)"

definition LOCKTIME_THRESHOLD :: nat where
  "LOCKTIME_THRESHOLD = 500000000"

definition IsFinalTx :: "CTxMemPoolEntry \<Rightarrow> int \<Rightarrow> int \<Rightarrow> bool" where
  "IsFinalTx tx nBlockHeight nBlockTime =
     (if tx_nLockTime tx = 0 then True
      else if int (tx_nLockTime tx)
                < (if tx_nLockTime tx < LOCKTIME_THRESHOLD then nBlockHeight else nBlockTime)
      then True
      else tx_sequences_final tx)"

definition WITNESS_SCALE_FACTOR :: nat where
  "WITNESS_SCALE_FACTOR = 4"

record Limits =
  MAX_BLOCK_WEIGHT :: nat
  MAX_BLOCK_SIGOPS_COST :: int

subsection \<open>The assembler\<close>

text \<open>The members of \<open>BlockAssembler\<close> that selection reads and writes, and the three
  vectors of the template, without the placeholder of the coinbase.\<close>

record BlockAssembler =
  nBlockMaxWeight :: nat
  blockMinFeeRate :: int
  nBlockWeight :: nat
  nBlockTx :: nat
  nBlockSigOpsCost :: nat
  nFees :: int
  inBlock :: "txiter set"
  block_nHeight :: int
  nLockTimeCutoff :: int
  fIncludeWitness :: bool
  block_vtx :: "txiter list"
  vTxFees :: "int list"
  vTxSigOpsCost :: "int list"

text \<open>The constructor limits the weight to between 4K and \<open>MAX_BLOCK_WEIGHT - 4K\<close>
  (\<open>MAX_BLOCK_WEIGHT\<close> is an \<open>unsigned int\<close>, so the difference wraps at \<open>2^32\<close>); the
  members that it leaves uninitialised are zero here.  \<open>resetBlock\<close> reserves the
  coinbase's weight and sigops.\<close>

definition clamp_nBlockMaxWeight :: "Limits \<Rightarrow> nat \<Rightarrow> nat" where
  "clamp_nBlockMaxWeight limits options_nBlockMaxWeight =
     max 4000 (min ((MAX_BLOCK_WEIGHT limits + 2 ^ 32 - 4000) mod 2 ^ 32) options_nBlockMaxWeight)"

definition BlockAssembler_init :: "Limits \<Rightarrow> int \<Rightarrow> nat \<Rightarrow> BlockAssembler" where
  "BlockAssembler_init limits options_blockMinFeeRate options_nBlockMaxWeight =
     \<lparr> nBlockMaxWeight = clamp_nBlockMaxWeight limits options_nBlockMaxWeight,
       blockMinFeeRate = options_blockMinFeeRate,
       nBlockWeight = 0, nBlockTx = 0, nBlockSigOpsCost = 0, nFees = 0, inBlock = {},
       block_nHeight = 0, nLockTimeCutoff = 0, fIncludeWitness = False,
       block_vtx = [], vTxFees = [], vTxSigOpsCost = [] \<rparr>"

definition resetBlock :: "BlockAssembler \<Rightarrow> BlockAssembler" where
  "resetBlock a = a\<lparr> inBlock := {}, nBlockWeight := 4000, nBlockSigOpsCost := 400,
     fIncludeWitness := False, nBlockTx := 0, nFees := 0 \<rparr>"

text \<open>What \<open>CreateNewBlock\<close> does to the assembler before it calls \<open>addPackageTxs\<close>:
  \<open>resetBlock\<close>, a fresh template, the height, the lock-time cutoff and the witness
  flag, which come from the chain tip.\<close>

definition CreateNewBlock_prepare :: "BlockAssembler \<Rightarrow> int \<Rightarrow> int \<Rightarrow> bool \<Rightarrow> BlockAssembler" where
  "CreateNewBlock_prepare a height cutoff witness =
     (resetBlock a)\<lparr> block_vtx := [], vTxFees := [], vTxSigOpsCost := [],
       block_nHeight := height, nLockTimeCutoff := cutoff, fIncludeWitness := witness \<rparr>"

definition onlyUnconfirmed :: "BlockAssembler \<Rightarrow> txiter set \<Rightarrow> txiter set" where
  "onlyUnconfirmed a testSet = {it \<in> testSet. it \<notin> inBlock a}"

definition TestPackage :: "Limits \<Rightarrow> BlockAssembler \<Rightarrow> nat \<Rightarrow> int \<Rightarrow> bool" where
  "TestPackage limits a packageSize packageSigOpsCost =
     (if (nBlockWeight a + WITNESS_SCALE_FACTOR * packageSize) mod 2 ^ 64 \<ge> nBlockMaxWeight a
      then False
      else if (int (nBlockSigOpsCost a) + packageSigOpsCost) mod 2 ^ 64
                \<ge> MAX_BLOCK_SIGOPS_COST limits mod 2 ^ 64
      then False
      else True)"

definition TestPackageTransactions :: "CTxMemPool \<Rightarrow> BlockAssembler \<Rightarrow> txiter set \<Rightarrow> bool" where
  "TestPackageTransactions mempool a package =
     (\<forall>it \<in> package.
        IsFinalTx (entry mempool it) (block_nHeight a) (nLockTimeCutoff a)
        \<and> \<not> (\<not> fIncludeWitness a \<and> tx_HasWitness (entry mempool it)))"

definition AddToBlock :: "CTxMemPool \<Rightarrow> BlockAssembler \<Rightarrow> txiter \<Rightarrow> BlockAssembler" where
  "AddToBlock mempool a it =
     a\<lparr> block_vtx := block_vtx a @ [it],
        vTxFees := vTxFees a @ [nFee (entry mempool it)],
        vTxSigOpsCost := vTxSigOpsCost a @ [sigOpCost (entry mempool it)],
        nBlockWeight := (nBlockWeight a + nTxWeight (entry mempool it)) mod 2 ^ 64,
        nBlockTx := (nBlockTx a + 1) mod 2 ^ 64,
        nBlockSigOpsCost :=
          nat ((int (nBlockSigOpsCost a) + sigOpCost (entry mempool it)) mod 2 ^ 64),
        nFees := nFees a + nFee (entry mempool it),
        inBlock := insert it (inBlock a) \<rparr>"

text \<open>\<open>UpdatePackagesForAdded\<close>: for one added transaction and one of its descendants,
  then the two loops.  The result is the count of descendants updated and the new set.\<close>

definition update_descendant ::
  "CTxMemPool \<Rightarrow> txiter set \<Rightarrow> txiter \<Rightarrow> txiter
     \<Rightarrow> int \<times> CTxMemPoolModifiedEntry list \<Rightarrow> int \<times> CTxMemPoolModifiedEntry list" where
  "update_descendant mempool alreadyAdded it desc = (\<lambda>(nDescendantsUpdated, mapModifiedTx).
     if desc \<in> alreadyAdded then (nDescendantsUpdated, mapModifiedTx)
     else if desc \<notin> iter ` set mapModifiedTx
     then (nDescendantsUpdated + 1,
           mapModifiedTx @ [update_for_parent_inclusion (entry mempool it) (ModifiedEntry mempool desc)])
     else (nDescendantsUpdated + 1,
           map (\<lambda>m. if iter m = desc then update_for_parent_inclusion (entry mempool it) m else m)
             mapModifiedTx))"

definition UpdatePackagesForAdded ::
  "CTxMemPool \<Rightarrow> txiter set \<Rightarrow> CTxMemPoolModifiedEntry list \<Rightarrow> int \<times> CTxMemPoolModifiedEntry list" where
  "UpdatePackagesForAdded mempool alreadyAdded mapModifiedTx =
     fold (\<lambda>it. fold (update_descendant mempool alreadyAdded it)
                   (sorted_list_of_set (CalculateDescendants mempool it)))
       (sorted_list_of_set alreadyAdded) (0, mapModifiedTx)"

definition SkipMapTxEntry ::
  "BlockAssembler \<Rightarrow> txiter \<Rightarrow> CTxMemPoolModifiedEntry list \<Rightarrow> txiter set \<Rightarrow> bool" where
  "SkipMapTxEntry a it mapModifiedTx failedTx \<longleftrightarrow>
     it \<in> iter ` set mapModifiedTx \<or> it \<in> inBlock a \<or> it \<in> failedTx"

text \<open>\<open>SortForBlock\<close>: by ancestor count, then by hash.\<close>

definition SortForBlock :: "CTxMemPool \<Rightarrow> txiter set \<Rightarrow> txiter list" where
  "SortForBlock mempool package =
     sort_key (\<lambda>it. (nCountWithAncestors (entry mempool it), it)) (sorted_list_of_set package)"

subsection \<open>The loop of addPackageTxs\<close>

record selection =
  assembler :: BlockAssembler
  mi :: "txiter list"
  mapModifiedTx :: "CTxMemPoolModifiedEntry list"
  failedTx :: "txiter set"
  nConsecutiveFailed :: int
  nPackagesSelected :: int
  nDescendantsUpdated :: int

text \<open>One pass through the body of the \<open>while\<close>: the loop goes on, or it has ended, or
  \<open>assert(!inBlock.count(iter))\<close> has failed.\<close>

datatype outcome = Continue selection | Finished selection | AssertionFailure

text \<open>The choice between the next entry of the index and the best modified entry: the
  transaction, the modified entry when it is the one used, and the rest of the index.\<close>

fun next_candidate ::
  "CTxMemPool \<Rightarrow> txiter list \<Rightarrow> CTxMemPoolModifiedEntry option
     \<Rightarrow> (txiter \<times> CTxMemPoolModifiedEntry option \<times> txiter list) option" where
  "next_candidate mempool [] None = None"
| "next_candidate mempool [] (Some modit) = Some (iter modit, Some modit, [])"
| "next_candidate mempool (it # rest) None = Some (it, None, rest)"
| "next_candidate mempool (it # rest) (Some modit) =
     (if CompareTxMemPoolEntryByAncestorFee modit (ModifiedEntry mempool it)
      then Some (iter modit, Some modit, it # rest)
      else Some (it, None, rest))"

text \<open>What the three failure branches share: a modified entry that failed is erased and
  remembered in \<open>failedTx\<close>.\<close>

definition drop_failed :: "txiter \<Rightarrow> bool \<Rightarrow> selection \<Rightarrow> selection" where
  "drop_failed it fUsingModified st =
     (if fUsingModified
      then st\<lparr> mapModifiedTx := erase_modified it (mapModifiedTx st),
               failedTx := insert it (failedTx st) \<rparr>
      else st)"

definition MAX_CONSECUTIVE_FAILURES :: int where
  "MAX_CONSECUTIVE_FAILURES = 1000"

definition count_failure :: "selection \<Rightarrow> outcome" where
  "count_failure st =
     (let st = st\<lparr> nConsecutiveFailed := nConsecutiveFailed st + 1 \<rparr>
      in if nConsecutiveFailed st > MAX_CONSECUTIVE_FAILURES
            \<and> nBlockWeight (assembler st)
                  > (nBlockMaxWeight (assembler st) + 2 ^ 32 - 4000) mod 2 ^ 32
         then Finished st else Continue st)"

text \<open>The end of the loop's body, once a package has passed every test: the package is
  sorted, each transaction is added and erased from the modified set, and the packages of
  the descendants are updated.\<close>

definition select_package :: "CTxMemPool \<Rightarrow> selection \<Rightarrow> txiter set \<Rightarrow> selection" where
  "select_package mempool st package =
     (let sortedEntries = SortForBlock mempool package;
          a = fold (\<lambda>e a. AddToBlock mempool a e) sortedEntries (assembler st);
          M = fold erase_modified sortedEntries (mapModifiedTx st);
          (n, M) = UpdatePackagesForAdded mempool package M
      in st\<lparr> assembler := a, mapModifiedTx := M, nConsecutiveFailed := 0,
              nPackagesSelected := nPackagesSelected st + 1,
              nDescendantsUpdated := nDescendantsUpdated st + n \<rparr>)"

text \<open>The body from the assertion on, for the chosen transaction \<open>it\<close> and, when it came
  from the modified set, its entry there.\<close>

definition try_package ::
  "CTxMemPool \<Rightarrow> Limits \<Rightarrow> selection \<Rightarrow> txiter \<Rightarrow> CTxMemPoolModifiedEntry option \<Rightarrow> outcome" where
  "try_package mempool limits st it modit =
     (let fUsingModified = (modit \<noteq> None) in
      if it \<in> inBlock (assembler st) then AssertionFailure
      else
        let packageSize = (case modit of
               None \<Rightarrow> nSizeWithAncestors (entry mempool it)
             | Some m \<Rightarrow> mod_nSizeWithAncestors m);
            packageFees = (case modit of
               None \<Rightarrow> nModFeesWithAncestors (entry mempool it)
             | Some m \<Rightarrow> mod_nModFeesWithAncestors m);
            packageSigOpsCost = (case modit of
               None \<Rightarrow> nSigOpCostWithAncestors (entry mempool it)
             | Some m \<Rightarrow> mod_nSigOpCostWithAncestors m)
        in
        if packageFees < GetFee (blockMinFeeRate (assembler st)) packageSize
        then count_failure (drop_failed it fUsingModified st)
        else if \<not> TestPackage limits (assembler st) packageSize packageSigOpsCost
        then count_failure (drop_failed it fUsingModified st)
        else
          let package = insert it
                (onlyUnconfirmed (assembler st) (CalculateMemPoolAncestors mempool it))
          in
          if \<not> TestPackageTransactions mempool (assembler st) package
          then Continue (drop_failed it fUsingModified st)
          else Continue (select_package mempool st package))"

definition addPackageTxs_step :: "CTxMemPool \<Rightarrow> Limits \<Rightarrow> selection \<Rightarrow> outcome" where
  "addPackageTxs_step mempool limits st =
     (if mi st = [] \<and> mapModifiedTx st = [] then Finished st
      else if mi st \<noteq> []
              \<and> SkipMapTxEntry (assembler st) (hd (mi st)) (mapModifiedTx st) (failedTx st)
      then Continue (st\<lparr> mi := tl (mi st) \<rparr>)
      else
        case next_candidate mempool (mi st) (best_modified (mapModifiedTx st)) of
          None \<Rightarrow> Finished st
        | Some (it, modit, mi') \<Rightarrow> try_package mempool limits (st\<lparr> mi := mi' \<rparr>) it modit)"

text \<open>The state in which \<open>addPackageTxs\<close> enters its loop, and the loop run for a number
  of passes.\<close>

definition addPackageTxs_begin :: "CTxMemPool \<Rightarrow> BlockAssembler \<Rightarrow> selection" where
  "addPackageTxs_begin mempool a =
     \<lparr> assembler = a, mi = ancestor_score_index mempool,
       mapModifiedTx = snd (UpdatePackagesForAdded mempool (inBlock a) []),
       failedTx = {}, nConsecutiveFailed = 0, nPackagesSelected = 0, nDescendantsUpdated = 0 \<rparr>"

fun addPackageTxs_run :: "CTxMemPool \<Rightarrow> Limits \<Rightarrow> nat \<Rightarrow> selection \<Rightarrow> outcome" where
  "addPackageTxs_run mempool limits 0 st = Continue st"
| "addPackageTxs_run mempool limits (Suc n) st =
     (case addPackageTxs_step mempool limits st of
        Continue st' \<Rightarrow> addPackageTxs_run mempool limits n st'
      | Finished st' \<Rightarrow> Finished st'
      | AssertionFailure \<Rightarrow> AssertionFailure)"

subsection \<open>What the selection relies on, and what it keeps\<close>

text \<open>The mempool's own invariants over its transactions: the ancestor and descendant
  sets are finite, stay in the pool and mirror each other; ancestors of ancestors are
  ancestors; a transaction's weight is at most four times its virtual size; its sigop cost
  is not negative; its aggregates are the sums over itself and its ancestors, and they
  fit their types with room to spare (a size below \<open>2^61\<close>, a sigop cost below
  \<open>2^63\<close>).\<close>

definition pool :: "CTxMemPool \<Rightarrow> txiter set" where
  "pool mempool = set (ancestor_score_index mempool)"

definition package_size :: "CTxMemPool \<Rightarrow> txiter set \<Rightarrow> nat" where
  "package_size mempool S = (\<Sum>a \<in> S. nTxSize (entry mempool a))"

definition package_sigops :: "CTxMemPool \<Rightarrow> txiter set \<Rightarrow> int" where
  "package_sigops mempool S = (\<Sum>a \<in> S. sigOpCost (entry mempool a))"

definition mempool_consistent :: "CTxMemPool \<Rightarrow> bool" where
  "mempool_consistent mempool \<longleftrightarrow>
     (\<forall>t \<in> pool mempool.
        finite (CalculateMemPoolAncestors mempool t)
        \<and> finite (CalculateDescendants mempool t)
        \<and> CalculateMemPoolAncestors mempool t \<subseteq> pool mempool
        \<and> CalculateDescendants mempool t \<subseteq> pool mempool
        \<and> t \<notin> CalculateMemPoolAncestors mempool t
        \<and> (\<forall>a \<in> CalculateMemPoolAncestors mempool t.
              CalculateMemPoolAncestors mempool a \<subseteq> CalculateMemPoolAncestors mempool t)
        \<and> (\<forall>d \<in> pool mempool.
              d \<in> CalculateDescendants mempool t
                \<longleftrightarrow> d = t \<or> t \<in> CalculateMemPoolAncestors mempool d)
        \<and> nTxWeight (entry mempool t) \<le> WITNESS_SCALE_FACTOR * nTxSize (entry mempool t)
        \<and> 0 \<le> sigOpCost (entry mempool t)
        \<and> nSizeWithAncestors (entry mempool t)
            = package_size mempool (insert t (CalculateMemPoolAncestors mempool t))
        \<and> nSigOpCostWithAncestors (entry mempool t)
            = package_sigops mempool (insert t (CalculateMemPoolAncestors mempool t))
        \<and> nSizeWithAncestors (entry mempool t) < 2 ^ 61
        \<and> nSigOpCostWithAncestors (entry mempool t) < 2 ^ 63)"

text \<open>The limits of consensus.h lie in the range of their types, and the sigops that
  \<open>resetBlock\<close> reserves fit.\<close>

definition limits_in_range :: "Limits \<Rightarrow> bool" where
  "limits_in_range limits \<longleftrightarrow>
     MAX_BLOCK_WEIGHT limits < 2 ^ 32
     \<and> 400 \<le> MAX_BLOCK_SIGOPS_COST limits \<and> MAX_BLOCK_SIGOPS_COST limits < 2 ^ 63"

text \<open>The bounds that the specification's invariant 4 names.\<close>

definition within_limits :: "Limits \<Rightarrow> BlockAssembler \<Rightarrow> bool" where
  "within_limits limits a \<longleftrightarrow>
     nBlockWeight a \<le> nBlockMaxWeight a
     \<and> int (nBlockSigOpsCost a) \<le> MAX_BLOCK_SIGOPS_COST limits"

text \<open>What is left of a transaction's package once the set \<open>B\<close> is in the block, and what
  a modified entry must say about it: the entry's size and sigop cost are at least those
  of what is left, and at most the aggregates of the mempool's entry.\<close>

definition remaining :: "CTxMemPool \<Rightarrow> txiter set \<Rightarrow> txiter \<Rightarrow> txiter set" where
  "remaining mempool B d = insert d (CalculateMemPoolAncestors mempool d) - B"

definition covers :: "CTxMemPool \<Rightarrow> txiter set \<Rightarrow> CTxMemPoolModifiedEntry \<Rightarrow> bool" where
  "covers mempool B m \<longleftrightarrow>
     iter m \<in> pool mempool
     \<and> package_size mempool (remaining mempool B (iter m)) \<le> mod_nSizeWithAncestors m
     \<and> mod_nSizeWithAncestors m \<le> nSizeWithAncestors (entry mempool (iter m))
     \<and> package_sigops mempool (remaining mempool B (iter m)) \<le> mod_nSigOpCostWithAncestors m
     \<and> mod_nSigOpCostWithAncestors m \<le> nSigOpCostWithAncestors (entry mempool (iter m))"

text \<open>The invariant of the loop.\<close>

definition selection_inv :: "CTxMemPool \<Rightarrow> Limits \<Rightarrow> selection \<Rightarrow> bool" where
  "selection_inv mempool limits st \<longleftrightarrow>
     within_limits limits (assembler st)
     \<and> nBlockMaxWeight (assembler st) < 2 ^ 32
     \<and> inBlock (assembler st) \<subseteq> pool mempool
     \<and> (\<forall>b \<in> inBlock (assembler st).
           CalculateMemPoolAncestors mempool b \<subseteq> inBlock (assembler st))
     \<and> set (mi st) \<subseteq> pool mempool
     \<and> (\<forall>m \<in> set (mapModifiedTx st).
           iter m \<notin> inBlock (assembler st) \<and> covers mempool (inBlock (assembler st)) m)"

subsection \<open>A mempool of a parent and its child\<close>

text \<open>The specification's test scenario: a parent (transaction 0) that pays one unit per
  byte and its child (transaction 1) that pays a hundred.  The index by ancestor fee rate
  has the child first.\<close>

definition parent_tx :: CTxMemPoolEntry where
  "parent_tx =
     \<lparr> nTxWeight = 800, nTxSize = 200, sigOpCost = 4, nFee = 200, nModifiedFee = 200,
       nSizeWithAncestors = 200, nModFeesWithAncestors = 200, nSigOpCostWithAncestors = 4,
       nCountWithAncestors = 1, tx_nLockTime = 0, tx_sequences_final = True,
       tx_HasWitness = False \<rparr>"

definition child_tx :: CTxMemPoolEntry where
  "child_tx =
     \<lparr> nTxWeight = 400, nTxSize = 100, sigOpCost = 1, nFee = 10000, nModifiedFee = 10000,
       nSizeWithAncestors = 300, nModFeesWithAncestors = 10200, nSigOpCostWithAncestors = 5,
       nCountWithAncestors = 2, tx_nLockTime = 0, tx_sequences_final = True,
       tx_HasWitness = False \<rparr>"

definition parent_child_pool :: CTxMemPool where
  "parent_child_pool =
     \<lparr> entry = (\<lambda>t. if t = 0 then parent_tx else child_tx),
       ancestor_score_index = [1, 0],
       CalculateMemPoolAncestors = (\<lambda>t. if t = 1 then {0} else {}),
       CalculateDescendants = (\<lambda>t. if t = 0 then {0, 1} else {t}) \<rparr>"

definition consensus_limits :: Limits where
  "consensus_limits = \<lparr> MAX_BLOCK_WEIGHT = 4000000, MAX_BLOCK_SIGOPS_COST = 80000 \<rparr>"

definition parent_child_start :: selection where
  "parent_child_start =
     addPackageTxs_begin parent_child_pool
       (CreateNewBlock_prepare (BlockAssembler_init consensus_limits 1000 3996000) 10 0 True)"

text \<open>The block and the state of the selection once both are in.\<close>

definition parent_child_block :: BlockAssembler where
  "parent_child_block =
     \<lparr> nBlockMaxWeight = 3996000, blockMinFeeRate = 1000, nBlockWeight = 5200,
       nBlockTx = 2, nBlockSigOpsCost = 405, nFees = 10200, inBlock = {0, 1}, block_nHeight = 10,
       nLockTimeCutoff = 0, fIncludeWitness = True, block_vtx = [0, 1], vTxFees = [200, 10000],
       vTxSigOpsCost = [4, 1] \<rparr>"

definition parent_child_selected :: "txiter list \<Rightarrow> selection" where
  "parent_child_selected rest =
     \<lparr> assembler = parent_child_block,
       mi = rest, mapModifiedTx = [], failedTx = {}, nConsecutiveFailed = 0,
       nPackagesSelected = 1, nDescendantsUpdated = 0 \<rparr>"


section \<open>Properties of the token ledger\<close>

lemma length_le_bytes [simp]: "length (le_bytes k v) = k"
  by (induction k arbitrary: v) simp_all

lemma length_tokT: "length tokT = 59"
  by (simp add: tokT_def)

lemmas eval_ser = TokenOperationHash_def SerializeHash_def Serialize_def ser_fields_def
  ser_string_def ser_uint8_def ser_int64_def WriteCompactSize_def TokenOp_val_def
  TokenOperation_default_def

lemma hash_create_T: "TokenOperationHash test_node create_T = 95"
  by (simp add: eval_ser test_node_def create_T_def length_tokT)

lemma hash_create_again: "TokenOperationHash test_node create_again = 97"
  by (simp add: eval_ser test_node_def create_again_def length_tokT)

lemma hash_overdraw: "TokenOperationHash test_node overdraw = 94"
  by (simp add: eval_ser test_node_def overdraw_def length_tokT)

lemma hash_negative_transfer: "TokenOperationHash test_node negative_transfer = 94"
  by (simp add: eval_ser test_node_def negative_transfer_def length_tokT)

lemma verify_create_again: "VerifySignature test_node create_again"
  by (simp add: VerifySignature_def test_node_def create_again_def TokenOperation_default_def
      TokenOp_val_def)

lemma verify_overdraw: "VerifySignature test_node overdraw"
  by (simp add: VerifySignature_def test_node_def overdraw_def TokenOperation_default_def
      TokenOp_val_def)

lemma verify_negative_transfer: "VerifySignature test_node negative_transfer"
  by (simp add: VerifySignature_def test_node_def negative_transfer_def TokenOperation_default_def
      TokenOp_val_def)

lemma ledger_T_simps:
  "m_token_meta ledger_T tokT = Some \<lparr> meta_name = ''Tee'', meta_symbol = ''T'',
        meta_decimals = 8, operator_wallet = ''alice'', creation_height = 100 \<rparr>"
  "m_seen_ops ledger_T = {95}"
  "m_balances ledger_T (''mallory'', tokT) = None"
  "m_balances ledger_T (''bob'', tokT) = None"
  "m_balances ledger_T (''carol'', tokT) = None"
  "m_totalSupply ledger_T tokT = Some 1000"
  "m_history ledger_T tokT = Some [create_T]"
  by (simp_all add: ledger_T_def empty_ledger_def hash_create_T)

subsection \<open>CREATE on a token that is already registered\<close>

text \<open>
  C7, as the specification states it: a CREATE whose token id already has metadata fails,
  credits nothing, leaves the supply and the history alone.  The code does not do that.
  On the ledger where \<open>alice\<close> created the token, a CREATE of 500 units of the same
  token signed by \<open>mallory\<close> succeeds in \<open>ApplyOperation\<close> and in \<open>ReplayOperation\<close>:
  \<open>mallory\<close> holds 500, the supply is 1500 and the history has two entries.
\<close>

theorem create_existing_counterexample:
  "m_token_meta ledger_T (op_token create_again) \<noteq> None
   \<and> VerifySignature test_node create_again
   \<and> TokenOperationHash test_node create_again \<notin> m_seen_ops ledger_T
   \<and> (case ApplyOperation test_node ledger_T create_again [] False of (ok, L') \<Rightarrow>
        ok \<and> Balance L' ''mallory'' tokT = 500 \<and> TotalSupply L' tokT = 1500
        \<and> TokenHistory L' tokT [] = [create_T, create_again])
   \<and> (case ReplayOperation test_node ledger_T create_again 101 of (ok, L') \<Rightarrow>
        ok \<and> Balance L' ''mallory'' tokT = 500 \<and> TotalSupply L' tokT = 1500
        \<and> TokenHistory L' tokT [] = [create_T, create_again])"
proof -
  have t: "op_token create_again = tokT" "op_from create_again = ''mallory''"
     "op_amount create_again = 500" "TokenOp_of (op_kind create_again) = Some CREATE"
    by (simp_all add: create_again_def TokenOperation_default_def TokenOp_val_def TokenOp_of_def)
  show ?thesis
    using t ledger_T_simps verify_create_again hash_create_again
    by (simp add: ApplyOperation_def ReplayOperation_def dispatch_def CreateToken_def Let_def
        push_history_def Balance_def TotalSupply_def TokenHistory_def at0_def
        split: option.splits)
qed

text \<open>
  C7, amended to what the code does: for every CREATE with a valid signature and an unseen
  hash whose token id already has metadata, \<open>ApplyOperation\<close> and \<open>ReplayOperation\<close>
  succeed; the existing metadata is not overwritten, but the creator's balance and the total
  supply grow by the amount and the operation is appended to the token's history.
\<close>

theorem create_existing_token:
  assumes sig: "VerifySignature node op"
    and unseen: "TokenOperationHash node op \<notin> m_seen_ops L"
    and kind: "op_kind op = TokenOp_val CREATE"
    and meta: "m_token_meta L (op_token op) = Some meta"
  shows "(\<exists>L'. ApplyOperation node L op wallet_name broadcast = (True, L') \<and> created_again L op L')
       \<and> (\<exists>L'. ReplayOperation node L op height = (True, L') \<and> created_again L op L')"
proof -
  have k: "TokenOp_of (op_kind op) = Some CREATE"
    by (simp add: kind TokenOp_of_def TokenOp_val_def)
  show ?thesis
    using sig unseen k meta
    by (simp add: ApplyOperation_def ReplayOperation_def dispatch_def CreateToken_def Let_def
        push_history_def created_again_def Balance_def TotalSupply_def TokenHistory_def at0_def
        split: option.splits)
qed

theorem create_existing_token_witness:
  "VerifySignature test_node create_again
   \<and> TokenOperationHash test_node create_again \<notin> m_seen_ops ledger_T
   \<and> op_kind create_again = TokenOp_val CREATE
   \<and> m_token_meta ledger_T (op_token create_again) \<noteq> None
   \<and> (\<exists>L'. ApplyOperation test_node ledger_T create_again [] False = (True, L')
          \<and> created_again ledger_T create_again L')
   \<and> (\<exists>L'. ReplayOperation test_node ledger_T create_again 101 = (True, L')
          \<and> created_again ledger_T create_again L')"
proof -
  have u: "TokenOperationHash test_node create_again \<notin> m_seen_ops ledger_T"
    by (simp add: hash_create_again ledger_T_simps)
  have k: "op_kind create_again = TokenOp_val CREATE"
    by (simp add: create_again_def)
  obtain meta where m: "m_token_meta ledger_T (op_token create_again) = Some meta"
    by (simp add: ledger_T_simps create_again_def)
  show ?thesis
    using create_existing_token [OF verify_create_again u k m, of "[]" False 101]
      verify_create_again u k m by simp
qed

subsection \<open>An operation that violates a precondition\<close>

lemma dispatch_refuses:
  assumes "violates_precondition L op"
  shows "\<exists>L'. dispatch L op height = (False, L') \<and> same_but_balance_entries L L'"
proof (cases "TokenOp_of (op_kind op)")
  case None
  with assms show ?thesis by (simp add: violates_precondition_def)
next
  case (Some k)
  with assms show ?thesis
    by (cases k)
       (auto simp: violates_precondition_def dispatch_def Transfer_def TransferFrom_def Burn_def
          Mint_def TransferOwnership_def same_but_balance_entries_def Balance_def Allowance_def
          at0_def Let_def split: option.splits)
qed

text \<open>
  C8, as the specification states it: an operation that violates a precondition leaves the
  entire ledger state unchanged, the set \<open>seen_ops\<close> included.  The code records the hash
  before it looks at the operation: \<open>bob\<close>, who holds nothing, transfers 400; the call
  returns false, and the ledger is not the one before: the hash is in \<open>m_seen_ops\<close>, and
  \<open>bob\<close> has a balance entry (holding 0).
\<close>

theorem refused_operation_counterexample:
  "violates_precondition ledger_T overdraw
   \<and> VerifySignature test_node overdraw
   \<and> TokenOperationHash test_node overdraw \<notin> m_seen_ops ledger_T
   \<and> (case ApplyOperation test_node ledger_T overdraw [] True of (ok, L') \<Rightarrow>
        \<not> ok \<and> L' \<noteq> ledger_T
        \<and> m_seen_ops L' = insert (TokenOperationHash test_node overdraw) (m_seen_ops ledger_T)
        \<and> m_seen_ops L' \<noteq> m_seen_ops ledger_T
        \<and> m_balances L' (''bob'', tokT) = Some 0
        \<and> m_balances ledger_T (''bob'', tokT) = None)"
proof -
  have t: "op_token overdraw = tokT" "op_from overdraw = ''bob''" "op_to overdraw = ''carol''"
     "op_amount overdraw = 400" "TokenOp_of (op_kind overdraw) = Some TRANSFER"
    by (simp_all add: overdraw_def TokenOperation_default_def TokenOp_val_def TokenOp_of_def)
  have v: "violates_precondition ledger_T overdraw"
    by (simp add: violates_precondition_def t Balance_def ledger_T_simps)
  have u: "TokenOperationHash test_node overdraw \<notin> m_seen_ops ledger_T"
    by (simp add: hash_overdraw ledger_T_simps)
  define L' where "L' = ledger_T\<lparr> m_seen_ops := {94, 95}, m_balances := (m_balances ledger_T)((''bob'', tokT) \<mapsto> 0) \<rparr>"
  have a: "ApplyOperation test_node ledger_T overdraw [] True = (False, L')"
    using verify_overdraw
    by (simp add: ApplyOperation_def hash_overdraw ledger_T_simps dispatch_def t Transfer_def
        Let_def at0_def L'_def)
  have s: "m_seen_ops L' = {94, 95}" "m_balances L' (''bob'', tokT) = Some 0"
    by (simp_all add: L'_def)
  have d: "m_seen_ops L' \<noteq> m_seen_ops ledger_T"
    by (simp add: s ledger_T_simps)
  then have "L' \<noteq> ledger_T" by auto
  with v u verify_overdraw a s d show ?thesis
    by (simp add: hash_overdraw ledger_T_simps)
qed

text \<open>
  C8, amended to what the code does: for every operation with a valid signature and an
  unseen hash that violates a precondition, \<open>ApplyOperation\<close> returns failure and leaves
  every balance (as \<open>Balance\<close> reads it), the allowances, the supply, the metadata, the
  history and the accrued fees unchanged; the operation's hash has been added to
  \<open>seen_ops\<close>.
\<close>

theorem refused_operation_state:
  assumes sig: "VerifySignature node op"
    and unseen: "TokenOperationHash node op \<notin> m_seen_ops L"
    and bad: "violates_precondition L op"
  shows "\<exists>L'. ApplyOperation node L op wallet_name broadcast = (False, L')
           \<and> (\<forall>wallet token. Balance L' wallet token = Balance L wallet token)
           \<and> m_allowances L' = m_allowances L \<and> m_totalSupply L' = m_totalSupply L
           \<and> m_token_meta L' = m_token_meta L \<and> m_history L' = m_history L
           \<and> m_governance_fees L' = m_governance_fees L
           \<and> m_seen_ops L' = insert (TokenOperationHash node op) (m_seen_ops L)"
proof -
  let ?L1 = "L\<lparr> m_seen_ops := insert (TokenOperationHash node op) (m_seen_ops L) \<rparr>"
  have "violates_precondition ?L1 op"
    using bad by (simp add: violates_precondition_def Balance_def Allowance_def
        cong: option.case_cong TokenOp.case_cong)
  from dispatch_refuses [OF this, of "ChainActiveHeight node"]
  obtain L' where d: "dispatch ?L1 op (ChainActiveHeight node) = (False, L')"
    and s: "same_but_balance_entries ?L1 L'" by blast
  have "ApplyOperation node L op wallet_name broadcast = (False, L')"
    using sig unseen d by (simp add: ApplyOperation_def Let_def)
  moreover from s have "(\<forall>wallet token. Balance L' wallet token = Balance L wallet token)
           \<and> m_allowances L' = m_allowances L \<and> m_totalSupply L' = m_totalSupply L
           \<and> m_token_meta L' = m_token_meta L \<and> m_history L' = m_history L
           \<and> m_governance_fees L' = m_governance_fees L
           \<and> m_seen_ops L' = insert (TokenOperationHash node op) (m_seen_ops L)"
    by (simp add: same_but_balance_entries_def Balance_def)
  ultimately show ?thesis by blast
qed

theorem refused_operation_state_witness:
  "VerifySignature test_node overdraw
   \<and> TokenOperationHash test_node overdraw \<notin> m_seen_ops ledger_T
   \<and> violates_precondition ledger_T overdraw
   \<and> (\<exists>L'. ApplyOperation test_node ledger_T overdraw [] True = (False, L')
          \<and> (\<forall>wallet token. Balance L' wallet token = Balance ledger_T wallet token)
          \<and> m_allowances L' = m_allowances ledger_T \<and> m_totalSupply L' = m_totalSupply ledger_T
          \<and> m_token_meta L' = m_token_meta ledger_T \<and> m_history L' = m_history ledger_T
          \<and> m_governance_fees L' = m_governance_fees ledger_T
          \<and> m_seen_ops L' = {94, 95})"
proof -
  have u: "TokenOperationHash test_node overdraw \<notin> m_seen_ops ledger_T"
    by (simp add: hash_overdraw ledger_T_simps)
  have b: "violates_precondition ledger_T overdraw"
    by (simp add: violates_precondition_def overdraw_def TokenOperation_default_def
        TokenOp_val_def TokenOp_of_def Balance_def ledger_T_simps)
  show ?thesis
    using refused_operation_state [OF verify_overdraw u b, of "[]" True] verify_overdraw u b
    by (simp add: hash_overdraw ledger_T_simps)
qed

subsection \<open>A transfer of a negative amount\<close>

lemma sint_neg: "- (2 ^ 63) < sint (a :: 64 word) \<Longrightarrow> sint (- a) = - sint a"
  using sint_lt [of a] by (simp add: sint_word_ariths signed_take_bit_int_eq_self_iff)

text \<open>
  C10: no handler checks the sign of the amount.  For every TRANSFER of a negative amount
  (other than the least 64-bit value) with a valid signature and an unseen hash, from an
  address whose balance is zero to another address that holds less than the amount's
  magnitude, \<open>ApplyOperation\<close> succeeds; afterwards the sender's balance is the magnitude of
  the amount, which is positive, and the recipient's balance has gone down by it and is
  negative.
\<close>

theorem transfer_negative_amount:
  assumes sig: "VerifySignature node op"
    and unseen: "TokenOperationHash node op \<notin> m_seen_ops L"
    and kind: "op_kind op = TokenOp_val TRANSFER"
    and neg: "sint (op_amount op) < 0"
    and nomin: "- (2 ^ 63) < sint (op_amount op)"
    and zero: "Balance L (op_from op) (op_token op) = 0"
    and other: "op_from op \<noteq> op_to op"
    and room: "- (2 ^ 63) \<le> sint (Balance L (op_to op) (op_token op)) + sint (op_amount op)"
    and poor: "sint (Balance L (op_to op) (op_token op)) < - sint (op_amount op)"
  shows "\<exists>L'. ApplyOperation node L op wallet_name broadcast = (True, L')
           \<and> sint (Balance L' (op_from op) (op_token op)) = - sint (op_amount op)
           \<and> 0 < sint (Balance L' (op_from op) (op_token op))
           \<and> sint (Balance L' (op_to op) (op_token op))
                = sint (Balance L (op_to op) (op_token op)) + sint (op_amount op)
           \<and> sint (Balance L' (op_to op) (op_token op)) < 0"
proof -
  let ?a = "op_amount op"
  have k: "TokenOp_of (op_kind op) = Some TRANSFER"
    by (simp add: kind TokenOp_of_def TokenOp_val_def)
  have z: "at0 (m_balances L) (op_from op, op_token op) = 0"
    using zero by (simp add: Balance_def at0_def)
  have s1: "sint (0 - ?a) = - sint ?a"
    using sint_neg [OF nomin] by simp
  have up: "sint (Balance L (op_to op) (op_token op)) + sint ?a < 2 ^ 63"
    using neg sint_lt [of "Balance L (op_to op) (op_token op)"] by simp
  have s2: "sint (Balance L (op_to op) (op_token op) + ?a)
              = sint (Balance L (op_to op) (op_token op)) + sint ?a"
    using room up by (simp add: sint_word_ariths signed_take_bit_int_eq_self)
  have nlt: "\<not> sint (0::64 word) < sint ?a"
    using neg by simp
  show ?thesis
    using sig unseen k z s1 s2 nlt other neg poor
    by (simp add: ApplyOperation_def dispatch_def Transfer_def Let_def push_history_def
        Balance_def at0_def split: option.splits)
qed

theorem transfer_negative_amount_witness:
  "VerifySignature test_node negative_transfer
   \<and> TokenOperationHash test_node negative_transfer \<notin> m_seen_ops ledger_T
   \<and> op_kind negative_transfer = TokenOp_val TRANSFER
   \<and> sint (op_amount negative_transfer) = - 5
   \<and> Balance ledger_T ''bob'' tokT = 0 \<and> Balance ledger_T ''carol'' tokT = 0
   \<and> (\<exists>L'. ApplyOperation test_node ledger_T negative_transfer [] True = (True, L')
          \<and> sint (Balance L' ''bob'' tokT) = 5 \<and> sint (Balance L' ''carol'' tokT) = - 5)"
proof -
  have u: "TokenOperationHash test_node negative_transfer \<notin> m_seen_ops ledger_T"
    by (simp add: hash_negative_transfer ledger_T_simps)
  have t: "op_token negative_transfer = tokT" "op_from negative_transfer = ''bob''"
    "op_to negative_transfer = ''carol''" "op_amount negative_transfer = - 5"
    "op_kind negative_transfer = TokenOp_val TRANSFER"
    by (simp_all add: negative_transfer_def TokenOperation_default_def)
  have b: "Balance ledger_T ''bob'' tokT = 0" "Balance ledger_T ''carol'' tokT = 0"
    by (simp_all add: Balance_def ledger_T_simps)
  have s: "sint (- 5 :: 64 word) = - 5" by simp
  show ?thesis
    using transfer_negative_amount [of test_node negative_transfer ledger_T "[]" True]
      verify_negative_transfer u t b s by auto
qed

section \<open>Properties of the coinbase\<close>

lemmas coinbase_defs = coinbase_vout_def Let_def bindE_def vout_at_def resize_def CTxOut_null_def
  GOV_BPS_def OP_BPS_def BPS_DENOM_def div64_def signed_divide_int_def

subsection \<open>The fallback for an invalid governance address\<close>

text \<open>With neither address valid the fallback does what its comment says: one output,
  the whole reward, to the miner.\<close>

lemma fallback_without_operator:
  assumes "\<not> IsValidDestination node (GovernanceWallet chainparams)"
    and "\<not> IsValidDestination node (NodeOperatorWallet chainparams)"
  shows "coinbase_vout node chainparams height fees scriptPubKeyIn =
     Inr [\<lparr> nValue = (if height \<ge> 1 \<and> height \<le> nFeeBurnEndHeight chainparams
                       then GetBlockSubsidy chainparams height
                       else GetBlockSubsidy chainparams height + fees),
            scriptPubKey = scriptPubKeyIn \<rparr>]"
  using assms by (simp add: coinbase_defs eval_nat_numeral)

text \<open>
  C4: whenever the governance address is invalid the coinbase has exactly one output, paying
  the full reward to the miner, whether or not a valid operator address is configured, and
  building it stays inside the output vector.  The code breaks this when the operator
  address is valid: the fallback shrinks \<open>vout\<close> to one element, and the operator's
  branch that follows writes \<open>vout[2]\<close>.  At height 100 with the governance address
  undecodable and the operator's valid, the construction accesses index 2 of a vector of
  size 1.
\<close>

theorem fallback_with_operator_out_of_range:
  "\<not> IsValidDestination payout_node (GovernanceWallet no_governance_params)
   \<and> IsValidDestination payout_node (NodeOperatorWallet no_governance_params)
   \<and> coinbase_vout payout_node no_governance_params 100 100000000 ''miner''
       = Inl (VoutIndexOutOfRange 2 1)"
  by (simp add: coinbase_defs payout_node_def payout_params_def no_governance_params_def
      eval_nat_numeral)

subsection \<open>The split of the reward\<close>

text \<open>
  C5, as the specification states it: at height 100 with subsidy \<open>50\<cdot>10\<^sup>8\<close>, fees
  \<open>1\<cdot>10\<^sup>8\<close> (not burned) and both addresses valid, the miner's output is \<open>22\<cdot>10\<^sup>8\<close>.
  The code pays the miner the remainder, which is \<open>11.22\<cdot>10\<^sup>8\<close>.
\<close>

theorem subsidy_split_counterexample:
  "GetBlockSubsidy payout_params 100 = 5000000000
   \<and> \<not> (100 \<le> nFeeBurnEndHeight payout_params)
   \<and> IsValidDestination payout_node (GovernanceWallet payout_params)
   \<and> IsValidDestination payout_node (NodeOperatorWallet payout_params)
   \<and> (case coinbase_vout payout_node payout_params 100 100000000 ''miner'' of
         Inl e \<Rightarrow> False
       | Inr vout \<Rightarrow> map nValue vout = [1122000000, 3723000000, 255000000]
                      \<and> map nValue vout \<noteq> [2200000000, 3723000000, 255000000])"
proof -
  have "coinbase_vout payout_node payout_params 100 100000000 ''miner'' =
       Inr [\<lparr> nValue = 1122000000, scriptPubKey = ''miner'' \<rparr>,
            \<lparr> nValue = 3723000000, scriptPubKey = ''script:itc1governance'' \<rparr>,
            \<lparr> nValue = 255000000, scriptPubKey = ''script:itc1operator'' \<rparr>]"
    by (simp add: coinbase_defs payout_node_def payout_params_def eval_nat_numeral)
  then show ?thesis
    by (simp add: payout_node_def payout_params_def)
qed

text \<open>
  C5, amended: for a template built at height 100 with subsidy \<open>50\<cdot>10\<^sup>8\<close>, selected fees
  \<open>1\<cdot>10\<^sup>8\<close> (not burned) and valid governance and operator addresses, the coinbase
  outputs are miner \<open>= 11.22\<cdot>10\<^sup>8\<close>, governance \<open>= 37.23\<cdot>10\<^sup>8\<close>, operator
  \<open>= 2.55\<cdot>10\<^sup>8\<close>, summing to \<open>51\<cdot>10\<^sup>8\<close>; governance is 7300 basis points of the
  reward, the operator 500, and the miner's output is the remainder.
\<close>

theorem subsidy_split:
  assumes subsidy: "GetBlockSubsidy chainparams 100 = 5000000000"
    and not_burned: "nFeeBurnEndHeight chainparams < 100"
    and gov: "IsValidDestination node (GovernanceWallet chainparams)"
    and op: "IsValidDestination node (NodeOperatorWallet chainparams)"
  shows "coinbase_vout node chainparams 100 100000000 scriptPubKeyIn =
     Inr [\<lparr> nValue = 1122000000, scriptPubKey = scriptPubKeyIn \<rparr>,
          \<lparr> nValue = 3723000000,
            scriptPubKey = GetScriptForDestination chainparams (GovernanceWallet chainparams) \<rparr>,
          \<lparr> nValue = 255000000,
            scriptPubKey = GetScriptForDestination chainparams (NodeOperatorWallet chainparams) \<rparr>]
     \<and> (1122000000 + 3723000000 + 255000000 :: CAmount) = 5000000000 + 100000000
     \<and> (3723000000 :: CAmount) = div64 ((5000000000 + 100000000) * GOV_BPS) BPS_DENOM
     \<and> (255000000 :: CAmount) = div64 ((5000000000 + 100000000) * OP_BPS) BPS_DENOM
     \<and> (1122000000 :: CAmount) = (5000000000 + 100000000) - 3723000000 - 255000000"
  using assms by (simp add: coinbase_defs eval_nat_numeral)

theorem subsidy_split_witness:
  "GetBlockSubsidy payout_params 100 = 5000000000
   \<and> nFeeBurnEndHeight payout_params < 100
   \<and> IsValidDestination payout_node (GovernanceWallet payout_params)
   \<and> IsValidDestination payout_node (NodeOperatorWallet payout_params)
   \<and> coinbase_vout payout_node payout_params 100 100000000 ''miner'' =
       Inr [\<lparr> nValue = 1122000000, scriptPubKey = ''miner'' \<rparr>,
            \<lparr> nValue = 3723000000, scriptPubKey = ''script:itc1governance'' \<rparr>,
            \<lparr> nValue = 255000000, scriptPubKey = ''script:itc1operator'' \<rparr>]"
proof -
  have s: "GetBlockSubsidy payout_params 100 = 5000000000"
    and b: "nFeeBurnEndHeight payout_params < 100"
    and g: "IsValidDestination payout_node (GovernanceWallet payout_params)"
    and p: "IsValidDestination payout_node (NodeOperatorWallet payout_params)"
    by (simp_all add: payout_params_def payout_node_def)
  show ?thesis
    using subsidy_split [OF s b g p, of "''miner''"] s b g p
    by (simp add: payout_params_def)
qed

section \<open>Properties of the proof-of-work engine\<close>

subsection \<open>The compact encoding\<close>

lemma bits_upper: "n < 2 ^ bits n"
proof (induction n rule: bits.induct)
  case (1 n)
  show ?case
  proof (cases "n = 0")
    case True
    then show ?thesis by (subst bits.simps) simp
  next
    case False
    with 1 have "n div 2 < 2 ^ bits (n div 2)" by simp
    then have "n < 2 * 2 ^ bits (n div 2)" by linarith
    with False show ?thesis by (subst bits.simps) simp
  qed
qed

lemma bits_le: "n < 2 ^ k \<Longrightarrow> bits n \<le> k"
proof (induction n arbitrary: k rule: bits.induct)
  case (1 n)
  show ?case
  proof (cases "n = 0")
    case True
    then show ?thesis by (subst bits.simps) simp
  next
    case False
    then obtain k' where k: "k = Suc k'" using "1.prems" by (cases k) auto
    with "1.prems" have "n div 2 < 2 ^ k'" by simp
    with 1 False have "bits (n div 2) \<le> k'" by simp
    with False k show ?thesis by (subst bits.simps) simp
  qed
qed

lemma bit_below:
  fixes c :: nat
  assumes "c < 2 ^ k" "bit c n"
  shows "n < k"
proof (rule ccontr)
  assume "\<not> n < k"
  then have "(2::nat) ^ k \<le> 2 ^ n" by (simp add: power_increasing)
  with assms(1) have "c < 2 ^ n" by (rule less_le_trans)
  then have "c div 2 ^ n = 0" by (rule div_less)
  with assms(2) show False by (simp add: bit_iff_odd)
qed

lemma or_shift:
  fixes c s :: nat
  assumes "c < 2 ^ 24"
  shows "c OR s * 2 ^ 24 = c + s * 2 ^ 24"
proof -
  have "c AND push_bit 24 s = 0"
    by (rule bit_eqI) (auto simp: bit_and_iff bit_push_bit_iff dest: bit_below [OF assms])
  then show ?thesis by (simp add: disjunctive_add_eq_or push_bit_eq_mult)
qed

lemma GetCompact_le:
  assumes x: "x < 2 ^ 256"
  shows "target_of (GetCompact x) \<le> x"
proof -
  define s where "s = (bits x + 7) div 8"
  define c0 where "c0 = (if s \<le> 3 then x * 2 ^ (8 * (3 - s)) else x div 2 ^ (8 * (s - 3)))"
  define hi where "hi \<longleftrightarrow> (c0 div 2 ^ 23) mod 2 \<noteq> 0"
  define c where "c = (if hi then c0 div 2 ^ 8 else c0)"
  define s' where "s' = (if hi then s + 1 else s)"
  have "bits x \<le> 256" using x by (rule bits_le)
  then have s32: "s \<le> 32" by (simp add: s_def)
  have "bits x \<le> 8 * s" by (simp add: s_def)
  then have "(2::nat) ^ bits x \<le> 2 ^ (8 * s)" by (simp add: power_increasing)
  with bits_upper [of x] have xs: "x < 2 ^ (8 * s)" by (rule less_le_trans)
  have c0_24: "c0 < 2 ^ 24"
  proof (cases "s \<le> 3")
    case True
    then have e: "8 * s + 8 * (3 - s) = 24" by simp
    have "x * 2 ^ (8 * (3 - s)) < 2 ^ (8 * s) * 2 ^ (8 * (3 - s))"
      using xs by simp
    also have "\<dots> = 2 ^ 24" by (simp only: power_add [symmetric] e)
    finally show ?thesis using True by (simp only: c0_def if_True)
  next
    case False
    then have e: "24 + 8 * (s - 3) = 8 * s" by simp
    have "(2::nat) ^ (8 * s) = 2 ^ 24 * 2 ^ (8 * (s - 3))"
      by (simp only: power_add [symmetric] e)
    with xs have "x div 2 ^ (8 * (s - 3)) < 2 ^ 24"
      by (simp only: less_mult_imp_div_less)
    with False show ?thesis by (simp only: c0_def if_False)
  qed
  have raw: "(if s \<le> 3 then ((x mod 2 ^ 64) * 2 ^ (8 * (3 - s))) mod 2 ^ 64 mod 2 ^ 32
             else (x div 2 ^ (8 * (s - 3))) mod 2 ^ 64 mod 2 ^ 32) = c0"
  proof (cases "s \<le> 3")
    case True
    have "x * 1 \<le> x * 2 ^ (8 * (3 - s))" by (rule mult_le_mono2) simp
    then have "x \<le> c0" using True by (simp add: c0_def)
    then have "x < 2 ^ 24" using c0_24 by (rule le_less_trans)
    then have "x mod 2 ^ 64 = x" by simp
    moreover from c0_24 True have "x * 2 ^ (8 * (3 - s)) < 2 ^ 24" by (simp add: c0_def)
    ultimately show ?thesis using True by (simp add: c0_def)
  next
    case False
    with c0_24 have "x div 2 ^ (8 * (s - 3)) < 2 ^ 24" by (simp add: c0_def)
    with False show ?thesis by (simp add: c0_def)
  qed
  have c23: "c < 2 ^ 23"
  proof (cases hi)
    case True
    with c0_24 show ?thesis by (simp add: c_def)
  next
    case False
    then have e: "(c0 div 2 ^ 23) mod 2 = 0" by (simp add: hi_def)
    from c0_24 have l: "c0 div 2 ^ 23 < 2" by simp
    have aux: "\<And>q::nat. q mod 2 = 0 \<Longrightarrow> q < 2 \<Longrightarrow> q = 0" by presburger
    have "c0 div 2 ^ 23 = 0" using e l by (rule aux)
    then have "c0 < 2 ^ 23" by simp
    with False show ?thesis by (simp add: c_def)
  qed
  then have c24: "c < 2 ^ 24" by simp
  have s'33: "s' \<le> 33" using s32 by (simp add: s'_def)
  have enc: "unat (GetCompact x) = c + s' * 2 ^ 24"
  proof -
    have "GetCompact x = word_of_nat (c OR s' * 2 ^ 24)"
      unfolding GetCompact_def Let_def s_def [symmetric] raw
      by (simp add: c_def s'_def hi_def)
    also have "c OR s' * 2 ^ 24 = c + s' * 2 ^ 24" using c24 by (rule or_shift)
    finally have g: "GetCompact x = word_of_nat (c + s' * 2 ^ 24)" .
    have "unat (GetCompact x) = (c + s' * 2 ^ 24) mod 2 ^ LENGTH(32)"
      unfolding g by (rule unat_of_nat)
    moreover have "c + s' * 2 ^ 24 < 2 ^ 32" using c24 s'33 by simp
    ultimately show ?thesis by simp
  qed
  have nSize: "unat (GetCompact x) div 2 ^ 24 = s'" using c24 by (simp add: enc)
  have nWord: "unat (GetCompact x) mod 2 ^ 23 = c"
  proof -
    have "c + s' * 2 ^ 24 = c + (2 * s') * 2 ^ 23" by simp
    then show ?thesis using c23 by (simp only: enc mod_mult_self1 mod_less)
  qed
  have dec: "target_of (GetCompact x) =
      (if s' \<le> 3 then c div 2 ^ (8 * (3 - s')) else (c * 2 ^ (8 * (s' - 3))) mod 2 ^ 256)"
    unfolding target_of_def SetCompact_def Let_def nSize nWord by simp
  show ?thesis
  proof (cases hi)
    case False
    then have cs: "c = c0" "s' = s" by (simp_all add: c_def s'_def)
    show ?thesis
    proof (cases "s \<le> 3")
      case True
      then show ?thesis by (simp add: dec cs c0_def)
    next
      case False
      have "(x div 2 ^ (8 * (s - 3)) * 2 ^ (8 * (s - 3))) mod 2 ^ 256
              \<le> x div 2 ^ (8 * (s - 3)) * 2 ^ (8 * (s - 3))"
        by (rule mod_less_eq_dividend)
      also have "\<dots> \<le> x" by (rule div_times_less_eq_dividend)
      finally show ?thesis using False by (simp add: dec cs c0_def)
    qed
  next
    case True
    then have cs: "c = c0 div 2 ^ 8" "s' = s + 1" by (simp_all add: c_def s'_def)
    consider "s \<le> 2" | "s = 3" | "s > 3" by linarith
    then show ?thesis
    proof cases
      case 1
      then have e: "8 * (3 - s) = 8 + 8 * (2 - s)" by simp
      have "x * 2 ^ (8 * (3 - s)) div 2 ^ 8 div 2 ^ (8 * (2 - s)) = x"
        unfolding e power_add by (simp add: div_mult2_eq [symmetric])
      moreover have "3 - (s + 1) = 2 - s" by simp
      ultimately show ?thesis using 1 by (simp add: dec cs c0_def)
    next
      case 2
      have "(x div 2 ^ 8 * 2 ^ 8) mod 2 ^ 256 \<le> x div 2 ^ 8 * 2 ^ 8"
        by (rule mod_less_eq_dividend)
      also have "\<dots> \<le> x" by (rule div_times_less_eq_dividend)
      finally show ?thesis using 2 by (simp add: dec cs c0_def)
    next
      case 3
      then have e: "8 * (s + 1 - 3) = 8 * (s - 3) + 8" by simp
      have d: "x div 2 ^ (8 * (s - 3)) div 2 ^ 8 = x div 2 ^ (8 * (s - 3) + 8)"
        by (simp only: power_add div_mult2_eq)
      have "(x div 2 ^ (8 * (s - 3) + 8) * 2 ^ (8 * (s - 3) + 8)) mod 2 ^ 256
              \<le> x div 2 ^ (8 * (s - 3) + 8) * 2 ^ (8 * (s - 3) + 8)"
        by (rule mod_less_eq_dividend)
      also have "\<dots> \<le> x" by (rule div_times_less_eq_dividend)
      finally have le: "(x div 2 ^ (8 * (s - 3) + 8) * 2 ^ (8 * (s - 3) + 8)) mod 2 ^ 256 \<le> x" .
      have "c = x div 2 ^ (8 * (s - 3)) div 2 ^ 8" using 3 by (simp add: cs c0_def)
      then have c': "c = x div 2 ^ (8 * (s - 3) + 8)" by (simp only: d)
      have "\<not> s' \<le> 3" using 3 by (simp add: cs)
      then have "target_of (GetCompact x) = (c * 2 ^ (8 * (s' - 3))) mod 2 ^ 256"
        by (simp only: dec if_False)
      also have "\<dots> = (x div 2 ^ (8 * (s - 3) + 8) * 2 ^ (8 * (s - 3) + 8)) mod 2 ^ 256"
        by (simp only: c' cs e)
      finally show ?thesis using le by (simp only:)
    qed
  qed
qed

subsection \<open>Evaluating the retarget on a given chain\<close>

lemma chain_upto_numeral:
  "chain_upto tf bf (numeral k) =
     CBlockIndex (numeral k) (tf (numeral k)) (bf (numeral k))
       (Some (chain_upto tf bf (pred_numeral k)))"
proof -
  have "chain_upto tf bf (Suc (pred_numeral k)) =
     CBlockIndex (int (Suc (pred_numeral k))) (tf (Suc (pred_numeral k))) (bf (Suc (pred_numeral k)))
       (Some (chain_upto tf bf (pred_numeral k)))"
    by (rule chain_upto.simps)
  then show ?thesis
    by (simp only: numeral_eq_Suc [symmetric] of_nat_numeral)
qed

lemma chain_upto_1:
  "chain_upto tf bf (Suc 0) = CBlockIndex 1 (tf 1) (bf 1) (Some (chain_upto tf bf 0))"
  using chain_upto.simps(2) [of tf bf 0] by simp

lemmas chain_eval = chain_upto_numeral chain_upto_1 chain_upto.simps(1)

lemma target_limit: "target_of 0x1e0fffff = 0xfffff * 2 ^ 216"
  by (simp add: target_of_def SetCompact_def Let_def)

lemma bits_0: "bits 0 = 0"
  by (subst bits.simps) simp

lemma bits_numeral: "bits (numeral k) = Suc (bits (numeral k div 2))"
  by (subst bits.simps) simp

lemma bits_1: "bits (Suc 0) = 1"
  by (subst bits.simps) (simp add: bits_0)

lemmas bits_eval = bits_0 bits_numeral bits_1




lemma of_uint64_small: "0 \<le> i \<Longrightarrow> i < 2 ^ 64 \<Longrightarrow> of_uint64 i = nat i"
  by (simp add: of_uint64_def)




lemma nova_loop_numeral:
  "nova_loop (numeral k) i None st = st"
  "nova_loop (numeral k) i (Some pindex) (avg, prv, ts, lst) =
     nova_loop (pred_numeral k) (Suc i) (pprev pindex)
       (if i = 0 then target_of (nBits pindex)
        else add256 (mul256 prv (of_uint32 (int i))) (target_of (nBits pindex))
               div of_uint64 (int i + 1),
        if i = 0 then target_of (nBits pindex)
        else add256 (mul256 prv (of_uint32 (int i))) (target_of (nBits pindex))
               div of_uint64 (int i + 1),
        if lst > 0 then ts + (lst - GetBlockTime pindex) else ts,
        GetBlockTime pindex)"
  by (simp_all add: numeral_eq_Suc Let_def)

lemma avg_step:
  assumes "j' = j + 1" "0 \<le> j" "j < 2 ^ 32" "T * nat j' < 2 ^ 256"
  shows "add256 (mul256 T (of_uint32 j)) T div of_uint64 j' = T"
proof -
  have a: "of_uint32 j = nat j" using assms by (simp add: of_uint32_def)
  have b: "of_uint64 j' = nat j + 1" using assms by (simp add: of_uint64_def nat_add_distrib)
  have c: "T * nat j + T = T * (nat j + 1)" by simp
  have d: "T * (nat j + 1) < 2 ^ 256" using assms by (simp add: nat_add_distrib)
  then have e: "T * nat j < 2 ^ 256" by (simp add: add_lessD1)
  show ?thesis
    unfolding add256_def mul256_def a b using d e c by (simp del: mult_Suc_right)
qed


lemma GetCompact_limit: "GetCompact (2 ^ 236 - 1) = 0x1e0fffff"
  by (simp add: GetCompact_def Let_def bits_eval)

lemma GetCompact_tripled: "GetCompact (0x2ffffd * 2 ^ 216) = 0x1e2ffffd"
  by (simp add: GetCompact_def Let_def bits_eval)

lemma target_tripled: "target_of 0x1e2ffffd = 0x2ffffd * 2 ^ 216"
  by (simp add: target_of_def SetCompact_def Let_def)

subsection \<open>LWMA3 and the retarget below the DGW3-Nova fork\<close>





























subsection \<open>DGW3-Nova and the proof-of-work limit\<close>

lemma nova_loop_slow:
  "nova_loop 24 0 (Some slow_tip) (0, 0, 0, 0)
     = (0xfffff * 2 ^ 216, 0xfffff * 2 ^ 216, 22060, 1700046000)"
  by (simp add: nova_loop_numeral chain_eval slow_tip_def target_limit GetBlockTime_def avg_step)

lemma slow_tip_sel:
  "nHeight slow_tip = 69" "GetBlockTime slow_tip = 1700068060"
  "\<exists>p. pprev slow_tip = Some p \<and> GetBlockTime p = 1700068000"
  by (simp_all add: slow_tip_def chain_upto_numeral GetBlockTime_def)

lemma nova_slow: "DarkGravityWave3Nova slow_tip main_params = Inr 0x1e2ffffd"
proof -
  obtain p where p: "pprev slow_tip = Some p" "GetBlockTime p = 1700068000"
    using slow_tip_sel(3) by blast
  show ?thesis
    by (simp add: DarkGravityWave3Nova_def Let_def nova_loop_slow p slow_tip_sel(1,2)
        main_params_def bindE_def decayFactor_of_def of_uint32_def of_uint64_def mul256_def
        signed_divide_int_def GetCompact_tripled [simplified])
qed

text \<open>
  C2: wherever DGW3-Nova is active, the target it returns is at most the active
  proof-of-work limit.  The code does write the cap, but under the guard
  \<open>nextHeight <= 1\<close>, which no height past the window of 12 or 24 blocks satisfies, so
  the cap never applies there; \<open>CalculateNextWorkRequired\<close> caps without a guard.  On
  seventy blocks at the memory-hard limit, a thousand seconds apart but for the last,
  DGW3-Nova is active at the next height 70 and returns \<open>0x1e2ffffd\<close>, a target three
  times the one of the window and above the limit \<open>2^236 - 1\<close>.
\<close>

theorem nova_past_window_above_limit:
  "nextDifficultyFork2Height main_params \<le> nHeight slow_tip + 1
   \<and> yespowerForkHeight main_params \<le> nHeight slow_tip + 1
   \<and> DarkGravityWave3Nova slow_tip main_params = Inr 0x1e2ffffd
   \<and> GetNextWorkRequired slow_tip some_header main_params = Inr 0x1e2ffffd
   \<and> target_of 0x1e2ffffd > powLimitYespower main_params"
proof -
  have "nextDifficultyFork2Height main_params \<le> nHeight slow_tip + 1"
    "yespowerForkHeight main_params \<le> nHeight slow_tip + 1"
    "target_of 0x1e2ffffd > powLimitYespower main_params"
    by (simp_all add: slow_tip_sel main_params_def target_tripled)
  then show ?thesis
    by (simp add: GetNextWorkRequired_def nova_slow)
qed

subsection \<open>Verification of a block's proof of work\<close>

text \<open>The checks that the code does make.  Below the yespower fork a target above
  \<open>powLimit\<close> is rejected; at any height from 2 a negative, zero or overflowed target is
  rejected, unless on the memory-hard path the hash handed in is the genesis hash.\<close>

lemma sha_path_rejects_above_limit:
  assumes "nHeight' \<noteq> 0" "nHeight' < yespowerForkHeight params"
    and "target_of nBits' > powLimit params"
  shows "\<not> CheckProofOfWork hs hash blockHeader nBits' params nHeight'"
  using assms by (auto simp: CheckProofOfWork_def target_of_def split: prod.splits)

lemma bad_nBits_rejected:
  assumes "nHeight' \<ge> 2" "snd (SetCompact nBits') \<noteq> (False, False) \<or> target_of nBits' = 0"
    and "nHeight' \<ge> yespowerForkHeight params \<longrightarrow> hash \<noteq> hashGenesisBlock params"
  shows "\<not> CheckProofOfWork hs hash blockHeader nBits' params nHeight'"
  using assms
  by (auto simp: CheckProofOfWork_def CheckProofOfWorkWithHeight_def target_of_def
      split: prod.splits)

lemma SetCompact_1f00ffff: "SetCompact 0x1f00ffff = (0xffff * 2 ^ 224, False, False)"
  by (simp add: SetCompact_def Let_def)

text \<open>
  C3: at height 2 and above, verification rejects a block whose decoded target is above the
  active proof-of-work limit, on the memory-hard path as on the SHA-256 path.  The
  memory-hard path (\<open>CheckProofOfWorkWithHeight\<close>) never compares the target with a
  limit.  At height 1000, past the yespower fork, \<open>nBits = 0x1f00ffff\<close> decodes to a
  target above \<open>powLimitYespower\<close>, neither negative nor overflowed, and a header whose
  memory-hard hash is below that target is accepted.
\<close>

theorem yespower_path_accepts_target_above_limit:
  "(1000::int) \<ge> 2 \<and> 1000 \<ge> yespowerForkHeight main_params
   \<and> SetCompact 0x1f00ffff = (0xffff * 2 ^ 224, False, False)
   \<and> target_of 0x1f00ffff > powLimitYespower main_params
   \<and> CheckProofOfWork easy_hashers 0x5555 some_header 0x1f00ffff main_params 1000"
  by (simp add: CheckProofOfWork_def CheckProofOfWorkWithHeight_def CheckYespower_def
      target_of_def SetCompact_1f00ffff main_params_def easy_hashers_def)

section \<open>Properties of the serialisation of token operations\<close>

lemma le_val_le_bytes: "le_val (le_bytes k v) = v mod 256 ^ k"
proof (induction k arbitrary: v)
  case 0
  then show ?case by simp
next
  case (Suc k)
  have "v mod 256 + 256 * (v div 256 mod 256 ^ k) = v mod (256 * 256 ^ k)"
    by (simp add: mod_mult2_eq)
  with Suc show ?case by simp
qed

lemma read_le_bytes: "read_bytes k (le_bytes k v @ r) = Some (le_bytes k v, r)"
  by (simp add: read_bytes_def)

lemma read_marker: "read_bytes (Suc 0) (c # r) = Some ([c], r)"
  by (simp add: read_bytes_def)

lemma ReadCompactSize_Write:
  assumes "n \<le> MAX_SIZE"
  shows "ReadCompactSize (WriteCompactSize n @ r) = Some (n, r)"
proof -
  consider "n < 253" | "253 \<le> n" "n \<le> 0xFFFF" | "0xFFFF < n" "n \<le> 0x02000000"
    using assms by (fastforce simp: MAX_SIZE_def)
  then show ?thesis
  proof cases
    case 1
    then show ?thesis
      using read_le_bytes [of 1 n r]
      by (simp add: ReadCompactSize_def WriteCompactSize_def bindR_def returnR_def
          le_val_le_bytes MAX_SIZE_def Let_def)
  next
    case 2
    then show ?thesis
      using read_le_bytes [of 2 n r]
      by (simp add: ReadCompactSize_def WriteCompactSize_def bindR_def returnR_def
          read_marker le_val_le_bytes MAX_SIZE_def Let_def)
  next
    case 3
    then show ?thesis
      using read_le_bytes [of 4 n r]
      by (simp add: ReadCompactSize_def WriteCompactSize_def bindR_def returnR_def
          read_marker le_val_le_bytes MAX_SIZE_def Let_def)
  qed
qed

lemma unser_ser_string:
  assumes "length s \<le> MAX_SIZE"
  shows "unser_string (ser_string s @ r) = Some (s, r)"
  using ReadCompactSize_Write [OF assms, of "s @ r"]
  by (simp add: unser_string_def ser_string_def bindR_def read_bytes_def)

lemma unser_ser_uint8: "unser_uint8 (ser_uint8 v @ r) = Some (v, r)"
proof -
  have "unat v mod 256 = unat v" using unsigned_less [of v, where ?'a = nat] by simp
  then show ?thesis
    using read_le_bytes [of 1 "unat v" r]
    by (simp add: unser_uint8_def ser_uint8_def bindR_def returnR_def le_val_le_bytes)
qed

lemma unser_ser_int64: "unser_int64 (ser_int64 v @ r) = Some (v, r)"
proof -
  have "unat v mod 256 ^ 8 = unat v" using unsigned_less [of v, where ?'a = nat] by simp
  then show ?thesis
    using read_le_bytes [of 8 "unat v" r]
    by (simp add: unser_int64_def ser_int64_def bindR_def returnR_def le_val_le_bytes)
qed


lemma unser_ser_fields:
  assumes "length (op_from op) \<le> MAX_SIZE" "length (op_to op) \<le> MAX_SIZE"
    "length (op_spender op) \<le> MAX_SIZE" "length (op_token op) \<le> MAX_SIZE"
    "length (op_name op) \<le> MAX_SIZE" "length (op_symbol op) \<le> MAX_SIZE"
    "length (op_signer op) \<le> MAX_SIZE" "length (op_signature op) \<le> MAX_SIZE"
  shows "unser_fields obj (ser_fields op @ r) =
     Some (obj\<lparr> op_kind := op_kind op, op_from := op_from op, op_to := op_to op,
                op_spender := op_spender op, op_token := op_token op, op_amount := op_amount op,
                op_name := op_name op, op_symbol := op_symbol op, op_decimals := op_decimals op,
                op_timestamp := op_timestamp op, op_signer := op_signer op,
                op_signature := op_signature op \<rparr>, r)"
  using assms
  by (simp add: unser_fields_def ser_fields_def bindR_def returnR_def unser_ser_uint8
      unser_ser_int64 unser_ser_string)

lemma default_filled:
  "TokenOperation_default\<lparr> op_kind := op_kind op, op_from := op_from op, op_to := op_to op,
       op_spender := op_spender op, op_token := op_token op, op_amount := op_amount op,
       op_name := op_name op, op_symbol := op_symbol op, op_decimals := op_decimals op,
       op_timestamp := op_timestamp op, op_signer := op_signer op,
       op_signature := op_signature op, op_memo := m \<rparr>
     = op\<lparr> op_wallet_name := [], op_memo := m \<rparr>"
  by (cases op) (simp add: TokenOperation_default_def)

lemma strings_within_MAX_SIZE_D:
  assumes "strings_within_MAX_SIZE op"
  shows "length (op_from op) \<le> MAX_SIZE" "length (op_to op) \<le> MAX_SIZE"
    "length (op_spender op) \<le> MAX_SIZE" "length (op_token op) \<le> MAX_SIZE"
    "length (op_name op) \<le> MAX_SIZE" "length (op_symbol op) \<le> MAX_SIZE"
    "length (op_signer op) \<le> MAX_SIZE" "length (op_signature op) \<le> MAX_SIZE"
    "length (op_memo op) \<le> MAX_SIZE"
  using assms by (simp_all add: strings_within_MAX_SIZE_def)

lemma Unserialize_Serialize:
  assumes "strings_within_MAX_SIZE op"
  shows "Unserialize TokenOperation_default (Serialize op @ r)
           = Some (op\<lparr> op_wallet_name := [] \<rparr>, r)"
proof -
  note f = unser_ser_fields [OF strings_within_MAX_SIZE_D(1-8) [OF assms]]
  note m = strings_within_MAX_SIZE_D(9) [OF assms]
  have e: "op\<lparr> op_wallet_name := [], op_memo := op_memo op \<rparr> = op\<lparr> op_wallet_name := [] \<rparr>"
    by simp
  show ?thesis
  proof (cases "op_memo op = []")
    case True
    have "op\<lparr> op_wallet_name := [], op_memo := [] \<rparr> = op\<lparr> op_wallet_name := [] \<rparr>"
      using True e by simp
    with True show ?thesis
      using unser_ser_uint8 [of 0 r]
      by (simp add: Unserialize_def Serialize_def bindR_def returnR_def f default_filled)
  next
    case False
    then show ?thesis
      using unser_ser_uint8 [of 1 "ser_string (op_memo op) @ r"] unser_ser_string [OF m, of r]
      by (simp add: Unserialize_def Serialize_def bindR_def returnR_def f default_filled e)
  qed
qed

lemma Serialize_not_empty: "Serialize op \<noteq> []"
  by (simp add: Serialize_def ser_fields_def ser_uint8_def)

lemma ser_fields_not_empty: "ser_fields op \<noteq> []"
  by (simp add: ser_fields_def ser_uint8_def)

lemma DecodeTokenOp_script:
  "payload \<noteq> [] \<Longrightarrow> DecodeTokenOp (op_return_script payload) = DecodeTokenOp_data payload"
  by (simp add: DecodeTokenOp_def op_return_script_def push_op_def OP_RETURN_def
      OP_PUSHDATA1_def OP_PUSHDATA2_def OP_PUSHDATA4_def)

lemma Decode_current:
  assumes "strings_within_MAX_SIZE op"
  shows "DecodeTokenOp (op_return_script (Serialize op)) = Some (op\<lparr> op_wallet_name := [] \<rparr>)"
  using Unserialize_Serialize [OF assms, of "[]"]
  by (simp add: DecodeTokenOp_script Serialize_not_empty DecodeTokenOp_data_def)

lemma Decode_legacy_no_memo:
  assumes "strings_within_MAX_SIZE op" "op_memo op = []"
  shows "DecodeTokenOp (op_return_script (Serialize_legacy op))
           = Some (op\<lparr> op_wallet_name := [] \<rparr>)"
proof -
  note f = unser_ser_fields [OF strings_within_MAX_SIZE_D(1-8) [OF assms(1)], of _ "[]"]
  have l: "Serialize_legacy op = ser_fields op" using assms(2) by (simp add: Serialize_legacy_def)
  have u: "Unserialize TokenOperation_default (ser_fields op) = None"
    using f by (simp add: Unserialize_def bindR_def unser_uint8_def read_bytes_def)
  have e: "op\<lparr> op_wallet_name := [], op_memo := [] \<rparr> = op\<lparr> op_wallet_name := [] \<rparr>"
    using assms(2) by simp
  show ?thesis
    using f by (simp add: l DecodeTokenOp_script ser_fields_not_empty DecodeTokenOp_data_def u
        default_filled e)
qed

lemma Serialize_wallet_name: "Serialize (op\<lparr> op_wallet_name := w \<rparr>) = Serialize op"
  by (simp add: Serialize_def ser_fields_def)

lemma TokenOperationHash_wallet_name:
  "TokenOperationHash node (op\<lparr> op_wallet_name := w \<rparr>) = TokenOperationHash node op"
proof -
  have "Serialize (op\<lparr> op_wallet_name := w, op_signature := [], op_signer := [] \<rparr>)
          = Serialize (op\<lparr> op_signature := [], op_signer := [] \<rparr>)"
    by (simp add: Serialize_def ser_fields_def)
  then show ?thesis
    by (simp add: TokenOperationHash_def SerializeHash_def Let_def)
qed

text \<open>
  C9, amended to what the code does: for every TokenOperation whose strings are no longer
  than \<open>MAX_SIZE\<close>, serialising it in the current memo-flag format and decoding the
  payload yields the operation in every serialised field (\<open>wallet_name\<close> is not
  serialised and comes back empty); for a payload in the legacy format without the memo
  flag the same holds provided the memo is empty; and provided the memo is empty the
  operation hash (signer and signature blanked) is the same through the current and the
  legacy form, and is the hash of the operation itself.
\<close>

theorem token_op_round_trip:
  assumes "strings_within_MAX_SIZE op"
  shows "DecodeTokenOp (op_return_script (Serialize op)) = Some (op\<lparr> op_wallet_name := [] \<rparr>)
       \<and> (op_memo op = [] \<longrightarrow>
            DecodeTokenOp (op_return_script (Serialize_legacy op))
              = Some (op\<lparr> op_wallet_name := [] \<rparr>)
            \<and> map_option (TokenOperationHash node) (DecodeTokenOp (op_return_script (Serialize op)))
              = map_option (TokenOperationHash node)
                  (DecodeTokenOp (op_return_script (Serialize_legacy op)))
            \<and> map_option (TokenOperationHash node) (DecodeTokenOp (op_return_script (Serialize op)))
              = Some (TokenOperationHash node op))"
  using Decode_current [OF assms] Decode_legacy_no_memo [OF assms]
  by (simp add: TokenOperationHash_wallet_name)


lemma memo_transfer_strings: "strings_within_MAX_SIZE memo_transfer"
  by (simp add: strings_within_MAX_SIZE_def memo_transfer_def TokenOperation_default_def
      MAX_SIZE_def length_tokT)

lemma plain_transfer_strings: "strings_within_MAX_SIZE plain_transfer"
  by (simp add: strings_within_MAX_SIZE_def plain_transfer_def memo_transfer_def
      TokenOperation_default_def MAX_SIZE_def length_tokT)

text \<open>
  C9, as the specification states it: for every TokenOperation, serialising and then
  deserialising it, in the current format and likewise in the legacy format without the
  memo flag, yields an identical operation.  \<open>DecodeTokenOp\<close> tries the current
  format first and does not check that the payload is used up, so a legacy payload whose
  memo begins with a suitable byte passes as a current one: the first byte of the memo's
  length prefix is read as the flag, and the memo's own first character as the length of
  the memo.  A transfer with the 34-character memo
  \<open>!invoice 7731 settled, thank you!!\<close> comes back from its legacy payload with the
  memo \<open>invoice 7731 settled, thank you!!\<close>.
\<close>

theorem legacy_memo_counterexample:
  "strings_within_MAX_SIZE memo_transfer
   \<and> op_memo memo_transfer = ''!invoice 7731 settled, thank you!!''
   \<and> DecodeTokenOp (op_return_script (Serialize_legacy memo_transfer))
       = Some (memo_transfer\<lparr> op_memo := ''invoice 7731 settled, thank you!!'' \<rparr>)
   \<and> DecodeTokenOp (op_return_script (Serialize_legacy memo_transfer)) \<noteq> Some memo_transfer"
proof -
  note f = unser_ser_fields [OF strings_within_MAX_SIZE_D(1-8) [OF memo_transfer_strings]]
  have m: "op_memo memo_transfer = ''!invoice 7731 settled, thank you!!''"
    by (simp add: memo_transfer_def)
  have l: "Serialize_legacy memo_transfer
      = ser_fields memo_transfer @ ser_string ''!invoice 7731 settled, thank you!!''"
    by (simp add: Serialize_legacy_def m)
  have t: "bindR unser_uint8 (\<lambda>hasMemo.
       if hasMemo \<noteq> 0 then bindR unser_string (\<lambda>memo. returnR (obj\<lparr> op_memo := memo \<rparr>))
       else returnR (obj\<lparr> op_memo := [] \<rparr>)) (ser_string ''!invoice 7731 settled, thank you!!'')
     = Some (obj\<lparr> op_memo := ''invoice 7731 settled, thank you!!'' \<rparr>, [])" for obj
    by (simp add: unser_uint8_def unser_string_def ReadCompactSize_def read_bytes_def bindR_def
        returnR_def Let_def ser_string_def WriteCompactSize_def MAX_SIZE_def)
  have u: "Unserialize TokenOperation_default (Serialize_legacy memo_transfer)
      = Some (memo_transfer\<lparr> op_memo := ''invoice 7731 settled, thank you!!'' \<rparr>, [])"
    unfolding l Unserialize_def
    by (subst bindR_def) (simp add: f t default_filled, simp add: memo_transfer_def TokenOperation_default_def)
  have d: "DecodeTokenOp (op_return_script (Serialize_legacy memo_transfer))
       = Some (memo_transfer\<lparr> op_memo := ''invoice 7731 settled, thank you!!'' \<rparr>)"
    by (simp add: DecodeTokenOp_script l ser_fields_not_empty DecodeTokenOp_data_def u [unfolded l])
  have "memo_transfer\<lparr> op_memo := ''invoice 7731 settled, thank you!!'' \<rparr> \<noteq> memo_transfer"
  proof
    assume "memo_transfer\<lparr> op_memo := ''invoice 7731 settled, thank you!!'' \<rparr> = memo_transfer"
    then have "op_memo (memo_transfer\<lparr> op_memo := ''invoice 7731 settled, thank you!!'' \<rparr>)
                 = op_memo memo_transfer" by simp
    then show False by (simp add: m)
  qed
  with memo_transfer_strings m d show ?thesis by simp
qed

theorem token_op_round_trip_witness:
  "strings_within_MAX_SIZE plain_transfer \<and> op_memo plain_transfer = []
   \<and> op_wallet_name plain_transfer = ''w1''
   \<and> DecodeTokenOp (op_return_script (Serialize plain_transfer))
       = Some (plain_transfer\<lparr> op_wallet_name := [] \<rparr>)
   \<and> DecodeTokenOp (op_return_script (Serialize_legacy plain_transfer))
       = Some (plain_transfer\<lparr> op_wallet_name := [] \<rparr>)
   \<and> map_option (TokenOperationHash test_node)
         (DecodeTokenOp (op_return_script (Serialize plain_transfer)))
       = map_option (TokenOperationHash test_node)
           (DecodeTokenOp (op_return_script (Serialize_legacy plain_transfer)))
   \<and> map_option (TokenOperationHash test_node)
         (DecodeTokenOp (op_return_script (Serialize plain_transfer)))
       = Some (TokenOperationHash test_node plain_transfer)"
proof -
  have m: "op_memo plain_transfer = []" "op_wallet_name plain_transfer = ''w1''"
    by (simp_all add: plain_transfer_def)
  show ?thesis
    using token_op_round_trip [OF plain_transfer_strings, of test_node] plain_transfer_strings m
    by (simp add: TokenOperationHash_wallet_name)
qed

section \<open>Package selection stays within the limits\<close>

lemma consistentD:
  assumes "mempool_consistent mempool" and "t \<in> pool mempool"
  shows "finite (CalculateMemPoolAncestors mempool t)"
    and "finite (CalculateDescendants mempool t)"
    and "CalculateMemPoolAncestors mempool t \<subseteq> pool mempool"
    and "CalculateDescendants mempool t \<subseteq> pool mempool"
    and "t \<notin> CalculateMemPoolAncestors mempool t"
    and "nTxWeight (entry mempool t) \<le> 4 * nTxSize (entry mempool t)"
    and "0 \<le> sigOpCost (entry mempool t)"
    and "nSizeWithAncestors (entry mempool t)
           = package_size mempool (insert t (CalculateMemPoolAncestors mempool t))"
    and "nSigOpCostWithAncestors (entry mempool t)
           = package_sigops mempool (insert t (CalculateMemPoolAncestors mempool t))"
    and "nSizeWithAncestors (entry mempool t) < 2 ^ 61"
    and "nSigOpCostWithAncestors (entry mempool t) < 2 ^ 63"
  using assms unfolding mempool_consistent_def WITNESS_SCALE_FACTOR_def by blast+

lemma ancestors_closed:
  assumes "mempool_consistent mempool" and "t \<in> pool mempool"
    and "a \<in> CalculateMemPoolAncestors mempool t"
  shows "CalculateMemPoolAncestors mempool a \<subseteq> CalculateMemPoolAncestors mempool t"
  using assms unfolding mempool_consistent_def by blast

lemma descendants_mirror:
  assumes "mempool_consistent mempool" and "t \<in> pool mempool" and "d \<in> pool mempool"
  shows "d \<in> CalculateDescendants mempool t
           \<longleftrightarrow> d = t \<or> t \<in> CalculateMemPoolAncestors mempool d"
  using assms unfolding mempool_consistent_def by blast

lemma finite_remaining:
  assumes "mempool_consistent mempool" and "d \<in> pool mempool"
  shows "finite (remaining mempool B d)"
  using consistentD(1) [OF assms] by (simp add: remaining_def)

lemma remaining_pool:
  assumes "mempool_consistent mempool" and "d \<in> pool mempool"
  shows "remaining mempool B d \<subseteq> pool mempool"
  using consistentD(3) [OF assms] assms(2) by (auto simp: remaining_def)

lemma package_sigops_nonneg:
  assumes "mempool_consistent mempool" and "S \<subseteq> pool mempool"
  shows "0 \<le> package_sigops mempool S"
  unfolding package_sigops_def
  by (rule sum_nonneg) (use assms consistentD(7) in blast)

lemma package_size_mono:
  assumes "finite T" and "S \<subseteq> T"
  shows "package_size mempool S \<le> package_size mempool T"
  unfolding package_size_def using assms by (rule sum_mono2) simp

lemma package_sigops_mono:
  assumes "mempool_consistent mempool" and "finite T" and "S \<subseteq> T" and "T \<subseteq> pool mempool"
  shows "package_sigops mempool S \<le> package_sigops mempool T"
  unfolding package_sigops_def
proof (rule sum_mono2 [OF assms(2,3)])
  fix b assume "b \<in> T - S"
  then have "b \<in> pool mempool" using assms(4) by blast
  then show "0 \<le> sigOpCost (entry mempool b)" by (rule consistentD(7) [OF assms(1)])
qed

lemma covers_ModifiedEntry:
  assumes c: "mempool_consistent mempool" and d: "d \<in> pool mempool"
  shows "covers mempool B (ModifiedEntry mempool d)"
proof -
  let ?T = "insert d (CalculateMemPoolAncestors mempool d)"
  have fin: "finite ?T" using consistentD(1) [OF c d] by simp
  have sub: "remaining mempool B d \<subseteq> ?T" by (auto simp: remaining_def)
  have pl: "?T \<subseteq> pool mempool" using consistentD(3) [OF c d] d by simp
  have "package_size mempool (remaining mempool B d) \<le> nSizeWithAncestors (entry mempool d)"
    unfolding consistentD(8) [OF c d] by (rule package_size_mono [OF fin sub])
  moreover have "package_sigops mempool (remaining mempool B d)
                   \<le> nSigOpCostWithAncestors (entry mempool d)"
    unfolding consistentD(9) [OF c d] by (rule package_sigops_mono [OF c fin sub pl])
  ultimately show ?thesis using d by (simp add: covers_def ModifiedEntry_def)
qed

lemma remaining_insert:
  "remaining mempool (insert x B) d = remaining mempool B d - {x}"
  by (auto simp: remaining_def)

lemma package_size_remove:
  assumes "finite S" and "x \<in> S"
  shows "package_size mempool (S - {x}) + nTxSize (entry mempool x) = package_size mempool S"
  unfolding package_size_def using assms by (simp add: sum.remove)

lemma package_sigops_remove:
  assumes "finite S" and "x \<in> S"
  shows "package_sigops mempool (S - {x}) + sigOpCost (entry mempool x) = package_sigops mempool S"
  unfolding package_sigops_def using assms by (simp add: sum.remove)

lemma covers_update:
  assumes c: "mempool_consistent mempool"
    and m: "covers mempool B m"
    and x: "x \<in> remaining mempool B (iter m)"
  shows "covers mempool (insert x B) (update_for_parent_inclusion (entry mempool x) m)"
proof -
  let ?d = "iter m"
  let ?R = "remaining mempool B ?d"
  have d: "?d \<in> pool mempool" using m by (simp add: covers_def)
  have fin: "finite ?R" by (rule finite_remaining [OF c d])
  have xp: "x \<in> pool mempool" using remaining_pool [OF c d] x by blast
  have s1: "package_size mempool (?R - {x}) + nTxSize (entry mempool x) \<le> mod_nSizeWithAncestors m"
    using m package_size_remove [OF fin x, of mempool] by (simp add: covers_def)
  have s2: "mod_nSizeWithAncestors m < 2 ^ 61"
    using m consistentD(10) [OF c d] by (simp add: covers_def)
  have g1: "package_sigops mempool (?R - {x}) + sigOpCost (entry mempool x)
              \<le> mod_nSigOpCostWithAncestors m"
    using m package_sigops_remove [OF fin x, of mempool] by (simp add: covers_def)
  have g2: "mod_nSigOpCostWithAncestors m \<le> nSigOpCostWithAncestors (entry mempool ?d)"
    using m by (simp add: covers_def)
  have nn: "0 \<le> sigOpCost (entry mempool x)" by (rule consistentD(7) [OF c xp])
  have le: "nTxSize (entry mempool x) \<le> mod_nSizeWithAncestors m" using s1 by simp
  have "int (mod_nSizeWithAncestors m) - int (nTxSize (entry mempool x)) < 2 ^ 64"
    using s2 by simp
  with le have wrap: "nat ((int (mod_nSizeWithAncestors m) - int (nTxSize (entry mempool x))) mod 2 ^ 64)
      = mod_nSizeWithAncestors m - nTxSize (entry mempool x)"
    by (simp add: nat_diff_distrib')
  define u where "u = update_for_parent_inclusion (entry mempool x) m"
  have u1: "iter u = ?d"
    and u3: "mod_nSigOpCostWithAncestors u = mod_nSigOpCostWithAncestors m - sigOpCost (entry mempool x)"
    by (simp_all add: u_def update_for_parent_inclusion_def)
  have u2: "mod_nSizeWithAncestors u = mod_nSizeWithAncestors m - nTxSize (entry mempool x)"
    unfolding u_def update_for_parent_inclusion_def using wrap by simp
  have m2: "mod_nSizeWithAncestors m \<le> nSizeWithAncestors (entry mempool ?d)"
    using m by (simp add: covers_def)
  have "covers mempool (insert x B) u"
    unfolding covers_def remaining_insert u1 u2 u3
    using d s1 g1 g2 nn m2 by linarith
  then show ?thesis by (simp add: u_def)
qed

lemma covers_unrelated:
  assumes "covers mempool B m"
    and "x \<notin> insert (iter m) (CalculateMemPoolAncestors mempool (iter m))"
  shows "covers mempool (insert x B) m"
proof -
  have "remaining mempool (insert x B) (iter m) = remaining mempool B (iter m)"
    using assms(2) by (auto simp: remaining_def)
  then show ?thesis using assms(1) by (simp add: covers_def)
qed

lemma update_descendant_step:
  assumes c: "mempool_consistent mempool"
    and xB: "x \<notin> B"
    and d: "d \<in> pool mempool" "d \<notin> A \<longrightarrow> d \<notin> F \<and> x \<in> CalculateMemPoolAncestors mempool d"
    and dH: "d \<notin> H"
    and M: "\<forall>m \<in> set M. iter m \<notin> A \<and> iter m \<notin> F
              \<and> (if iter m \<in> H then covers mempool (insert x B) m else covers mempool B m)"
  shows "\<forall>m \<in> set (snd (update_descendant mempool A x d (n, M))). iter m \<notin> A \<and> iter m \<notin> F
              \<and> (if iter m \<in> insert d H then covers mempool (insert x B) m
                  else covers mempool B m)"
proof (cases "d \<in> A")
  case True
  then have "update_descendant mempool A x d (n, M) = (n, M)"
    by (simp add: update_descendant_def)
  moreover have "\<forall>m \<in> set M. iter m \<noteq> d" using M True by blast
  ultimately show ?thesis using M by auto
next
  case False
  then have dF: "d \<notin> F" and xd: "x \<in> CalculateMemPoolAncestors mempool d" using d(2) by blast+
  have xr: "x \<in> remaining mempool B d" using xd xB by (simp add: remaining_def)
  let ?upd = "update_for_parent_inclusion (entry mempool x)"
  have it: "\<And>m. iter (?upd m) = iter m" by (simp add: update_for_parent_inclusion_def)
  show ?thesis
  proof (cases "d \<in> iter ` set M")
    case new: False
    have eq: "snd (update_descendant mempool A x d (n, M)) = M @ [?upd (ModifiedEntry mempool d)]"
      using False new by (simp add: update_descendant_def)
    have id: "iter (ModifiedEntry mempool d) = d" by (simp add: ModifiedEntry_def)
    have "covers mempool (insert x B) (?upd (ModifiedEntry mempool d))"
      by (rule covers_update [OF c covers_ModifiedEntry [OF c d(1)]]) (simp add: id xr)
    moreover have "\<forall>m \<in> set M. iter m \<noteq> d" using new by blast
    ultimately show ?thesis unfolding eq using M False dF by (auto simp: it id)
  next
    case old: True
    have eq: "snd (update_descendant mempool A x d (n, M))
                = map (\<lambda>m. if iter m = d then ?upd m else m) M"
      using False old by (simp add: update_descendant_def)
    show ?thesis unfolding eq
    proof
      fix m' assume "m' \<in> set (map (\<lambda>m. if iter m = d then ?upd m else m) M)"
      then obtain m where m: "m \<in> set M" and m': "m' = (if iter m = d then ?upd m else m)"
        by auto
      have Mm: "iter m \<notin> A \<and> iter m \<notin> F
              \<and> (if iter m \<in> H then covers mempool (insert x B) m else covers mempool B m)"
        using M m by blast
      show "iter m' \<notin> A \<and> iter m' \<notin> F
              \<and> (if iter m' \<in> insert d H then covers mempool (insert x B) m'
                  else covers mempool B m')"
      proof (cases "iter m = d")
        case True
        then have "covers mempool B m" using Mm dH by simp
        then have "covers mempool (insert x B) (?upd m)"
          by (rule covers_update [OF c]) (simp add: True xr)
        then show ?thesis using Mm True m' by (simp add: it)
      next
        case False
        then show ?thesis using Mm m' by simp
      qed
    qed
  qed
qed

lemma update_descendant_fold:
  assumes c: "mempool_consistent mempool"
    and xB: "x \<notin> B"
    and ds: "distinct ds" "set ds \<subseteq> pool mempool"
      "\<forall>d \<in> set ds. d \<notin> A \<longrightarrow> d \<notin> F \<and> x \<in> CalculateMemPoolAncestors mempool d"
    and M: "\<forall>m \<in> set M. iter m \<notin> A \<and> iter m \<notin> F \<and> covers mempool B m"
  shows "\<forall>m \<in> set (snd (fold (update_descendant mempool A x) ds (n, M))).
           iter m \<notin> A \<and> iter m \<notin> F
           \<and> (if iter m \<in> set ds then covers mempool (insert x B) m else covers mempool B m)"
  using ds
proof (induction ds rule: rev_induct)
  case Nil
  then show ?case using M by simp
next
  case (snoc d ds)
  obtain n' M' where f: "fold (update_descendant mempool A x) ds (n, M) = (n', M')"
    by (cases "fold (update_descendant mempool A x) ds (n, M)")
  have IH: "\<forall>m \<in> set M'. iter m \<notin> A \<and> iter m \<notin> F
           \<and> (if iter m \<in> set ds then covers mempool (insert x B) m else covers mempool B m)"
    using snoc f by simp
  have "\<forall>m \<in> set (snd (update_descendant mempool A x d (n', M'))). iter m \<notin> A \<and> iter m \<notin> F
              \<and> (if iter m \<in> insert d (set ds) then covers mempool (insert x B) m
                  else covers mempool B m)"
    by (rule update_descendant_step [OF c xB _ _ _ IH]) (use snoc.prems in auto)
  then show ?case by (simp add: f)
qed

lemma descendants_of_added:
  assumes c: "mempool_consistent mempool"
    and x: "x \<in> pool mempool" "x \<notin> B" "x \<in> A"
    and F: "\<forall>d \<in> CalculateDescendants mempool x. d \<notin> A \<longrightarrow> d \<notin> F"
    and M: "\<forall>m \<in> set M. iter m \<notin> A \<and> iter m \<notin> F \<and> covers mempool B m"
  shows "\<forall>m \<in> set (snd (fold (update_descendant mempool A x)
                            (sorted_list_of_set (CalculateDescendants mempool x)) (n, M))).
           iter m \<notin> A \<and> iter m \<notin> F \<and> covers mempool (insert x B) m"
proof
  let ?D = "CalculateDescendants mempool x"
  let ?ds = "sorted_list_of_set ?D"
  fix m assume m: "m \<in> set (snd (fold (update_descendant mempool A x) ?ds (n, M)))"
  have fin: "finite ?D" by (rule consistentD(2) [OF c x(1)])
  have Dp: "?D \<subseteq> pool mempool" by (rule consistentD(4) [OF c x(1)])
  have set_ds: "set ?ds = ?D" using fin by simp
  have anc: "\<forall>d \<in> set ?ds. d \<notin> A \<longrightarrow> d \<notin> F \<and> x \<in> CalculateMemPoolAncestors mempool d"
  proof (intro ballI impI)
    fix d assume d: "d \<in> set ?ds" "d \<notin> A"
    then have dD: "d \<in> ?D" using set_ds by simp
    then have "d \<in> pool mempool" using Dp by blast
    then have "d = x \<or> x \<in> CalculateMemPoolAncestors mempool d"
      using descendants_mirror [OF c x(1)] dD by blast
    moreover have "d \<noteq> x" using d(2) x(3) by blast
    ultimately show "d \<notin> F \<and> x \<in> CalculateMemPoolAncestors mempool d" using F dD d(2) by blast
  qed
  have "\<forall>m \<in> set (snd (fold (update_descendant mempool A x) ?ds (n, M))).
           iter m \<notin> A \<and> iter m \<notin> F
           \<and> (if iter m \<in> set ?ds then covers mempool (insert x B) m else covers mempool B m)"
    by (rule update_descendant_fold [OF c x(2) _ _ anc M]) (use set_ds Dp in auto)
  then have r: "iter m \<notin> A" "iter m \<notin> F"
      "if iter m \<in> ?D then covers mempool (insert x B) m else covers mempool B m"
    using m set_ds by auto
  have "covers mempool (insert x B) m"
  proof (cases "iter m \<in> ?D")
    case True
    then show ?thesis using r(3) by simp
  next
    case False
    then have cv: "covers mempool B m" using r(3) by simp
    then have "iter m \<in> pool mempool" by (simp add: covers_def)
    then have "x \<notin> insert (iter m) (CalculateMemPoolAncestors mempool (iter m))"
      using descendants_mirror [OF c x(1)] False by blast
    then show ?thesis by (rule covers_unrelated [OF cv])
  qed
  then show "iter m \<notin> A \<and> iter m \<notin> F \<and> covers mempool (insert x B) m" using r by simp
qed

lemma added_fold:
  assumes c: "mempool_consistent mempool"
    and xs: "distinct xs" "set xs \<subseteq> A" "set xs \<subseteq> pool mempool" "set xs \<inter> B = {}"
    and F: "\<forall>x \<in> set xs. \<forall>d \<in> CalculateDescendants mempool x. d \<notin> A \<longrightarrow> d \<notin> F"
    and M: "\<forall>m \<in> set M. iter m \<notin> A \<and> iter m \<notin> F \<and> covers mempool B m"
  shows "\<forall>m \<in> set (snd (fold (\<lambda>it. fold (update_descendant mempool A it)
                                     (sorted_list_of_set (CalculateDescendants mempool it)))
                            xs (n, M))).
           iter m \<notin> A \<and> iter m \<notin> F \<and> covers mempool (B \<union> set xs) m"
  using xs F M
proof (induction xs arbitrary: B n M)
  case Nil
  then show ?case by simp
next
  case (Cons x xs)
  let ?f = "\<lambda>it. fold (update_descendant mempool A it)
                    (sorted_list_of_set (CalculateDescendants mempool it))"
  obtain n' M' where f: "?f x (n, M) = (n', M')" by (cases "?f x (n, M)")
  have M': "\<forall>m \<in> set M'. iter m \<notin> A \<and> iter m \<notin> F \<and> covers mempool (insert x B) m"
    using descendants_of_added [OF c _ _ _ _ Cons.prems(6), of x n] Cons.prems(1-5) f
    by auto
  have "\<forall>m \<in> set (snd (fold ?f xs (n', M'))).
           iter m \<notin> A \<and> iter m \<notin> F \<and> covers mempool (insert x B \<union> set xs) m"
    by (rule Cons.IH [OF _ _ _ _ _ M']) (use Cons.prems in auto)
  then show ?case by (simp add: f)
qed

lemma UpdatePackagesForAdded_covers:
  assumes c: "mempool_consistent mempool"
    and A: "finite A" "A \<subseteq> pool mempool" "A \<inter> B = {}"
    and F: "\<forall>x \<in> A. \<forall>d \<in> CalculateDescendants mempool x. d \<notin> A \<longrightarrow> d \<notin> F"
    and M: "\<forall>m \<in> set M. iter m \<notin> A \<and> iter m \<notin> F \<and> covers mempool B m"
  shows "\<forall>m \<in> set (snd (UpdatePackagesForAdded mempool A M)).
           iter m \<notin> A \<and> iter m \<notin> F \<and> covers mempool (B \<union> A) m"
proof -
  have s: "set (sorted_list_of_set A) = A" using A(1) by simp
  show ?thesis
    unfolding UpdatePackagesForAdded_def
    using added_fold [OF c _ _ _ _ _ M, of "sorted_list_of_set A" 0] A F
    by (simp add: s)
qed

lemma set_fold_erase_modified:
  "set (fold erase_modified xs M) = {m \<in> set M. iter m \<notin> set xs}"
  by (induction xs arbitrary: M) (auto simp: erase_modified_def)

lemma SortForBlock_set:
  assumes "finite S"
  shows "set (SortForBlock mempool S) = S" and "distinct (SortForBlock mempool S)"
  using assms by (simp_all add: SortForBlock_def)

lemma AddToBlock_fold_static:
  "nBlockMaxWeight (fold (\<lambda>e a. AddToBlock mempool a e) xs a) = nBlockMaxWeight a"
  "inBlock (fold (\<lambda>e a. AddToBlock mempool a e) xs a) = inBlock a \<union> set xs"
  by (induction xs arbitrary: a) (auto simp: AddToBlock_def)

lemma AddToBlock_fold_weight:
  assumes "nBlockWeight a + (\<Sum>x\<leftarrow>xs. nTxWeight (entry mempool x)) < 2 ^ 64"
  shows "nBlockWeight (fold (\<lambda>e a. AddToBlock mempool a e) xs a)
           = nBlockWeight a + (\<Sum>x\<leftarrow>xs. nTxWeight (entry mempool x))"
  using assms
proof (induction xs arbitrary: a)
  case Nil
  then show ?case by simp
next
  case (Cons x xs)
  have w: "nBlockWeight (AddToBlock mempool a x) = nBlockWeight a + nTxWeight (entry mempool x)"
    using Cons.prems by (simp add: AddToBlock_def)
  have "nBlockWeight (fold (\<lambda>e a. AddToBlock mempool a e) xs (AddToBlock mempool a x))
          = nBlockWeight (AddToBlock mempool a x) + (\<Sum>x\<leftarrow>xs. nTxWeight (entry mempool x))"
    by (rule Cons.IH) (use Cons.prems w in simp)
  then show ?case using w by simp
qed

lemma AddToBlock_fold_sigops:
  assumes "\<forall>x \<in> set xs. 0 \<le> sigOpCost (entry mempool x)"
    and "int (nBlockSigOpsCost a) + (\<Sum>x\<leftarrow>xs. sigOpCost (entry mempool x)) < 2 ^ 64"
  shows "int (nBlockSigOpsCost (fold (\<lambda>e a. AddToBlock mempool a e) xs a))
           = int (nBlockSigOpsCost a) + (\<Sum>x\<leftarrow>xs. sigOpCost (entry mempool x))"
  using assms
proof (induction xs arbitrary: a)
  case Nil
  then show ?case by simp
next
  case (Cons x xs)
  have nn: "0 \<le> sigOpCost (entry mempool x)" using Cons.prems(1) by simp
  have "0 \<le> (\<Sum>x\<leftarrow>xs. sigOpCost (entry mempool x))"
    by (rule sum_list_nonneg) (use Cons.prems(1) in auto)
  then have "int (nBlockSigOpsCost a) + sigOpCost (entry mempool x) < 2 ^ 64"
    using Cons.prems(2) by simp
  then have w: "int (nBlockSigOpsCost (AddToBlock mempool a x))
                  = int (nBlockSigOpsCost a) + sigOpCost (entry mempool x)"
    using nn by (simp add: AddToBlock_def)
  have "int (nBlockSigOpsCost (fold (\<lambda>e a. AddToBlock mempool a e) xs (AddToBlock mempool a x)))
          = int (nBlockSigOpsCost (AddToBlock mempool a x))
              + (\<Sum>x\<leftarrow>xs. sigOpCost (entry mempool x))"
    by (rule Cons.IH) (use Cons.prems w in simp_all)
  then show ?case using w by simp
qed

lemma package_weight_bound:
  assumes c: "mempool_consistent mempool" and "S \<subseteq> pool mempool"
  shows "(\<Sum>x \<in> S. nTxWeight (entry mempool x)) \<le> 4 * package_size mempool S"
proof -
  have "(\<Sum>x \<in> S. nTxWeight (entry mempool x)) \<le> (\<Sum>x \<in> S. 4 * nTxSize (entry mempool x))"
    by (rule sum_mono) (use assms consistentD(6) in blast)
  then show ?thesis by (simp add: package_size_def sum_distrib_left)
qed

lemma select_package_inv:
  assumes c: "mempool_consistent mempool"
    and lim: "limits_in_range limits"
    and inv: "selection_inv mempool limits st"
    and it: "it \<in> pool mempool" "it \<notin> inBlock (assembler st)"
    and A: "A = insert it (onlyUnconfirmed (assembler st) (CalculateMemPoolAncestors mempool it))"
    and w: "nBlockWeight (assembler st) + 4 * package_size mempool A
              < nBlockMaxWeight (assembler st)"
    and g: "int (nBlockSigOpsCost (assembler st)) + package_sigops mempool A
              < MAX_BLOCK_SIGOPS_COST limits"
  shows "selection_inv mempool limits (select_package mempool st A)"
proof -
  let ?a = "assembler st"
  let ?B = "inBlock ?a"
  let ?xs = "SortForBlock mempool A"
  let ?a' = "fold (\<lambda>e a. AddToBlock mempool a e) ?xs ?a"
  let ?M1 = "fold erase_modified ?xs (mapModifiedTx st)"
  obtain n M2 where U: "UpdatePackagesForAdded mempool A ?M1 = (n, M2)"
    by (cases "UpdatePackagesForAdded mempool A ?M1")
  have sp: "select_package mempool st A
              = st\<lparr> assembler := ?a', mapModifiedTx := M2, nConsecutiveFailed := 0,
                    nPackagesSelected := nPackagesSelected st + 1,
                    nDescendantsUpdated := nDescendantsUpdated st + n \<rparr>"
    by (simp add: select_package_def Let_def U)
  have Bp: "?B \<subseteq> pool mempool"
    and Bc: "\<forall>b \<in> ?B. CalculateMemPoolAncestors mempool b \<subseteq> ?B"
    and Wl: "nBlockWeight ?a \<le> nBlockMaxWeight ?a"
    and Mx: "nBlockMaxWeight ?a < 2 ^ 32"
    and mip: "set (mi st) \<subseteq> pool mempool"
    and Mc: "\<forall>m \<in> set (mapModifiedTx st). iter m \<notin> ?B \<and> covers mempool ?B m"
    using inv by (simp_all add: selection_inv_def within_limits_def)
  have Ar: "A = remaining mempool ?B it"
    using it(2) by (auto simp: A onlyUnconfirmed_def remaining_def)
  have Af: "finite A" unfolding Ar by (rule finite_remaining [OF c it(1)])
  have Ap: "A \<subseteq> pool mempool" unfolding Ar by (rule remaining_pool [OF c it(1)])
  have AB: "A \<inter> ?B = {}" by (auto simp: Ar remaining_def)
  have sx: "set ?xs = A" and dx: "distinct ?xs" using SortForBlock_set [OF Af] by simp_all
  have sumw: "(\<Sum>x\<leftarrow>?xs. nTxWeight (entry mempool x)) = (\<Sum>x \<in> A. nTxWeight (entry mempool x))"
    using sum_list_distinct_conv_sum_set [OF dx] sx by simp
  have wb: "(\<Sum>x \<in> A. nTxWeight (entry mempool x)) \<le> 4 * package_size mempool A"
    by (rule package_weight_bound [OF c Ap])
  have "nBlockWeight ?a + (\<Sum>x\<leftarrow>?xs. nTxWeight (entry mempool x)) < nBlockMaxWeight ?a"
    using sumw wb w by linarith
  moreover have "nBlockMaxWeight ?a < 2 ^ 64"
    by (rule less_trans [OF Mx]) simp
  ultimately have "nBlockWeight ?a + (\<Sum>x\<leftarrow>?xs. nTxWeight (entry mempool x)) < 2 ^ 64"
    and W': "nBlockWeight ?a + (\<Sum>x\<leftarrow>?xs. nTxWeight (entry mempool x)) \<le> nBlockMaxWeight ?a"
    by linarith+
  then have W: "nBlockWeight ?a' \<le> nBlockMaxWeight ?a'"
    using AddToBlock_fold_weight [of ?a mempool ?xs] by (simp add: AddToBlock_fold_static)
  have sumg: "(\<Sum>x\<leftarrow>?xs. sigOpCost (entry mempool x)) = package_sigops mempool A"
    using sum_list_distinct_conv_sum_set [OF dx] sx by (simp add: package_sigops_def)
  have nn: "\<forall>x \<in> set ?xs. 0 \<le> sigOpCost (entry mempool x)"
    using sx Ap consistentD(7) [OF c] by blast
  have "MAX_BLOCK_SIGOPS_COST limits < 2 ^ 64"
    using lim by (simp add: limits_in_range_def)
  then have "int (nBlockSigOpsCost ?a) + (\<Sum>x\<leftarrow>?xs. sigOpCost (entry mempool x)) < 2 ^ 64"
    using g sumg by linarith
  then have G: "int (nBlockSigOpsCost ?a') \<le> MAX_BLOCK_SIGOPS_COST limits"
    using AddToBlock_fold_sigops [OF nn] g sumg by simp
  have B': "inBlock ?a' = ?B \<union> A" by (simp add: AddToBlock_fold_static sx)
  have B'p: "?B \<union> A \<subseteq> pool mempool" using Bp Ap by simp
  have B'c: "\<forall>b \<in> ?B \<union> A. CalculateMemPoolAncestors mempool b \<subseteq> ?B \<union> A"
  proof
    fix b assume "b \<in> ?B \<union> A"
    then consider "b \<in> ?B" | "b = it" | "b \<in> CalculateMemPoolAncestors mempool it"
      by (auto simp: Ar remaining_def)
    then show "CalculateMemPoolAncestors mempool b \<subseteq> ?B \<union> A"
    proof cases
      case 1
      then show ?thesis using Bc by blast
    next
      case 2
      then show ?thesis by (auto simp: Ar remaining_def)
    next
      case 3
      then have "CalculateMemPoolAncestors mempool b \<subseteq> CalculateMemPoolAncestors mempool it"
        by (rule ancestors_closed [OF c it(1)])
      then show ?thesis by (auto simp: Ar remaining_def)
    qed
  qed
  have M1: "\<forall>m \<in> set ?M1. iter m \<notin> A \<and> iter m \<notin> ?B \<and> covers mempool ?B m"
    using Mc by (simp add: set_fold_erase_modified sx)
  have F: "\<forall>x \<in> A. \<forall>d \<in> CalculateDescendants mempool x. d \<notin> A \<longrightarrow> d \<notin> ?B"
  proof (intro ballI impI notI)
    fix x d assume x: "x \<in> A" and d: "d \<in> CalculateDescendants mempool x" "d \<notin> A" "d \<in> ?B"
    have xp: "x \<in> pool mempool" using x Ap by blast
    have dp: "d \<in> pool mempool" using d(3) Bp by blast
    have "d \<noteq> x" using x d(2) by blast
    then have "x \<in> CalculateMemPoolAncestors mempool d"
      using descendants_mirror [OF c xp dp] d(1) by blast
    then have "x \<in> ?B" using Bc d(3) by blast
    then show False using x AB by blast
  qed
  have M2: "\<forall>m \<in> set M2. iter m \<notin> A \<and> iter m \<notin> ?B \<and> covers mempool (?B \<union> A) m"
    using UpdatePackagesForAdded_covers [OF c Af Ap AB F M1] by (simp add: U)
  show ?thesis
    unfolding sp selection_inv_def within_limits_def
    using W G Mx B' B'p B'c mip M2 by (simp add: AddToBlock_fold_static)
qed

lemma selection_inv_mi:
  assumes "selection_inv mempool limits st" and "set xs \<subseteq> set (mi st)"
  shows "selection_inv mempool limits (st\<lparr> mi := xs \<rparr>)"
  using assms by (auto simp: selection_inv_def)

lemma selection_inv_drop_failed:
  assumes "selection_inv mempool limits st"
  shows "selection_inv mempool limits (drop_failed it u st)"
  using assms by (auto simp: selection_inv_def drop_failed_def erase_modified_def)

lemma count_failure_inv:
  assumes "selection_inv mempool limits st"
  shows "case count_failure st of
           Continue st' \<Rightarrow> selection_inv mempool limits st'
         | Finished st' \<Rightarrow> selection_inv mempool limits st'
         | AssertionFailure \<Rightarrow> False"
  using assms by (simp add: count_failure_def Let_def selection_inv_def)

lemma TestPackage_bounds:
  assumes lim: "limits_in_range limits"
    and a: "within_limits limits a" "nBlockMaxWeight a < 2 ^ 32"
    and p: "packageSize < 2 ^ 61" "0 \<le> packageSigOpsCost" "packageSigOpsCost < 2 ^ 63"
    and t: "TestPackage limits a packageSize packageSigOpsCost"
  shows "nBlockWeight a + 4 * packageSize < nBlockMaxWeight a"
    and "int (nBlockSigOpsCost a) + packageSigOpsCost < MAX_BLOCK_SIGOPS_COST limits"
proof -
  have "nBlockWeight a < 2 ^ 32" using a by (simp add: within_limits_def)
  then have "nBlockWeight a + 4 * packageSize < 2 ^ 32 + 4 * 2 ^ 61" using p(1) by linarith
  also have "\<dots> < (2::nat) ^ 64" by simp
  finally have w: "(nBlockWeight a + 4 * packageSize) mod 2 ^ 64 = nBlockWeight a + 4 * packageSize"
    by simp
  have "int (nBlockSigOpsCost a) < 2 ^ 63"
    using a(1) lim by (simp add: within_limits_def limits_in_range_def)
  then have "int (nBlockSigOpsCost a) + packageSigOpsCost < 2 ^ 64" using p(3) by simp
  moreover have "0 \<le> int (nBlockSigOpsCost a) + packageSigOpsCost" using p(2) by simp
  ultimately have g: "(int (nBlockSigOpsCost a) + packageSigOpsCost) mod 2 ^ 64
                        = int (nBlockSigOpsCost a) + packageSigOpsCost"
    by simp
  have m: "MAX_BLOCK_SIGOPS_COST limits mod 2 ^ 64 = MAX_BLOCK_SIGOPS_COST limits"
    using lim by (simp add: limits_in_range_def)
  have t1: "\<not> nBlockMaxWeight a \<le> (nBlockWeight a + WITNESS_SCALE_FACTOR * packageSize) mod 2 ^ 64"
    and t2: "\<not> MAX_BLOCK_SIGOPS_COST limits mod 2 ^ 64
               \<le> (int (nBlockSigOpsCost a) + packageSigOpsCost) mod 2 ^ 64"
    using t unfolding TestPackage_def by (auto split: if_splits)
  show "nBlockWeight a + 4 * packageSize < nBlockMaxWeight a"
    using t1 w by (simp add: WITNESS_SCALE_FACTOR_def)
  show "int (nBlockSigOpsCost a) + packageSigOpsCost < MAX_BLOCK_SIGOPS_COST limits"
    using t2 unfolding g m by simp
qed

lemma try_package_inv:
  assumes c: "mempool_consistent mempool"
    and lim: "limits_in_range limits"
    and inv: "selection_inv mempool limits st"
    and it: "it \<in> pool mempool"
    and modit: "case modit of None \<Rightarrow> it \<notin> inBlock (assembler st)
                | Some m \<Rightarrow> m \<in> set (mapModifiedTx st) \<and> iter m = it"
  shows "case try_package mempool limits st it modit of
           Continue st' \<Rightarrow> selection_inv mempool limits st'
         | Finished st' \<Rightarrow> selection_inv mempool limits st'
         | AssertionFailure \<Rightarrow> False"
proof -
  let ?a = "assembler st"
  let ?B = "inBlock ?a"
  define e where "e = (case modit of None \<Rightarrow> ModifiedEntry mempool it | Some m \<Rightarrow> m)"
  define A where "A = insert it (onlyUnconfirmed ?a (CalculateMemPoolAncestors mempool it))"
  define u where "u = (modit \<noteq> None)"
  have Mc: "\<forall>m \<in> set (mapModifiedTx st). iter m \<notin> ?B \<and> covers mempool ?B m"
    using inv by (simp add: selection_inv_def)
  have ie: "iter e = it" using modit by (simp add: e_def ModifiedEntry_def split: option.splits)
  have ce: "covers mempool ?B e"
    using modit Mc covers_ModifiedEntry [OF c it] by (auto simp: e_def split: option.splits)
  have nB: "it \<notin> ?B" using modit Mc by (auto split: option.splits)
  have ps: "(case modit of None \<Rightarrow> nSizeWithAncestors (entry mempool it)
              | Some m \<Rightarrow> mod_nSizeWithAncestors m) = mod_nSizeWithAncestors e"
    and pf: "(case modit of None \<Rightarrow> nModFeesWithAncestors (entry mempool it)
              | Some m \<Rightarrow> mod_nModFeesWithAncestors m) = mod_nModFeesWithAncestors e"
    and pg: "(case modit of None \<Rightarrow> nSigOpCostWithAncestors (entry mempool it)
              | Some m \<Rightarrow> mod_nSigOpCostWithAncestors m) = mod_nSigOpCostWithAncestors e"
    by (simp_all add: e_def ModifiedEntry_def split: option.splits)
  have tp: "try_package mempool limits st it modit =
     (if mod_nModFeesWithAncestors e < GetFee (blockMinFeeRate ?a) (mod_nSizeWithAncestors e)
      then count_failure (drop_failed it u st)
      else if \<not> TestPackage limits ?a (mod_nSizeWithAncestors e) (mod_nSigOpCostWithAncestors e)
      then count_failure (drop_failed it u st)
      else if \<not> TestPackageTransactions mempool ?a A
      then Continue (drop_failed it u st)
      else Continue (select_package mempool st A))"
    unfolding try_package_def Let_def ps pf pg using nB by (simp add: A_def u_def)
  have df: "selection_inv mempool limits (drop_failed it u st)"
    by (rule selection_inv_drop_failed [OF inv])
  have Ar: "A = remaining mempool ?B it"
    using nB by (auto simp: A_def onlyUnconfirmed_def remaining_def)
  have sel: "selection_inv mempool limits (select_package mempool st A)"
    if t: "TestPackage limits ?a (mod_nSizeWithAncestors e) (mod_nSigOpCostWithAncestors e)"
  proof -
    have s1: "package_size mempool A \<le> mod_nSizeWithAncestors e"
      and s2: "mod_nSizeWithAncestors e \<le> nSizeWithAncestors (entry mempool it)"
      and g1: "package_sigops mempool A \<le> mod_nSigOpCostWithAncestors e"
      and g2: "mod_nSigOpCostWithAncestors e \<le> nSigOpCostWithAncestors (entry mempool it)"
      using ce by (simp_all add: covers_def ie Ar)
    have p1: "mod_nSizeWithAncestors e < 2 ^ 61" using s2 consistentD(10) [OF c it] by simp
    have "0 \<le> package_sigops mempool A"
      unfolding Ar by (rule package_sigops_nonneg [OF c remaining_pool [OF c it]])
    then have p2: "0 \<le> mod_nSigOpCostWithAncestors e" using g1 by simp
    have p3: "mod_nSigOpCostWithAncestors e < 2 ^ 63" using g2 consistentD(11) [OF c it] by simp
    have a: "within_limits limits ?a" "nBlockMaxWeight ?a < 2 ^ 32"
      using inv by (simp_all add: selection_inv_def)
    have w: "nBlockWeight ?a + 4 * package_size mempool A < nBlockMaxWeight ?a"
      using TestPackage_bounds(1) [OF lim a p1 p2 p3 t] s1 by linarith
    have g: "int (nBlockSigOpsCost ?a) + package_sigops mempool A < MAX_BLOCK_SIGOPS_COST limits"
      using TestPackage_bounds(2) [OF lim a p1 p2 p3 t] g1 by linarith
    show ?thesis by (rule select_package_inv [OF c lim inv it nB A_def w g])
  qed
  show ?thesis unfolding tp using count_failure_inv [OF df] df sel by simp
qed

lemma best_modified_in_set: "best_modified M = Some m \<Longrightarrow> m \<in> set M"
  by (induction M arbitrary: m) (auto split: option.splits if_splits)

lemma next_candidate_Some:
  assumes "next_candidate mempool xs bm = Some (it, modit, xs')"
  shows "set xs' \<subseteq> set xs"
    and "case modit of None \<Rightarrow> xs \<noteq> [] \<and> it = hd xs | Some m \<Rightarrow> bm = Some m \<and> it = iter m"
  using assms by (cases xs; cases bm; auto split: if_splits)+

lemma addPackageTxs_step_inv:
  assumes c: "mempool_consistent mempool"
    and lim: "limits_in_range limits"
    and inv: "selection_inv mempool limits st"
  shows "case addPackageTxs_step mempool limits st of
           Continue st' \<Rightarrow> selection_inv mempool limits st'
         | Finished st' \<Rightarrow> selection_inv mempool limits st'
         | AssertionFailure \<Rightarrow> False"
proof -
  consider (finished) "mi st = [] \<and> mapModifiedTx st = []"
    | (skip) "\<not> (mi st = [] \<and> mapModifiedTx st = [])" "mi st \<noteq> []"
        "SkipMapTxEntry (assembler st) (hd (mi st)) (mapModifiedTx st) (failedTx st)"
    | (pick) "\<not> (mi st = [] \<and> mapModifiedTx st = [])"
        "\<not> (mi st \<noteq> []
            \<and> SkipMapTxEntry (assembler st) (hd (mi st)) (mapModifiedTx st) (failedTx st))"
    by blast
  then show ?thesis
  proof cases
    case finished
    then show ?thesis using inv by (simp add: addPackageTxs_step_def)
  next
    case skip
    have "selection_inv mempool limits (st\<lparr> mi := tl (mi st) \<rparr>)"
      by (rule selection_inv_mi [OF inv]) (use skip(2) in \<open>auto dest: list.set_sel(2)\<close>)
    then show ?thesis using skip by (simp add: addPackageTxs_step_def)
  next
    case pick
    have step: "addPackageTxs_step mempool limits st
        = (case next_candidate mempool (mi st) (best_modified (mapModifiedTx st)) of
             None \<Rightarrow> Finished st
           | Some (it, modit, mi') \<Rightarrow> try_package mempool limits (st\<lparr> mi := mi' \<rparr>) it modit)"
      unfolding addPackageTxs_step_def if_not_P [OF pick(1)] if_not_P [OF pick(2)] by (rule refl)
    show ?thesis
    proof (cases "next_candidate mempool (mi st) (best_modified (mapModifiedTx st))")
      case None
      then show ?thesis using inv by (simp add: step)
    next
      case (Some r)
      obtain it modit mi' where r: "r = (it, modit, mi')" by (cases r)
      note nc = next_candidate_Some [OF Some [unfolded r]]
      let ?st = "st\<lparr> mi := mi' \<rparr>"
      have inv': "selection_inv mempool limits ?st" by (rule selection_inv_mi [OF inv nc(1)])
      have modit: "case modit of None \<Rightarrow> it \<notin> inBlock (assembler ?st)
                | Some m \<Rightarrow> m \<in> set (mapModifiedTx ?st) \<and> iter m = it"
        using nc(2) pick(2) by (auto simp: SkipMapTxEntry_def dest: best_modified_in_set
            split: option.splits)
      have itp: "it \<in> pool mempool"
      proof (cases modit)
        case None
        then have "it \<in> set (mi st)" using nc(2) by simp
        then show ?thesis using inv by (auto simp: selection_inv_def)
      next
        case (Some m)
        then have "m \<in> set (mapModifiedTx st)" "iter m = it" using modit by simp_all
        then show ?thesis using inv by (auto simp: selection_inv_def covers_def)
      qed
      show ?thesis
        using try_package_inv [OF c lim inv' itp modit] Some r by (simp add: step)
    qed
  qed
qed

lemma addPackageTxs_run_inv:
  assumes c: "mempool_consistent mempool"
    and lim: "limits_in_range limits"
    and inv: "selection_inv mempool limits st"
  shows "case addPackageTxs_run mempool limits n st of
           Continue st' \<Rightarrow> selection_inv mempool limits st'
         | Finished st' \<Rightarrow> selection_inv mempool limits st'
         | AssertionFailure \<Rightarrow> False"
  using inv
proof (induction n arbitrary: st)
  case 0
  then show ?case by simp
next
  case (Suc n)
  show ?case
  proof (cases "addPackageTxs_step mempool limits st")
    case (Continue st')
    then have "selection_inv mempool limits st'"
      using addPackageTxs_step_inv [OF c lim Suc.prems] by simp
    then show ?thesis using Suc.IH Continue by simp
  next
    case (Finished st')
    then show ?thesis using addPackageTxs_step_inv [OF c lim Suc.prems] by simp
  next
    case AssertionFailure
    then show ?thesis using addPackageTxs_step_inv [OF c lim Suc.prems] by simp
  qed
qed

lemma clamp_nBlockMaxWeight_range:
  "4000 \<le> clamp_nBlockMaxWeight limits w" "clamp_nBlockMaxWeight limits w < 2 ^ 32"
proof -
  show "4000 \<le> clamp_nBlockMaxWeight limits w" by (simp add: clamp_nBlockMaxWeight_def)
  define X where "X = (MAX_BLOCK_WEIGHT limits + 2 ^ 32 - 4000) mod 2 ^ 32"
  have "X < 2 ^ 32" unfolding X_def by (rule mod_less_divisor) simp
  moreover have "min X w \<le> X" by simp
  ultimately have "max 4000 (min X w) < 2 ^ 32" by simp
  then show "clamp_nBlockMaxWeight limits w < 2 ^ 32"
    unfolding clamp_nBlockMaxWeight_def X_def .
qed

lemma addPackageTxs_begin_inv:
  assumes lim: "limits_in_range limits"
  shows "selection_inv mempool limits
           (addPackageTxs_begin mempool
              (CreateNewBlock_prepare (BlockAssembler_init limits fee w) height cutoff witness))"
  using lim clamp_nBlockMaxWeight_range [of limits w]
  by (simp add: selection_inv_def addPackageTxs_begin_def CreateNewBlock_prepare_def
      resetBlock_def BlockAssembler_init_def within_limits_def limits_in_range_def
      UpdatePackagesForAdded_def pool_def)

text \<open>
  C6: for every mempool view whose entries carry the aggregates of their ancestors and
  every number of passes of the selection loop, started as \<open>CreateNewBlock\<close> starts it
  (4000 units of weight and 400 sigops reserved for the coinbase), the accumulated block
  weight never exceeds \<open>nBlockMaxWeight\<close> and the accumulated sigop cost never exceeds
  \<open>MAX_BLOCK_SIGOPS_COST\<close>; and the loop's assertion never fails.  Every package is
  tested against both bounds before any of its transactions is added, and what is added
  is never more than what was tested.
\<close>

theorem selection_within_limits:
  assumes "mempool_consistent mempool" and "limits_in_range limits"
  shows "case addPackageTxs_run mempool limits n
                (addPackageTxs_begin mempool
                   (CreateNewBlock_prepare (BlockAssembler_init limits fee w)
                      height cutoff witness)) of
           Continue st \<Rightarrow> within_limits limits (assembler st)
         | Finished st \<Rightarrow> within_limits limits (assembler st)
         | AssertionFailure \<Rightarrow> False"
  using addPackageTxs_run_inv [OF assms addPackageTxs_begin_inv [OF assms(2)],
      of n fee w height cutoff witness]
  by (simp add: selection_inv_def split: outcome.splits)

subsection \<open>The parent and child, selected\<close>

lemma parent_child_start_eval:
  "parent_child_start =
     \<lparr> assembler = \<lparr> nBlockMaxWeight = 3996000, blockMinFeeRate = 1000, nBlockWeight = 4000,
          nBlockTx = 0, nBlockSigOpsCost = 400, nFees = 0, inBlock = {}, block_nHeight = 10,
          nLockTimeCutoff = 0, fIncludeWitness = True, block_vtx = [], vTxFees = [],
          vTxSigOpsCost = [] \<rparr>,
       mi = [1, 0], mapModifiedTx = [], failedTx = {}, nConsecutiveFailed = 0,
       nPackagesSelected = 0, nDescendantsUpdated = 0 \<rparr>"
  by (simp add: parent_child_start_def addPackageTxs_begin_def CreateNewBlock_prepare_def
      resetBlock_def BlockAssembler_init_def clamp_nBlockMaxWeight_def consensus_limits_def
      UpdatePackagesForAdded_def parent_child_pool_def)

lemmas tx_eval = parent_tx_def child_tx_def

lemma parent_child_pool_simps:
  "entry parent_child_pool 0 = parent_tx"
  "entry parent_child_pool (Suc 0) = child_tx"
  "CalculateMemPoolAncestors parent_child_pool 0 = {}"
  "CalculateMemPoolAncestors parent_child_pool (Suc 0) = {0}"
  "CalculateDescendants parent_child_pool 0 = {0, Suc 0}"
  "CalculateDescendants parent_child_pool (Suc 0) = {Suc 0}"
  by (simp_all add: parent_child_pool_def)

lemma SortForBlock_parent_child:
  "SortForBlock parent_child_pool {0, Suc 0} = [0, Suc 0]"
  "SortForBlock parent_child_pool {Suc 0, 0} = [0, Suc 0]"
  by (simp_all add: SortForBlock_def parent_child_pool_simps tx_eval)

lemma parent_child_step1:
  "addPackageTxs_step parent_child_pool consensus_limits parent_child_start =
     Continue (parent_child_selected [0])"
  unfolding parent_child_start_eval parent_child_selected_def parent_child_block_def
  by (simp add: addPackageTxs_step_def SkipMapTxEntry_def try_package_def GetFee_def
      TestPackage_def WITNESS_SCALE_FACTOR_def onlyUnconfirmed_def TestPackageTransactions_def
      IsFinalTx_def select_package_def SortForBlock_parent_child AddToBlock_def
      erase_modified_def UpdatePackagesForAdded_def update_descendant_def Let_def
      parent_child_pool_simps tx_eval consensus_limits_def insert_commute)

lemma parent_child_step2:
  "addPackageTxs_step parent_child_pool consensus_limits (parent_child_selected [0]) =
     Continue (parent_child_selected [])"
  by (simp add: addPackageTxs_step_def SkipMapTxEntry_def parent_child_selected_def
      parent_child_block_def)

lemma parent_child_step3:
  "addPackageTxs_step parent_child_pool consensus_limits (parent_child_selected []) =
     Finished (parent_child_selected [])"
  by (simp add: addPackageTxs_step_def parent_child_selected_def)

lemma parent_child_run:
  "addPackageTxs_run parent_child_pool consensus_limits 3 parent_child_start =
     Finished (parent_child_selected [])"
  by (simp add: numeral_3_eq_3 parent_child_step1 parent_child_step2 parent_child_step3)

theorem selection_within_limits_witness:
  "mempool_consistent parent_child_pool \<and> limits_in_range consensus_limits
   \<and> (\<exists>st. addPackageTxs_run parent_child_pool consensus_limits 3 parent_child_start
               = Finished st
            \<and> block_vtx (assembler st) = [0, 1]
            \<and> nBlockWeight (assembler st) = 5200 \<and> nBlockSigOpsCost (assembler st) = 405
            \<and> within_limits consensus_limits (assembler st))"
proof -
  have c: "mempool_consistent parent_child_pool"
    by (simp add: mempool_consistent_def pool_def parent_child_pool_def parent_tx_def
        child_tx_def package_size_def package_sigops_def WITNESS_SCALE_FACTOR_def)
  have l: "limits_in_range consensus_limits"
    by (simp add: limits_in_range_def consensus_limits_def)
  have "within_limits consensus_limits (assembler (parent_child_selected []))"
    using selection_within_limits [OF c l, of 3 1000 3996000 10 0 True]
    by (simp add: parent_child_start_def [symmetric] parent_child_run)
  then show ?thesis
    using c l by (simp add: parent_child_run parent_child_selected_def parent_child_block_def)
qed

end
